(* ===== verification/Crlite_Prelude.thy ===== *)
theory Crlite_Prelude
  imports Main "HOL-Library.Word" "HOL-Library.AList" "HOL-Library.Char_ord"
    "HOL-Library.List_Lexorder" "HOL-Library.Sublist"
begin

text \<open>
  The prelude of the development: what the Go code of the repository takes from the language
  and from the small packages of its standard library, and the generic lemmas and named
  collections the component theories share.

  \<^item> A Go \<^verbatim>\<open>byte\<close> is an 8-bit word and a \<^verbatim>\<open>[]byte\<close> a list of them; a Go \<^verbatim>\<open>string\<close> is a
    sequence of bytes and is a HOL \<open>string\<close>, whose characters are bytes.
    \<open>string_of_bytes\<close> and \<open>bytes_of_string\<close> are the conversions \<^verbatim>\<open>string(b)\<close> and
    \<^verbatim>\<open>[]byte(s)\<close>.
  \<^item> A Go \<^verbatim>\<open>error\<close> is a value of \<open>go_error\<close>; a function returning \<^verbatim>\<open>(T, error)\<close> returns
    \<open>go_error + T\<close>, a function returning only an \<^verbatim>\<open>error\<close> returns \<open>go_error option\<close>.
  \<^item> A call that may end the process (\<^verbatim>\<open>glog.Fatalf\<close>, \<^verbatim>\<open>os.Exit\<close>) or panic returns a value
    of \<open>'a run\<close>.
  \<^item> A Go \<^verbatim>\<open>map\<close> is an association list with distinct keys: the list order stands for one
    of the iteration orders the language leaves open.
\<close>

subsection \<open>Bytes, strings, errors and outcomes\<close>

type_synonym byte = "8 word"
type_synonym bytes = "byte list"

definition char_of_byte :: "byte \<Rightarrow> char" where
  "char_of_byte w = char_of (unat w)"

definition byte_of_char :: "char \<Rightarrow> byte" where
  "byte_of_char c = of_nat (of_char c)"

definition string_of_bytes :: "bytes \<Rightarrow> string" where
  "string_of_bytes = map char_of_byte"

definition bytes_of_string :: "string \<Rightarrow> bytes" where
  "bytes_of_string = map byte_of_char"

text \<open>
  \<open>Errorf\<close> is \<^verbatim>\<open>fmt.Errorf\<close> with its rendered text, \<open>ExtError\<close> an error value handed over
  by a package outside the repository (its text is what \<^verbatim>\<open>Error()\<close> returns), and
  \<open>StdError\<close> an error of a parser of the standard library, named by that function: the code
  only tests such an error against \<^verbatim>\<open>nil\<close> or logs it.
\<close>

datatype go_error = Errorf string | ExtError string | StdError string

fun err_text :: "go_error \<Rightarrow> string" where
  "err_text (Errorf s) = s"
| "err_text (ExtError s) = s"
| "err_text (StdError s) = s"

text \<open>A pair of results, value and error, as Go functions return them.\<close>

type_synonym 'a res = "'a \<times> go_error option"

text \<open>The outcome of a call: it returned, it ended the process, or it panicked.\<close>

datatype 'a run = Done 'a | Fatal string | Panic string

fun run_bind :: "'a run \<Rightarrow> ('a \<Rightarrow> 'b run) \<Rightarrow> 'b run" where
  "run_bind (Done a) f = f a"
| "run_bind (Fatal s) f = Fatal s"
| "run_bind (Panic s) f = Panic s"

text \<open>\<^verbatim>\<open>strconv.Itoa\<close> and the verb \<^verbatim>\<open>%d\<close> on non-negative numbers, and on any integer.\<close>

definition digit_char :: "nat \<Rightarrow> char" where
  "digit_char d = char_of (48 + d)"

fun show_nat :: "nat \<Rightarrow> string" where
  "show_nat n = (if n < 10 then [digit_char n]
     else show_nat (n div 10) @ [digit_char (n mod 10)])"

declare show_nat.simps [simp del]

definition show_int :: "int \<Rightarrow> string" where
  "show_int i = (if i < 0 then CHR ''-'' # show_nat (nat (- i)) else show_nat (nat i))"

subsection \<open>The package strings\<close>

text \<open>
  \<^verbatim>\<open>strings.Split(s, sep)\<close> for a non-empty separator (the code only splits at such): cut at
  each non-overlapping occurrence from the left; \<open>acc\<close> holds the current part, reversed.
\<close>

function split_from :: "string \<Rightarrow> string \<Rightarrow> string \<Rightarrow> string list" where
  "split_from sep acc s =
     (if s = [] \<or> sep = [] then [rev acc @ s]
      else if prefix sep s then rev acc # split_from sep [] (drop (length sep) s)
      else split_from sep (hd s # acc) (tl s))"
  by pat_completeness auto
termination
  by (relation "measure (\<lambda>(sep, acc, s). length s)") (auto simp: prefix_def)

declare split_from.simps [simp del]

definition strings_Split :: "string \<Rightarrow> string \<Rightarrow> string list" where
  "strings_Split s sep = split_from sep [] s"

definition strings_HasPrefix :: "string \<Rightarrow> string \<Rightarrow> bool" where
  "strings_HasPrefix s p \<longleftrightarrow> prefix p s"

definition strings_HasSuffix :: "string \<Rightarrow> string \<Rightarrow> bool" where
  "strings_HasSuffix s p \<longleftrightarrow> suffix p s"

definition strings_TrimSuffix :: "string \<Rightarrow> string \<Rightarrow> string" where
  "strings_TrimSuffix s p = (if suffix p s then take (length s - length p) s else s)"

fun strings_Contains :: "string \<Rightarrow> string \<Rightarrow> bool" where
  "strings_Contains [] p \<longleftrightarrow> p = []"
| "strings_Contains (c # s) p \<longleftrightarrow> prefix p (c # s) \<or> strings_Contains s p"

text \<open>\<^verbatim>\<open>strings.Compare\<close> is the bytewise lexicographic comparison.\<close>

definition strings_Compare :: "string \<Rightarrow> string \<Rightarrow> int" where
  "strings_Compare a b = (if a = b then 0 else if a < b then -1 else 1)"

text \<open>\<^verbatim>\<open>strings.Trim(s, cutset)\<close> for a cutset of one ASCII character.\<close>

definition strings_Trim_char :: "string \<Rightarrow> char \<Rightarrow> string" where
  "strings_Trim_char s c =
     rev (dropWhile (\<lambda>x. x = c) (rev (dropWhile (\<lambda>x. x = c) s)))"

text \<open>
  \<^verbatim>\<open>strings.TrimSpace\<close>: the white space of \<^verbatim>\<open>unicode.IsSpace\<close>, as the UTF-8 encodings of
  its code points, removed at both ends.
\<close>

definition white_space :: "string list" where
  "white_space = [[CHR 0x09], [CHR 0x0A], [CHR 0x0B], [CHR 0x0C], [CHR 0x0D], [CHR 0x20],
     [CHR 0xC2, CHR 0x85], [CHR 0xC2, CHR 0xA0], [CHR 0xE1, CHR 0x9A, CHR 0x80],
     [CHR 0xE2, CHR 0x80, CHR 0x80], [CHR 0xE2, CHR 0x80, CHR 0x81],
     [CHR 0xE2, CHR 0x80, CHR 0x82], [CHR 0xE2, CHR 0x80, CHR 0x83],
     [CHR 0xE2, CHR 0x80, CHR 0x84], [CHR 0xE2, CHR 0x80, CHR 0x85],
     [CHR 0xE2, CHR 0x80, CHR 0x86], [CHR 0xE2, CHR 0x80, CHR 0x87],
     [CHR 0xE2, CHR 0x80, CHR 0x88], [CHR 0xE2, CHR 0x80, CHR 0x89],
     [CHR 0xE2, CHR 0x80, CHR 0x8A], [CHR 0xE2, CHR 0x80, CHR 0xA8],
     [CHR 0xE2, CHR 0x80, CHR 0xA9], [CHR 0xE2, CHR 0x80, CHR 0xAF],
     [CHR 0xE2, CHR 0x81, CHR 0x9F], [CHR 0xE3, CHR 0x80, CHR 0x80]]"

function trim_left :: "string list \<Rightarrow> string \<Rightarrow> string" where
  "trim_left ws s =
     (case find (\<lambda>w. w \<noteq> [] \<and> prefix w s) ws of
        None \<Rightarrow> s
      | Some w \<Rightarrow> trim_left ws (drop (length w) s))"
  by pat_completeness auto
termination
  by (relation "measure (\<lambda>(ws, s). length s)")
    (auto simp: find_Some_iff prefix_def)

declare trim_left.simps [simp del]

definition strings_TrimSpace :: "string \<Rightarrow> string" where
  "strings_TrimSpace s =
     rev (trim_left (map rev white_space) (rev (trim_left white_space s)))"

subsection \<open>The package sort\<close>

text \<open>
  \<^verbatim>\<open>sort.Search(n, f)\<close>, as its loop: the window \<open>[i, j)\<close> is halved at
  \<^verbatim>\<open>h = int(uint(i+j) >> 1)\<close> until it is empty.
\<close>

function search_loop :: "(nat \<Rightarrow> bool) \<Rightarrow> nat \<Rightarrow> nat \<Rightarrow> nat" where
  "search_loop f i j =
     (if i < j then
        (let h = (i + j) div 2
         in if \<not> f h then search_loop f (h + 1) j else search_loop f i h)
      else i)"
  by pat_completeness auto
termination
  by (relation "measure (\<lambda>(f, i, j). j - i)") (auto simp: Let_def)

declare search_loop.simps [simp del]

definition sort_Search :: "nat \<Rightarrow> (nat \<Rightarrow> bool) \<Rightarrow> nat" where
  "sort_Search n f = search_loop f 0 n"

text \<open>What \<^verbatim>\<open>sort.Search\<close> promises: \<open>r\<close> separates the indices where \<open>f\<close> fails.\<close>

definition cuts_at :: "nat \<Rightarrow> (nat \<Rightarrow> bool) \<Rightarrow> nat \<Rightarrow> bool" where
  "cuts_at n f r \<longleftrightarrow> r \<le> n \<and> (\<forall>k < r. \<not> f k) \<and> (\<forall>k. r \<le> k \<and> k < n \<longrightarrow> f k)"

text \<open>
  The insertion idiom of the code, \<^verbatim>\<open>s = append(s, zero); copy(s[i+1:], s[i:]); s[i] = x\<close>:
  the slice grows by one, the tail from \<open>i\<close> moves up by one and \<open>x\<close> takes its place.
\<close>

definition slice_insert :: "nat \<Rightarrow> 'a \<Rightarrow> 'a \<Rightarrow> 'a list \<Rightarrow> 'a list" where
  "slice_insert i zero x s =
     (let s1 = s @ [zero];
          s2 = take (i + 1) s1 @ take (length s1 - (i + 1)) (drop i s1)
      in s2[i := x])"

subsection \<open>Collections\<close>

named_theorems codec_simps \<open>round trips of the encodings and conversions\<close>
named_theorems alist_simps \<open>Go maps as association lists\<close>
named_theorems inv_intros \<open>preservation of the components' invariants\<close>

abbreviation keys :: "('k \<times> 'v) list \<Rightarrow> 'k set" where
  "keys m \<equiv> fst ` set m"

abbreviation wf_map :: "('k \<times> 'v) list \<Rightarrow> bool" where
  "wf_map m \<equiv> distinct (map fst m)"

subsection \<open>Lemmas: conversions\<close>

lemma byte_char_inverse [simp, codec_simps]: "byte_of_char (char_of_byte w) = w"
proof -
  have "unat w < 256" using unsigned_less [of w] by simp
  then show ?thesis by (simp add: byte_of_char_def char_of_byte_def)
qed

lemma char_byte_inverse [simp, codec_simps]: "char_of_byte (byte_of_char c) = c"
  by (simp add: byte_of_char_def char_of_byte_def unat_of_nat)

lemma bytes_string_inverse [simp, codec_simps]: "bytes_of_string (string_of_bytes b) = b"
  by (simp add: bytes_of_string_def string_of_bytes_def comp_def)

lemma string_bytes_inverse [simp, codec_simps]: "string_of_bytes (bytes_of_string s) = s"
  by (simp add: bytes_of_string_def string_of_bytes_def comp_def)

lemma string_of_bytes_inject [simp]: "string_of_bytes a = string_of_bytes b \<longleftrightarrow> a = b"
  by (metis bytes_string_inverse)

lemma run_bind_Done: "run_bind m f = Done b \<longleftrightarrow> (\<exists>a. m = Done a \<and> f a = Done b)"
  by (cases m) auto

subsection \<open>Lemmas: Go maps\<close>

lemma map_of_update [simp, alist_simps]:
  "map_of (AList.update k v m) = (map_of m)(k \<mapsto> v)"
  by (rule update_conv')

lemma map_of_delete [simp, alist_simps]:
  "map_of (AList.delete k m) = (map_of m)(k := None)"
  by (rule delete_conv')

lemma keys_update [simp, alist_simps]: "keys (AList.update k v m) = insert k (keys m)"
  using dom_update [of k v m] by (simp add: dom_map_of_conv_image_fst)

lemma keys_delete [simp, alist_simps]: "keys (AList.delete k m) = keys m - {k}"
  by (auto simp: AList.delete_eq image_iff)

lemma set_delete_subset: "set (AList.delete k m) \<subseteq> set m"
  by (auto simp: AList.delete_eq)

lemma wf_map_update [simp, alist_simps, intro]: "wf_map m \<Longrightarrow> wf_map (AList.update k v m)"
  by (rule distinct_update)

lemma wf_map_delete [simp, alist_simps, intro]: "wf_map m \<Longrightarrow> wf_map (AList.delete k m)"
  by (rule distinct_delete)

lemma map_of_in_keys: "map_of m k = Some v \<Longrightarrow> k \<in> keys m"
  by (metis domI dom_map_of_conv_image_fst)

lemma map_of_None_keys: "map_of m k = None \<longleftrightarrow> k \<notin> keys m"
  by (simp add: map_of_eq_None_iff)

lemma set_update_wf:
  "wf_map m \<Longrightarrow> set (AList.update k v m) = insert (k, v) {(k', v') \<in> set m. k' \<noteq> k}"
  by (induction m) (auto simp: image_iff)

subsection \<open>Lemmas: splitting strings\<close>

lemma not_prefix_fresh: "sep \<noteq> [] \<Longrightarrow> hd sep \<noteq> c \<Longrightarrow> \<not> prefix sep (c # s)"
  by (cases sep) auto

lemma split_from_part:
  "sep \<noteq> [] \<Longrightarrow> hd sep \<notin> set p \<Longrightarrow>
   split_from sep acc (p @ sep @ rest) = (rev acc @ p) # split_from sep [] rest"
proof (induction p arbitrary: acc)
  case Nil
  then show ?case by (subst split_from.simps) simp
next
  case (Cons c p)
  then have "\<not> prefix sep (c # p @ sep @ rest)" by (intro not_prefix_fresh) auto
  with Cons show ?case by (subst split_from.simps) simp
qed

lemma split_from_last:
  "sep \<noteq> [] \<Longrightarrow> hd sep \<notin> set p \<Longrightarrow> split_from sep acc p = [rev acc @ p]"
proof (induction p arbitrary: acc)
  case Nil
  then show ?case by (subst split_from.simps) simp
next
  case (Cons c p)
  then have "\<not> prefix sep (c # p)" by (intro not_prefix_fresh) auto
  with Cons show ?case by (subst split_from.simps) simp
qed

lemma strings_Split_part:
  "sep \<noteq> [] \<Longrightarrow> hd sep \<notin> set p \<Longrightarrow>
   strings_Split (p @ sep @ rest) sep = p # strings_Split rest sep"
  by (simp add: strings_Split_def split_from_part)

lemma strings_Split_last:
  "sep \<noteq> [] \<Longrightarrow> hd sep \<notin> set p \<Longrightarrow> strings_Split p sep = [p]"
  by (simp add: strings_Split_def split_from_last)

lemmas split_simps = strings_Split_part strings_Split_last

lemma strings_TrimSuffix_append [simp]: "strings_TrimSuffix (s @ p) p = s"
  by (simp add: strings_TrimSuffix_def suffix_def)

lemma strings_Compare_simps [simp]:
  "strings_Compare a b \<le> 0 \<longleftrightarrow> a \<le> b"
  "strings_Compare a b = 0 \<longleftrightarrow> a = b"
  "0 \<le> strings_Compare a b \<longleftrightarrow> b \<le> a"
  by (auto simp: strings_Compare_def)

subsection \<open>Lemmas: binary search and insertion\<close>

text \<open>
  The contract of \<^verbatim>\<open>sort.Search\<close>: for a predicate that stays true once it is true, the result
  is the least index where it holds, or \<open>n\<close>.
\<close>

lemma search_loop_stop: "\<not> i < j \<Longrightarrow> search_loop f i j = i"
  by (subst search_loop.simps) simp

lemma search_loop_low:
  "i < j \<Longrightarrow> f ((i + j) div 2) \<Longrightarrow> search_loop f i j = search_loop f i ((i + j) div 2)"
  by (subst search_loop.simps) (simp add: Let_def)

lemma search_loop_high:
  "i < j \<Longrightarrow> \<not> f ((i + j) div 2) \<Longrightarrow>
   search_loop f i j = search_loop f ((i + j) div 2 + 1) j"
  by (subst search_loop.simps) (simp add: Let_def)

lemma search_loop_cuts:
  assumes mono: "\<And>x y. f x \<Longrightarrow> x \<le> y \<Longrightarrow> y < n \<Longrightarrow> f y"
  shows "i \<le> j \<Longrightarrow> j \<le> n \<Longrightarrow> \<forall>k < i. \<not> f k \<Longrightarrow> \<forall>k. j \<le> k \<and> k < n \<longrightarrow> f k \<Longrightarrow>
    cuts_at n f (search_loop f i j)"
proof (induction "j - i" arbitrary: i j rule: less_induct)
  case less
  let ?h = "(i + j) div 2"
  consider "\<not> i < j" | "i < j" "f ?h" | "i < j" "\<not> f ?h" by blast
  then show ?case
  proof cases
    case 1
    with less.prems have "i = j" by simp
    with less.prems show ?thesis by (simp add: search_loop_stop cuts_at_def)
  next
    case 2
    then have "?h - i < j - i" "i \<le> ?h" "?h \<le> n" using less.prems by auto
    moreover have "\<forall>k. ?h \<le> k \<and> k < n \<longrightarrow> f k" using mono [OF \<open>f ?h\<close>] by simp
    ultimately have "cuts_at n f (search_loop f i ?h)"
      using less.hyps [of ?h i] less.prems(3) by simp
    then show ?thesis unfolding search_loop_low [of i j f, OF 2] .
  next
    case 3
    then have *: "j - (?h + 1) < j - i" "?h + 1 \<le> j" "?h < n" using less.prems by auto
    have "\<not> f k" if "k < ?h + 1" for k
      using mono [of k ?h] 3(2) *(3) that by auto
    then have "cuts_at n f (search_loop f (?h + 1) j)"
      using less.hyps [of j "?h + 1"] less.prems * by blast
    then show ?thesis unfolding search_loop_high [of i j f, OF 3] .
  qed
qed

lemma sort_Search_cuts:
  assumes "\<And>x y. f x \<Longrightarrow> x \<le> y \<Longrightarrow> y < n \<Longrightarrow> f y"
  shows "cuts_at n f (sort_Search n f)"
  unfolding sort_Search_def by (rule search_loop_cuts [OF assms]) auto

lemma slice_insert_eq:
  assumes "i \<le> length s"
  shows "slice_insert i z x s = take i s @ x # drop i s"
proof (cases "i = length s")
  case True
  then show ?thesis by (simp add: slice_insert_def Let_def)
next
  case False
  with assms have i: "i < length s" by simp
  then have "take (Suc i) s = take i s @ [s ! i]" by (simp add: take_Suc_conv_app_nth)
  with i show ?thesis
    by (simp add: slice_insert_def Let_def list_update_append)
qed

end
