(* ===== verification/Go_Time.thy ===== *)
theory Go_Time
  imports Crlite_Prelude
begin

text \<open>
  The part of Go's package \<^verbatim>\<open>time\<close> the repository uses. A \<^verbatim>\<open>time.Time\<close> is the integer number of
  nanoseconds since Go's zero time, the start of year 1 in UTC (the code only handles UTC
  times), and a \<^verbatim>\<open>time.Duration\<close> an integer number of nanoseconds. The calendar is Go's own
  algorithm for splitting a day count into year, month and day; \<^verbatim>\<open>Format\<close> and \<^verbatim>\<open>Parse\<close> are
  given for the two layouts of \<^verbatim>\<open>storage/types.go\<close>, \<^verbatim>\<open>2006-01-02\<close> and \<^verbatim>\<open>2006-01-02-15\<close>.
  The lemmas show that a parsed date formats back to its text and that a formatted instant
  parses back to the start of its day or hour.
\<close>

type_synonym time = int
type_synonym duration = int

definition Millisecond :: duration where "Millisecond = 1000000"
definition Second :: duration where "Second = 1000000000"
definition Hour :: duration where "Hour = 3600000000000"
definition Day :: duration where "Day = 86400000000000"

definition time_Before :: "time \<Rightarrow> time \<Rightarrow> bool" where
  "time_Before t u \<longleftrightarrow> t < u"

definition time_Truncate :: "time \<Rightarrow> duration \<Rightarrow> time" where
  "time_Truncate t d = (if d \<le> 0 then t else t - t mod d)"

text \<open>\<^verbatim>\<open>t.Sub(u)\<close> saturates at the bounds of an int64.\<close>

definition time_Sub :: "time \<Rightarrow> time \<Rightarrow> duration" where
  "time_Sub t u = max (- 9223372036854775808) (min 9223372036854775807 (t - u))"

definition unix_epoch :: time where
  "unix_epoch = 62135596800 * Second"

definition time_Unix :: "int \<Rightarrow> int \<Rightarrow> time" where
  "time_Unix sec nsec = unix_epoch + sec * Second + nsec"

subsection \<open>The calendar\<close>

definition isLeap :: "int \<Rightarrow> bool" where
  "isLeap y \<longleftrightarrow> y mod 4 = 0 \<and> (y mod 100 \<noteq> 0 \<or> y mod 400 = 0)"

text \<open>The number of days before each month, not counting a leap day, with the total at the end.\<close>

definition daysBefore :: "int \<Rightarrow> int" where
  "daysBefore m = (if m \<le> 0 then 0 else if m = 1 then 31 else if m = 2 then 59
     else if m = 3 then 90 else if m = 4 then 120 else if m = 5 then 151
     else if m = 6 then 181 else if m = 7 then 212 else if m = 8 then 243
     else if m = 9 then 273 else if m = 10 then 304 else if m = 11 then 334 else 365)"

definition daysIn :: "int \<Rightarrow> int \<Rightarrow> int" where
  "daysIn m y = (if m = 2 \<and> isLeap y then 29 else daysBefore m - daysBefore (m - 1))"

definition days_before_year :: "int \<Rightarrow> int" where
  "days_before_year y =
     365 * (y - 1) + (y - 1) div 4 - (y - 1) div 100 + (y - 1) div 400"

text \<open>\<^verbatim>\<open>time.Date\<close> for a date at midnight, as a day count.\<close>

definition day_number :: "int \<Rightarrow> int \<Rightarrow> int \<Rightarrow> int" where
  "day_number y m d = days_before_year y + daysBefore (m - 1)
     + (if isLeap y \<and> 3 \<le> m then 1 else 0) + (d - 1)"

text \<open>\<^verbatim>\<open>absDate\<close>: the year and the day of the year, by 400, 100, 4 and 1 year cycles.\<close>

definition year_yday :: "int \<Rightarrow> int \<times> int" where
  "year_yday d =
     (let n400 = d div 146097; d1 = d mod 146097;
          n100 = d1 div 36524 - (d1 div 36524) div 4; d2 = d1 - 36524 * n100;
          n4 = d2 div 1461; d3 = d2 - 1461 * n4;
          n1 = d3 div 365 - (d3 div 365) div 4; d4 = d3 - 365 * n1
      in (400 * n400 + 100 * n100 + 4 * n4 + n1 + 1, d4))"

text \<open>The month and the day of the month, from whether the year is a leap year.\<close>

definition month_day :: "bool \<Rightarrow> int \<Rightarrow> int \<times> int" where
  "month_day leap yday =
     (if leap \<and> yday = 59 then (2, 29)
      else
        (let day = (if leap \<and> 59 < yday then yday - 1 else yday);
             m = day div 31;
             end = daysBefore (m + 1)
         in if end \<le> day then (m + 2, day - end + 1) else (m + 1, day - daysBefore m + 1)))"

definition date_of_day :: "int \<Rightarrow> int \<times> int \<times> int" where
  "date_of_day d = (let (y, yday) = year_yday d; (m, md) = month_day (isLeap y) yday in (y, m, md))"

definition valid_date :: "int \<Rightarrow> int \<Rightarrow> int \<Rightarrow> bool" where
  "valid_date y m d \<longleftrightarrow> 1 \<le> m \<and> m \<le> 12 \<and> 1 \<le> d \<and> d \<le> daysIn m y"

text \<open>The same by the kind of year only: the day of the year and the length of a month.\<close>

definition yday_of :: "bool \<Rightarrow> int \<Rightarrow> int \<Rightarrow> int" where
  "yday_of leap m d = daysBefore (m - 1) + (if leap \<and> 3 \<le> m then 1 else 0) + (d - 1)"

definition month_len :: "bool \<Rightarrow> int \<Rightarrow> int" where
  "month_len leap m = (if m = 2 \<and> leap then 29 else daysBefore m - daysBefore (m - 1))"

subsection \<open>Format and Parse\<close>

text \<open>\<^verbatim>\<open>appendInt(x, width)\<close>: decimal, zero-padded to the width.\<close>

definition pad_zero :: "nat \<Rightarrow> string \<Rightarrow> string" where
  "pad_zero w s = replicate (w - length s) (CHR ''0'') @ s"

definition appendInt :: "int \<Rightarrow> nat \<Rightarrow> string" where
  "appendInt x w =
     (if x < 0 then CHR ''-'' # pad_zero w (show_nat (nat (- x)))
      else pad_zero w (show_nat (nat x)))"

definition format_date :: "time \<Rightarrow> string" where
  "format_date t =
     (let (y, m, d) = date_of_day (t div Day)
      in appendInt y 4 @ ''-'' @ appendInt m 2 @ ''-'' @ appendInt d 2)"

definition format_date_hour :: "time \<Rightarrow> string" where
  "format_date_hour t = format_date t @ ''-'' @ appendInt (t mod Day div Hour) 2"

text \<open>\<^verbatim>\<open>fmtFrac\<close>: the last \<open>prec\<close> decimal digits as a fraction, without trailing zeros.\<close>

definition fmt_frac :: "nat \<Rightarrow> nat \<Rightarrow> string" where
  "fmt_frac v prec =
     (let ds = rev (dropWhile (\<lambda>c. c = CHR ''0'') (rev (pad_zero prec (show_nat (v mod 10 ^ prec)))))
      in if ds = [] then [] else CHR ''.'' # ds)"

text \<open>\<^verbatim>\<open>Duration.String\<close>\<close>

definition duration_String :: "duration \<Rightarrow> string" where
  "duration_String d =
     (let u = nat \<bar>d\<bar>; secs = u div 1000000000; mins = secs div 60; hours = mins div 60;
          s = (if u = 0 then ''0s''
               else if u < 1000 then show_nat u @ ''ns''
               else if u < 1000000 then show_nat (u div 1000) @ fmt_frac u 3 @ [CHR 0xC2, CHR 0xB5] @ ''s''
               else if u < 1000000000 then show_nat (u div 1000000) @ fmt_frac u 6 @ ''ms''
               else (if hours > 0 then show_nat hours @ ''h'' else [])
                 @ (if mins > 0 then show_nat (mins mod 60) @ ''m'' else [])
                 @ show_nat (secs mod 60) @ fmt_frac u 9 @ ''s'')
      in if d < 0 then CHR ''-'' # s else s)"

text \<open>\<^verbatim>\<open>Time.String\<close> of a time in UTC that was parsed, not read from the clock.\<close>

definition time_String :: "time \<Rightarrow> string" where
  "time_String t =
     (let sec = t mod Day div Second
      in format_date t @ '' '' @ appendInt (sec div 3600) 2 @ '':'' @ appendInt (sec div 60 mod 60) 2
           @ '':'' @ appendInt (sec mod 60) 2 @ fmt_frac (nat (t mod Second)) 9 @ '' +0000 UTC'')"

definition is_digit :: "char \<Rightarrow> bool" where
  "is_digit c \<longleftrightarrow> CHR ''0'' \<le> c \<and> c \<le> CHR ''9''"

definition digit_value :: "char \<Rightarrow> int" where
  "digit_value c = of_char c - 48"

text \<open>
  The steps of \<^verbatim>\<open>time.Parse\<close>: a four-digit year, a number of one or two digits (\<^verbatim>\<open>getnum\<close>;
  two are demanded when it is \<open>fixed\<close>), a literal dash.
\<close>

fun parse_year :: "string \<Rightarrow> (int \<times> string) option" where
  "parse_year (a # b # c # d # s) =
     (if is_digit a \<and> is_digit b \<and> is_digit c \<and> is_digit d
      then Some (((digit_value a * 10 + digit_value b) * 10 + digit_value c) * 10 + digit_value d, s)
      else None)"
| "parse_year _ = None"

fun getnum :: "bool \<Rightarrow> string \<Rightarrow> (int \<times> string) option" where
  "getnum fixed [] = None"
| "getnum fixed [a] = (if is_digit a \<and> \<not> fixed then Some (digit_value a, []) else None)"
| "getnum fixed (a # b # s) =
     (if \<not> is_digit a then None
      else if is_digit b then Some (digit_value a * 10 + digit_value b, s)
      else if fixed then None
      else Some (digit_value a, b # s))"

fun parse_dash :: "string \<Rightarrow> string option" where
  "parse_dash (c # s) = (if c = CHR ''-'' then Some s else None)"
| "parse_dash [] = None"

abbreviation time_parse_error :: go_error where
  "time_parse_error \<equiv> StdError ''time.ParseError''"

text \<open>Year, month and day; the month's range is checked where it is read.\<close>

definition parse_ymd :: "string \<Rightarrow> (int \<times> int \<times> int \<times> string) option" where
  "parse_ymd s =
     (case parse_year s of None \<Rightarrow> None | Some (y, s1) \<Rightarrow>
      (case parse_dash s1 of None \<Rightarrow> None | Some s2 \<Rightarrow>
      (case getnum True s2 of None \<Rightarrow> None | Some (m, s3) \<Rightarrow>
      (if m \<le> 0 \<or> 12 < m then None else
      (case parse_dash s3 of None \<Rightarrow> None | Some s4 \<Rightarrow>
      (case getnum True s4 of None \<Rightarrow> None | Some (d, s5) \<Rightarrow> Some (y, m, d, s5)))))))"

definition parse_date :: "string \<Rightarrow> go_error + time" where
  "parse_date s =
     (case parse_ymd s of
        None \<Rightarrow> Inl time_parse_error
      | Some (y, m, d, r) \<Rightarrow>
          (if r \<noteq> [] \<or> d < 1 \<or> daysIn m y < d then Inl time_parse_error
           else Inr (day_number y m d * Day)))"

text \<open>The hour's \<^verbatim>\<open>getnum\<close> is not fixed to two digits: a single digit is accepted too.\<close>

definition parse_date_hour :: "string \<Rightarrow> go_error + time" where
  "parse_date_hour s =
     (case parse_ymd s of
        None \<Rightarrow> Inl time_parse_error
      | Some (y, m, d, r) \<Rightarrow>
          (case parse_dash r of
             None \<Rightarrow> Inl time_parse_error
           | Some r1 \<Rightarrow>
               (case getnum False r1 of
                  None \<Rightarrow> Inl time_parse_error
                | Some (h, r2) \<Rightarrow>
                    (if 24 \<le> h \<or> r2 \<noteq> [] \<or> d < 1 \<or> daysIn m y < d then Inl time_parse_error
                     else Inr (day_number y m d * Day + h * Hour)))))"

text \<open>Two and four decimal digits.\<close>

definition digits2 :: "nat \<Rightarrow> string" where
  "digits2 n = [digit_char (n div 10), digit_char (n mod 10)]"

definition digits4 :: "nat \<Rightarrow> string" where
  "digits4 n = [digit_char (n div 1000), digit_char (n div 100 mod 10),
     digit_char (n div 10 mod 10), digit_char (n mod 10)]"

text \<open>The year of an instant, and the instants whose year prints with four digits.\<close>

definition time_Year :: "time \<Rightarrow> int" where
  "time_Year t = fst (date_of_day (t div Day))"

definition four_digit_year :: "time \<Rightarrow> bool" where
  "four_digit_year t \<longleftrightarrow> 0 \<le> time_Year t \<and> time_Year t < 10000"

subsection \<open>Lemmas: the calendar\<close>

lemma div_pred:
  fixes y k :: int
  assumes "0 < k"
  shows "y div k = (y - 1) div k + (if y mod k = 0 then 1 else 0)"
proof -
  have y: "y = k * (y div k) + y mod k" by simp
  have r: "0 \<le> y mod k" "y mod k < k" using assms by simp_all
  show ?thesis
  proof (cases "y mod k = 0")
    case True
    then have "(y - 1) div k = y div k - 1"
      using y assms by (intro int_div_pos_eq [where r = "k - 1"]) (auto simp: algebra_simps)
    with True show ?thesis by simp
  next
    case False
    then have "(y - 1) div k = y div k"
      using y r by (intro int_div_pos_eq [where r = "y mod k - 1"]) auto
    with False show ?thesis by simp
  qed
qed

lemma days_before_year_step:
  "days_before_year (y + 1) = days_before_year y + (if isLeap y then 366 else 365)"
proof -
  define c where "c k = (if y mod k = 0 then 1 else 0 :: int)" for k
  have "days_before_year (y + 1) = days_before_year y + (365 + c 4 - c 100 + c 400)"
    unfolding days_before_year_def c_def add_diff_cancel_right'
    by (subst (1 2 3) div_pred [of _ y]) (simp_all only: algebra_simps zero_less_numeral)
  moreover have "c 100 = 1 \<Longrightarrow> c 4 = 1" "c 400 = 1 \<Longrightarrow> c 100 = 1"
    using mod_mod_cancel [of 4 100 y] mod_mod_cancel [of 100 400 y]
    by (auto simp: c_def split: if_splits)
  ultimately show ?thesis by (auto simp: isLeap_def c_def split: if_splits)
qed

lemma days_before_year_less: "y < z \<Longrightarrow> days_before_year (y + 1) \<le> days_before_year z"
proof (induction z rule: int_gr_induct [of y])
  case (step z)
  then show ?case using days_before_year_step [of z] by (auto split: if_splits)
qed simp

lemma cut_cycle:
  fixes d k :: int
  assumes d: "0 \<le> d" "d \<le> 4 * k" and k: "0 < k"
  defines "n \<equiv> d div k - d div k div 4"
  shows "0 \<le> n \<and> n \<le> 3 \<and> 0 \<le> d - k * n \<and> d - k * n \<le> k \<and> (d - k * n = k \<longrightarrow> n = 3)"
proof -
  obtain q r where q: "d div k = q" and dd: "d = k * q + r" and r: "0 \<le> r" "r < k"
    using k by (metis mult_div_mod_eq pos_mod_bound pos_mod_sign)
  have "k * q \<le> k * 4" "k * (-1) < k * q" using d dd r by linarith+
  then have "q \<le> 4" "-1 < q" using k mult_le_cancel_left_pos mult_less_cancel_left_pos by blast+
  then consider "q = 0" | "q = 1" | "q = 2" | "q = 3" | "q = 4" by linarith
  then show ?thesis
    unfolding n_def q using dd r d by cases simp_all
qed

lemma days_before_cycles:
  assumes "0 \<le> e" "e \<le> 3" "0 \<le> c" "c \<le> 24" "0 \<le> b" "b \<le> 3"
  shows "days_before_year (400 * a + 100 * b + 4 * c + e + 1) =
    146097 * a + 36524 * b + 1461 * c + 365 * e"
proof -
  let ?x = "400 * a + 100 * b + 4 * c + e"
  have "?x div 4 = 100 * a + 25 * b + c"
    using assms by (intro int_div_pos_eq [where r = e]) auto
  moreover have "?x div 100 = 4 * a + b"
    using assms by (intro int_div_pos_eq [where r = "4 * c + e"]) auto
  moreover have "?x div 400 = a"
    using assms by (intro int_div_pos_eq [where r = "100 * b + 4 * c + e"]) auto
  ultimately show ?thesis by (simp add: days_before_year_def)
qed

lemma isLeap_cycles:
  assumes "0 \<le> c" "c \<le> 24" "0 \<le> b" "b \<le> 3" "c < 24 \<or> b = 3"
  shows "isLeap (400 * a + 100 * b + 4 * c + 3 + 1)"
proof (cases "c = 24")
  case True
  with assms have "400 * a + 100 * b + 4 * c + 3 + 1 = 400 * (a + 1)" by simp
  moreover have "400 * (a + 1) mod 400 = 0" "400 * (a + 1) mod 4 = 0"
    using mod_mod_cancel [of 4 400 "400 * (a + 1)"] by simp_all
  ultimately show ?thesis unfolding isLeap_def by metis
next
  case False
  have "400 * a + 100 * b + 4 * c + 3 + 1 = 4 * (100 * a + 25 * b + c + 1)" by simp
  then have "(400 * a + 100 * b + 4 * c + 3 + 1) mod 4 = 0"
    by (simp only: mod_mult_self1_is_0)
  moreover have "(400 * a + 100 * b + 4 * c + 3 + 1) mod 100 = 4 * c + 4"
    using False assms by (intro int_mod_pos_eq [where q = "4 * a + b"]) auto
  ultimately show ?thesis using assms by (auto simp: isLeap_def)
qed

lemma year_yday_sound:
  assumes "year_yday d = (y, yd)"
  shows "days_before_year y + yd = d" and "0 \<le> yd" and "yd < (if isLeap y then 366 else 365)"
proof -
  define a d1 where "a = d div 146097" and "d1 = d mod 146097"
  define b where "b = d1 div 36524 - d1 div 36524 div 4"
  define d2 where "d2 = d1 - 36524 * b"
  define c d3 where "c = d2 div 1461" and "d3 = d2 - 1461 * c"
  define e where "e = d3 div 365 - d3 div 365 div 4"
  note defs = a_def d1_def b_def d2_def c_def d3_def e_def
  have y: "y = 400 * a + 100 * b + 4 * c + e + 1" and yd: "yd = d3 - 365 * e"
    using assms unfolding year_yday_def Let_def defs [symmetric] by (simp_all only: prod.inject)
  have d: "d = 146097 * a + d1" "0 \<le> d1" "d1 < 146097" unfolding a_def d1_def by simp_all
  have B: "0 \<le> b" "b \<le> 3" "0 \<le> d2" "d2 \<le> 36524" "d2 = 36524 \<Longrightarrow> b = 3"
    using cut_cycle [of d1 36524] d(2,3) unfolding b_def [symmetric] d2_def [symmetric] by simp_all
  have d3: "d3 = d2 mod 1461" unfolding d3_def c_def by (rule minus_mult_div_eq_mod)
  have D: "0 \<le> d3" "d3 < 1461" unfolding d3 by simp_all
  have D2: "d2 = 1461 * c + d3" by (simp add: d3_def)
  have C: "0 \<le> c" "c \<le> 24" using D D2 B(3,4) by linarith+
  have E: "0 \<le> e" "e \<le> 3" "0 \<le> yd" "yd \<le> 365" "yd = 365 \<Longrightarrow> e = 3"
    using cut_cycle [of d3 365] D unfolding e_def [symmetric] yd by simp_all
  show "days_before_year y + yd = d"
    using days_before_cycles [of e c b a] E(1,2) B(1,2) C d(1) D2 yd d2_def unfolding y by linarith
  show "0 \<le> yd" by (rule E)
  have "isLeap y" if "yd = 365"
  proof -
    have e: "e = 3" using E that by simp
    have "b = 3" if "c = 24"
      using D2 B(4,5) e yd \<open>yd = 365\<close> that by linarith
    then show ?thesis using isLeap_cycles [of c b a] B(1,2) C unfolding y e by linarith
  qed
  then show "yd < (if isLeap y then 366 else 365)"
    using E(3,4) by (cases "yd = 365") auto
qed

lemma year_yday_complete:
  assumes "0 \<le> yd" and "yd < (if isLeap y then 366 else 365)"
  shows "year_yday (days_before_year y + yd) = (y, yd)"
proof -
  obtain y' yd' where eq: "year_yday (days_before_year y + yd) = (y', yd')" by fastforce
  note s = year_yday_sound [OF eq]
  have "\<not> y < y'" using s assms days_before_year_less [of y y'] days_before_year_step [of y] by auto
  moreover have "\<not> y' < y"
    using s assms days_before_year_less [of y' y] days_before_year_step [of y'] by auto
  ultimately have "y' = y" by simp
  with s eq show ?thesis by simp
qed

lemma daysIn_month_len: "daysIn m y = month_len (isLeap y) m"
  by (simp add: daysIn_def month_len_def)

lemma day_number_yday: "day_number y m d = days_before_year y + yday_of (isLeap y) m d"
  by (simp add: day_number_def yday_of_def)

lemma month_cases:
  fixes m :: int
  assumes "1 \<le> m" "m \<le> 12"
  obtains "m = 1" | "m = 2" | "m = 3" | "m = 4" | "m = 5" | "m = 6" | "m = 7" | "m = 8"
    | "m = 9" | "m = 10" | "m = 11" | "m = 12"
proof -
  have "m \<in> set [1..12]" using assms by simp
  moreover have "[1..12 :: int] = [1, 2, 3, 4, 5, 6, 7, 8, 9, 10, 11, 12]"
    by (simp add: upto_rec1)
  ultimately have "m \<in> set [1, 2, 3, 4, 5, 6, 7, 8, 9, 10, 11, 12]" by simp
  then show ?thesis using that by auto
qed

lemma month_day_plain:
  assumes "0 \<le> day" and "day < 365"
  shows "case month_day False day of (m, d) \<Rightarrow>
    1 \<le> m \<and> m \<le> 12 \<and> 1 \<le> d \<and> d \<le> month_len False m \<and> daysBefore (m - 1) + (d - 1) = day"
proof -
  have k: "31 * (day div 31) \<le> day" "day < 31 * (day div 31) + 31" by simp_all
  have "1 \<le> day div 31 + 1" "day div 31 + 1 \<le> 12" using assms by simp_all
  then show ?thesis
    by (cases rule: month_cases)
      (use k assms in \<open>simp add: month_day_def Let_def daysBefore_def month_len_def\<close>)+
qed

lemma month_day_leap:
  "month_day True day =
     (if day = 59 then (2, 29) else month_day False (if 59 < day then day - 1 else day))"
  by (simp add: month_day_def Let_def)

lemma month_day_sound:
  assumes "month_day leap yd = (m, d)" and "0 \<le> yd" and "yd < (if leap then 366 else 365)"
  shows "1 \<le> m \<and> m \<le> 12 \<and> 1 \<le> d \<and> d \<le> month_len leap m \<and> yday_of leap m d = yd"
proof (cases "leap \<and> yd = 59")
  case True
  with assms have "m = 2" "d = 29" by (simp_all add: month_day_def)
  with True show ?thesis by (simp add: month_len_def yday_of_def daysBefore_def)
next
  case False
  define day where "day = (if leap \<and> 59 < yd then yd - 1 else yd)"
  have md: "month_day False day = (m, d)"
    using assms(1) False by (cases leap) (auto simp: month_day_leap day_def)
  have *: "1 \<le> m" "m \<le> 12" "1 \<le> d" "d \<le> month_len False m" "daysBefore (m - 1) + (d - 1) = day"
    using month_day_plain [of day] assms(2,3) md by (auto simp: day_def split: if_splits)
  from *(1,2) show ?thesis
    by (cases rule: month_cases)
      (use * False assms(3) in \<open>auto simp: day_def month_len_def yday_of_def daysBefore_def
        split: if_splits\<close>)
qed

lemma yday_of_month_end:
  assumes "1 \<le> m" "m \<le> 12"
  shows "yday_of leap m (month_len leap m) + 1 =
    (if m = 12 then (if leap then 366 else 365) else yday_of leap (m + 1) 1)"
  using assms
  by (cases rule: month_cases) (simp_all add: yday_of_def month_len_def daysBefore_def)

lemma daysBefore_mono: "m \<le> m' \<Longrightarrow> daysBefore m \<le> daysBefore m'"
proof (induction m' rule: int_ge_induct)
  case (step k)
  have "daysBefore k \<le> daysBefore (k + 1)" by (simp add: daysBefore_def)
  with step show ?case by simp
qed simp

lemma yday_of_mono: "m \<le> m' \<Longrightarrow> d \<le> d' \<Longrightarrow> yday_of leap m d \<le> yday_of leap m' d'"
  using daysBefore_mono [of "m - 1" "m' - 1"] by (auto simp: yday_of_def)

lemma month_len_bound: "month_len leap m \<le> 31"
  by (simp add: month_len_def daysBefore_def)

lemma month_day_complete:
  assumes v: "1 \<le> m" "m \<le> 12" "1 \<le> d" "d \<le> month_len leap m"
  shows "month_day leap (yday_of leap m d) = (m, d) \<and> 0 \<le> yday_of leap m d
    \<and> yday_of leap m d < (if leap then 366 else 365)"
proof -
  have step: "yday_of leap a x < yday_of leap b y"
    if "1 \<le> a" "a < b" "b \<le> 12" "x \<le> month_len leap a" "1 \<le> y" for a x b y
    using yday_of_month_end [of a leap] yday_of_mono [of a a x "month_len leap a" leap]
      yday_of_mono [of "a + 1" b 1 y leap] that by auto
  have lo: "0 \<le> yday_of leap m d"
    using yday_of_mono [of 1 m 1 d leap] v by (simp add: yday_of_def daysBefore_def)
  have hi: "yday_of leap m d < (if leap then 366 else 365)"
    using yday_of_mono [of m 12 1 1 leap] step [of m 12 d 1]
      yday_of_mono [of m m d "month_len leap m" leap] yday_of_month_end [of 12 leap] v
    by (cases "m = 12") (auto simp: yday_of_def daysBefore_def split: if_splits)
  obtain m' d' where md: "month_day leap (yday_of leap m d) = (m', d')" by fastforce
  note s = month_day_sound [OF md lo hi]
  have "m' = m" using step [of m m' d d'] step [of m' m d' d] s v by linarith
  with s have "d' = d" by (simp add: yday_of_def)
  with md lo hi \<open>m' = m\<close> show ?thesis by simp
qed

lemma date_of_day_sound:
  assumes "date_of_day n = (y, m, d)"
  shows "day_number y m d = n" and "valid_date y m d"
proof -
  obtain yd where yd: "year_yday n = (y, yd)" "month_day (isLeap y) yd = (m, d)"
    using assms by (auto simp: date_of_day_def split: prod.splits)
  note s = year_yday_sound [OF yd(1)] month_day_sound [OF yd(2)]
  show "day_number y m d = n" "valid_date y m d"
    using s by (auto simp: day_number_yday valid_date_def daysIn_month_len)
qed

lemma date_of_day_complete:
  assumes "valid_date y m d"
  shows "date_of_day (day_number y m d) = (y, m, d)"
proof -
  have "month_day (isLeap y) (yday_of (isLeap y) m d) = (m, d) \<and> 0 \<le> yday_of (isLeap y) m d
      \<and> yday_of (isLeap y) m d < (if isLeap y then 366 else 365)"
    using assms by (intro month_day_complete) (auto simp: valid_date_def daysIn_month_len)
  then show ?thesis
    by (simp add: date_of_day_def day_number_yday year_yday_complete)
qed

subsection \<open>Lemmas: digits\<close>

lemma digit_char_table:
  "list_all (\<lambda>k. is_digit (digit_char k) \<and> digit_value (digit_char k) = int k) [0..<10]"
  by code_simp

lemma digit_char_simps [simp]:
  "k < 10 \<Longrightarrow> is_digit (digit_char k)"
  "k < 10 \<Longrightarrow> digit_value (digit_char k) = int k"
  using digit_char_table by (auto simp: list_all_iff)

lemma is_digit_bounds: "is_digit c \<Longrightarrow> 48 \<le> (of_char c :: nat) \<and> (of_char c :: nat) \<le> 57"
  by (simp add: is_digit_def less_eq_char_def)

lemma digit_value_inverse:
  assumes "is_digit c"
  shows "digit_char (nat (digit_value c)) = c" "0 \<le> digit_value c" "digit_value c < 10"
proof -
  note b = is_digit_bounds [OF assms]
  have v: "digit_value c = int (of_char c) - 48" by (simp add: digit_value_def of_nat_of_char)
  with b have "nat (digit_value c) = of_char c - 48" by simp
  with b show "digit_char (nat (digit_value c)) = c" by (simp add: digit_char_def)
  show "0 \<le> digit_value c" "digit_value c < 10" unfolding v using b by simp_all
qed

lemma digit_char_0: "CHR ''0'' = digit_char 0"
  by code_simp

lemma show_nat_unfold:
  "n < 10 \<Longrightarrow> show_nat n = [digit_char n]"
  "10 \<le> n \<Longrightarrow> show_nat n = show_nat (n div 10) @ [digit_char (n mod 10)]"
  by (subst show_nat.simps, simp)+

lemma div_10_chain: "n div 100 = n div 10 div 10" "n div 1000 = n div 10 div 10 div 10" for n :: nat
  by (simp_all flip: div_mult2_eq)

lemma pad_zero_snoc: "pad_zero (Suc w) (s @ [c]) = pad_zero w s @ [c]"
  by (simp add: pad_zero_def)

lemma pad_zero_Suc_digit: "0 < w \<Longrightarrow> n < 10 \<Longrightarrow>
  pad_zero (Suc w) (show_nat n) = pad_zero w (show_nat 0) @ [digit_char n]"
  by (cases w) (simp_all add: show_nat_unfold pad_zero_def digit_char_0 flip: replicate_append_same)

lemma pad_zero_show_Suc:
  "0 < w \<Longrightarrow> pad_zero (Suc w) (show_nat n) = pad_zero w (show_nat (n div 10)) @ [digit_char (n mod 10)]"
  by (cases "n < 10") (simp_all add: pad_zero_Suc_digit show_nat_unfold(2) pad_zero_snoc)

lemma pad_zero_1: "n < 10 \<Longrightarrow> pad_zero (Suc 0) (show_nat n) = [digit_char n]"
  by (simp add: pad_zero_def show_nat_unfold)

lemma show_nat_upto_2:
  assumes "n < 100"
  shows "pad_zero 2 (show_nat n) = digits2 n"
proof -
  have "pad_zero (Suc (Suc 0)) (show_nat n) = digits2 n"
    using assms by (simp add: pad_zero_show_Suc pad_zero_1 digits2_def)
  then show ?thesis by (simp only: numeral_2_eq_2)
qed

lemma show_nat_upto_4:
  assumes "n < 10000"
  shows "pad_zero 4 (show_nat n) = digits4 n"
proof -
  have "n div 10 < 1000" using assms by (intro less_mult_imp_div_less) simp
  then have lt: "n div 10 div 10 < 100" by (intro less_mult_imp_div_less) simp
  have "pad_zero (Suc (Suc 2)) (show_nat n) =
      (pad_zero 2 (show_nat (n div 10 div 10)) @ [digit_char (n div 10 mod 10)]) @ [digit_char (n mod 10)]"
    by (simp only: pad_zero_show_Suc zero_less_Suc zero_less_numeral)
  also have "\<dots> = digits4 n"
    by (simp only: show_nat_upto_2 [OF lt] digits2_def digits4_def div_10_chain append_Cons append_Nil)
  finally show ?thesis by (simp only: Suc_numeral add_num_simps)
qed

lemma appendInt_digits:
  "0 \<le> x \<Longrightarrow> x < 100 \<Longrightarrow> appendInt x 2 = digits2 (nat x)"
  "0 \<le> x \<Longrightarrow> x < 10000 \<Longrightarrow> appendInt x 4 = digits4 (nat x)"
  by (simp_all add: appendInt_def show_nat_upto_2 show_nat_upto_4 nat_less_iff)

lemma int_div_10: "int (n div 10) * 10 + int (n mod 10) = int n"
proof -
  have "int (n div 10 * 10 + n mod 10) = int n" by (simp only: div_mult_mod_eq)
  then show ?thesis by (simp only: of_nat_add of_nat_mult of_nat_numeral)
qed

lemma getnum_digits: "n < 100 \<Longrightarrow> getnum fixed (digits2 n @ s) = Some (int n, s)"
  using int_div_10 [of n] by (simp add: digits2_def)

lemma parse_year_digits:
  assumes "n < 10000"
  shows "parse_year (digits4 n @ s) = Some (int n, s)"
proof -
  have "n div 10 div 10 div 10 < 10" using assms by (simp flip: div_mult2_eq)
  then show ?thesis
    unfolding digits4_def div_10_chain by (simp add: int_div_10 del: div_mult2_eq)
qed

lemma horner_10: "r < 10 \<Longrightarrow> (q * 10 + r) div 10 = q" "r < 10 \<Longrightarrow> (q * 10 + r) mod 10 = r" for q r :: nat
  by simp_all

lemma getnum_inverse:
  assumes "getnum True s = Some (n, r)"
  shows "s = digits2 (nat n) @ r" "0 \<le> n" "n < 100"
proof -
  obtain a b where s: "s = a # b # r" and ab: "is_digit a" "is_digit b"
    and n: "n = digit_value a * 10 + digit_value b"
    using assms by (cases "(True, s)" rule: getnum.cases) (auto split: if_splits)
  note v = digit_value_inverse [OF ab(1)] digit_value_inverse [OF ab(2)]
  have "nat n = nat (digit_value a) * 10 + nat (digit_value b)"
    using v unfolding n by (simp add: nat_add_distrib nat_mult_distrib)
  then show "s = digits2 (nat n) @ r" using v by (simp add: s digits2_def nat_less_iff)
  show "0 \<le> n" "n < 100" using v unfolding n by simp_all
qed

lemma parse_year_inverse:
  assumes "parse_year s = Some (n, r)"
  shows "s = digits4 (nat n) @ r" "0 \<le> n" "n < 10000"
proof -
  obtain a b c d where s: "s = a # b # c # d # r"
    and ds: "is_digit a" "is_digit b" "is_digit c" "is_digit d"
    and n: "n = ((digit_value a * 10 + digit_value b) * 10 + digit_value c) * 10 + digit_value d"
    using assms by (cases s rule: parse_year.cases) (auto split: if_splits)
  note v = digit_value_inverse [OF ds(1)] digit_value_inverse [OF ds(2)]
    digit_value_inverse [OF ds(3)] digit_value_inverse [OF ds(4)]
  have "nat n = ((nat (digit_value a) * 10 + nat (digit_value b)) * 10
      + nat (digit_value c)) * 10 + nat (digit_value d)"
    using v unfolding n by (simp add: nat_add_distrib nat_mult_distrib)
  moreover have "nat (digit_value x) < 10" if "x \<in> {b, c, d}" for x using v that by auto
  ultimately show "s = digits4 (nat n) @ r"
    using v by (simp only: s digits4_def div_10_chain horner_10) simp
  show "0 \<le> n" "n < 10000" using v unfolding n by simp_all
qed

subsection \<open>Lemmas: formatting and parsing\<close>

lemma valid_date_bounds:
  "valid_date y m d \<Longrightarrow> 1 \<le> m \<and> m \<le> 12 \<and> 1 \<le> d \<and> d \<le> daysIn m y \<and> d \<le> 31"
  using month_len_bound [of "isLeap y" m] by (simp add: valid_date_def daysIn_month_len)

lemma parse_ymd_digits:
  assumes "0 \<le> y" "y < 10000" "1 \<le> m" "m \<le> 12" "0 \<le> d" "d < 100"
  shows "parse_ymd (appendInt y 4 @ ''-'' @ appendInt m 2 @ ''-'' @ appendInt d 2 @ r) = Some (y, m, d, r)"
  using assms
  by (simp add: parse_ymd_def appendInt_digits parse_year_digits getnum_digits nat_less_iff)

lemma parse_ymd_format:
  assumes "date_of_day (t div Day) = (y, m, d)" and "four_digit_year t"
  shows "parse_ymd (format_date t @ r) = Some (y, m, d, r)"
proof -
  have "0 \<le> y" "y < 10000" using assms by (simp_all add: four_digit_year_def time_Year_def)
  with valid_date_bounds [OF date_of_day_sound(2) [OF assms(1)]] show ?thesis
    using parse_ymd_digits [of y m d r] by (simp add: format_date_def assms(1))
qed

lemma parse_date_format:
  assumes "four_digit_year t"
  shows "parse_date (format_date t) = Inr (t - t mod Day)"
proof -
  obtain y m d where ymd: "date_of_day (t div Day) = (y, m, d)" by (metis prod_cases3)
  note s = date_of_day_sound [OF ymd] valid_date_bounds [OF date_of_day_sound(2) [OF ymd]]
  have "parse_ymd (format_date t) = Some (y, m, d, [])"
    using parse_ymd_format [OF ymd assms, of "[]"] by simp
  then show ?thesis using s by (simp add: parse_date_def minus_mod_eq_div_mult)
qed

lemma mod_mult_div:
  fixes t k n :: int
  assumes "0 < k" "0 \<le> n"
  shows "t mod (k * n) div k = t div k mod n"
proof -
  have "t mod (k * n) = k * (t div k mod n) + t mod k" using assms by (simp add: zmod_zmult2_eq)
  then show ?thesis using assms by (intro int_div_pos_eq [where r = "t mod k"]) auto
qed

lemma mod_Day_Hour:
  "0 \<le> t mod Day div Hour" "t mod Day div Hour < 24"
  "t div Day * Day + t mod Day div Hour * Hour = t - t mod Hour"
proof -
  have D: "Day = Hour * 24" by (simp add: Day_def Hour_def)
  have h: "t mod Day div Hour = t div Hour mod 24"
    unfolding D by (rule mod_mult_div) (simp_all add: Hour_def)
  have "0 \<le> t div Hour mod 24" "t div Hour mod 24 < 24" by simp_all
  then show "0 \<le> t mod Day div Hour" "t mod Day div Hour < 24" unfolding h by simp_all
  have q: "t div Day = t div Hour div 24" unfolding D by (simp add: zdiv_zmult2_eq)
  have "t div Day * Day + t mod Day div Hour * Hour
      = t div Hour div 24 * (Hour * 24) + t div Hour mod 24 * Hour"
    unfolding h q by (simp only: D)
  also have "\<dots> = (t div Hour div 24 * 24 + t div Hour mod 24) * Hour"
    by (simp only: distrib_right mult.assoc mult.commute [of Hour 24])
  also have "\<dots> = t - t mod Hour" by (simp add: minus_mod_eq_div_mult)
  finally show "t div Day * Day + t mod Day div Hour * Hour = t - t mod Hour" .
qed

lemma parse_date_hour_format:
  assumes "four_digit_year t"
  shows "parse_date_hour (format_date_hour t) = Inr (t - t mod Hour)"
proof -
  obtain y m d where ymd: "date_of_day (t div Day) = (y, m, d)" by (metis prod_cases3)
  note s = date_of_day_sound [OF ymd] valid_date_bounds [OF date_of_day_sound(2) [OF ymd]]
  note h = mod_Day_Hour [of t]
  have "getnum False (appendInt (t mod Day div Hour) 2) = Some (t mod Day div Hour, [])"
    using getnum_digits [of "nat (t mod Day div Hour)" False "[]"] h
    by (simp add: appendInt_digits nat_less_iff)
  moreover have "parse_ymd (format_date_hour t) = Some (y, m, d, CHR ''-'' # appendInt (t mod Day div Hour) 2)"
    using parse_ymd_format [OF ymd assms] by (simp add: format_date_hour_def)
  ultimately show ?thesis using s h by (simp add: parse_date_hour_def)
qed

lemma parse_dash_Some: "parse_dash s = Some r \<longleftrightarrow> s = CHR ''-'' # r"
  by (cases s) auto

lemma parse_ymd_inverse:
  assumes "parse_ymd s = Some (y, m, d, r)"
  shows "s = appendInt y 4 @ ''-'' @ appendInt m 2 @ ''-'' @ appendInt d 2 @ r"
    and "0 \<le> y" "y < 10000" "1 \<le> m" "m \<le> 12"
proof -
  obtain s1 s2 s3 s4 where p: "parse_year s = Some (y, s1)" "s1 = CHR ''-'' # s2"
    "getnum True s2 = Some (m, s3)" "s3 = CHR ''-'' # s4" "getnum True s4 = Some (d, r)"
    and m: "1 \<le> m" "m \<le> 12"
    using assms by (auto simp: parse_ymd_def parse_dash_Some split: option.splits if_splits)
  note i = parse_year_inverse [OF p(1)] getnum_inverse [OF p(3)] getnum_inverse [OF p(5)]
  show "s = appendInt y 4 @ ''-'' @ appendInt m 2 @ ''-'' @ appendInt d 2 @ r"
    using i p by (simp add: appendInt_digits)
  show "0 \<le> y" "y < 10000" "1 \<le> m" "m \<le> 12" using i m by simp_all
qed

lemma format_date_day_number:
  assumes "valid_date y m d" "0 \<le> x" "x < Day"
  shows "format_date (day_number y m d * Day + x)
    = appendInt y 4 @ ''-'' @ appendInt m 2 @ ''-'' @ appendInt d 2"
proof -
  have "(day_number y m d * Day + x) div Day = day_number y m d"
    using assms(2,3) by (intro int_div_pos_eq [where r = x]) (auto simp: mult.commute)
  then show ?thesis by (simp add: format_date_def date_of_day_complete [OF assms(1)])
qed

lemma format_parse_date:
  assumes "parse_date s = Inr t"
  shows "format_date t = s" and "t mod Day = 0"
proof -
  obtain y m d where p: "parse_ymd s = Some (y, m, d, [])" "1 \<le> d" "d \<le> daysIn m y"
    and t: "t = day_number y m d * Day"
    using assms by (auto simp: parse_date_def split: option.splits if_splits)
  note i = parse_ymd_inverse [OF p(1)]
  have "valid_date y m d" using i p by (simp add: valid_date_def)
  from format_date_day_number [OF this, of 0] i show "format_date t = s"
    by (simp add: t Day_def)
  show "t mod Day = 0" by (simp add: t)
qed

lemma length_digits [simp]: "length (digits2 n) = 2" "length (digits4 n) = 4"
  by (simp_all add: digits2_def digits4_def)

lemma format_parse_date_hour:
  assumes "parse_date_hour s = Inr t" and "length s = 13"
  shows "format_date_hour t = s" and "t mod Hour = 0"
proof -
  obtain y m d r h r2 where p: "parse_ymd s = Some (y, m, d, CHR ''-'' # r)"
    "1 \<le> d" "d \<le> daysIn m y"
    and h: "getnum False r = Some (h, [])" "h < 24" and t: "t = day_number y m d * Day + h * Hour"
    using assms(1)
    by (auto simp: parse_date_hour_def parse_dash_Some split: option.splits if_splits)
  note i = parse_ymd_inverse [OF p(1)]
  have v: "valid_date y m d" using i p by (simp add: valid_date_def)
  have "length r = 2"
    using assms(2) i(1,2,3,4,5) valid_date_bounds [OF v]
    by (simp add: appendInt_digits)
  then have g: "getnum True r = Some (h, [])"
    using h(1) by (cases "(True, r)" rule: getnum.cases) (auto split: if_splits)
  note hi = getnum_inverse [OF g]
  have x: "0 \<le> h * Hour" "h * Hour < Day"
    using hi(2) h(2) by (simp_all add: Hour_def Day_def)
  have "t mod Day = h * Hour"
    unfolding t using x by (intro int_mod_pos_eq [where q = "day_number y m d"]) (auto simp: mult.commute)
  then have "t mod Day div Hour = h" by (simp add: Hour_def)
  then show "format_date_hour t = s"
    using format_date_day_number [OF v x] hi i(1) h(2)
    by (simp add: format_date_hour_def t appendInt_digits)
  have "Day = 24 * Hour" by (simp add: Day_def Hour_def)
  then have "t = (day_number y m d * 24 + h) * Hour"
    unfolding t by (simp only: distrib_right mult.assoc)
  then show "t mod Hour = 0" by simp
qed

text \<open>What a successful parse says of the instant, whatever the number of digits of the hour.\<close>

lemma day_number_instant:
  assumes "valid_date y m d" "0 \<le> y" "y < 10000" "0 \<le> x" "x < Day"
  shows "four_digit_year (day_number y m d * Day + x)"
proof -
  have "(day_number y m d * Day + x) div Day = day_number y m d"
    using assms(4,5) by (intro int_div_pos_eq [where r = x]) (auto simp: mult.commute)
  then show ?thesis
    using assms(2,3) by (simp add: four_digit_year_def time_Year_def date_of_day_complete [OF assms(1)])
qed

lemma parse_date_year:
  assumes "parse_date s = Inr t"
  shows "four_digit_year t"
proof -
  obtain y m d where p: "parse_ymd s = Some (y, m, d, [])" "1 \<le> d" "d \<le> daysIn m y"
    and t: "t = day_number y m d * Day"
    using assms by (auto simp: parse_date_def split: option.splits if_splits)
  note i = parse_ymd_inverse [OF p(1)]
  have "valid_date y m d" using i p by (simp add: valid_date_def)
  from day_number_instant [OF this i(2,3), of 0] show ?thesis by (simp add: t Day_def)
qed

lemma getnum_any:
  assumes "getnum fixed s = Some (h, [])"
  shows "0 \<le> h" and "length s = 1 \<or> length s = 2"
proof -
  from assms show "0 \<le> h"
    by (cases "(fixed, s)" rule: getnum.cases)
      (auto split: if_splits dest!: digit_value_inverse(2))
  from assms show "length s = 1 \<or> length s = 2"
    by (cases "(fixed, s)" rule: getnum.cases) (auto split: if_splits)
qed

lemma parse_date_hour_instant:
  assumes "parse_date_hour s = Inr t"
  shows "four_digit_year t" and "t mod Hour = 0" and "length s = 12 \<or> length s = 13"
proof -
  obtain y m d r h where p: "parse_ymd s = Some (y, m, d, CHR ''-'' # r)"
    "1 \<le> d" "d \<le> daysIn m y"
    and h: "getnum False r = Some (h, [])" "h < 24" and t: "t = day_number y m d * Day + h * Hour"
    using assms
    by (auto simp: parse_date_hour_def parse_dash_Some split: option.splits if_splits)
  note i = parse_ymd_inverse [OF p(1)] and g = getnum_any [OF h(1)]
  have v: "valid_date y m d" using i p by (simp add: valid_date_def)
  have x: "0 \<le> h * Hour" "h * Hour < Day" using g(1) h(2) by (simp_all add: Hour_def Day_def)
  show "four_digit_year t" unfolding t by (rule day_number_instant [OF v i(2,3) x])
  have "Day = 24 * Hour" by (simp add: Day_def Hour_def)
  then have "t = (day_number y m d * 24 + h) * Hour"
    unfolding t by (simp only: distrib_right mult.assoc)
  then show "t mod Hour = 0" by simp
  show "length s = 12 \<or> length s = 13"
    using g(2) i valid_date_bounds [OF v] by (auto simp: appendInt_digits)
qed

end
