(* ===== verification/Go_Os.thy ===== *)
theory Go_Os
  imports Crlite_Prelude Go_Time
begin

text \<open>
  What the code uses of the operating system and of \<^verbatim>\<open>net/http\<close>, as a record of operations on a world
  \<open>'w\<close>: files, the HTTP client, the clock and whether the context is cancelled. \<^verbatim>\<open>http.ParseTime\<close> is part of
  it. An open file is named by its path.

  The locale \<open>disk\<close> says what the code relies on of files: a rename moves the contents, writing a
  file does not touch another, reading it returns what it holds. \<open>sim_os\<close>, files with their
  modification time and a scripted server, interprets it.

  Paths are \<^verbatim>\<open>path/filepath\<close> on Unix: \<^verbatim>\<open>Clean\<close>, \<^verbatim>\<open>Join\<close>, \<^verbatim>\<open>Split\<close>, \<^verbatim>\<open>Base\<close> and \<^verbatim>\<open>Walk\<close>.
\<close>

subsection \<open>The outside world\<close>

record DNSDoneInfo =
  Addrs :: "string list"
  ddi_Err :: "go_error option"

text \<open>The body is a stream: the bytes it yields and the error, if any, that ends it.\<close>

record http_response =
  StatusCode :: int
  Status :: string
  resp_Header :: "(string \<times> string) list"
  Body :: "bytes \<times> go_error option"

text \<open>
  What \<^verbatim>\<open>filepath.Walk\<close> finds below a path: files, directories with the error of listing them and their
  entries in lexical order, and what cannot be inspected.
\<close>

datatype fs_node = FsFile string | FsDir string "go_error option" "fs_node list" | FsBad string go_error

datatype open_mode = O_APPEND_WRONLY | O_TRUNC_CREATE_WRONLY

abbreviation not_exist :: go_error where
  "not_exist \<equiv> StdError ''no such file or directory''"

record 'w os_ops =
  os_Open :: "string \<Rightarrow> 'w \<Rightarrow> go_error option"
  os_Stat :: "string \<Rightarrow> 'w \<Rightarrow> go_error + (int \<times> time)"
  http_NewRequest :: "string \<Rightarrow> go_error option"
  http_Head :: "string \<Rightarrow> (string \<times> string) list \<Rightarrow> 'w \<Rightarrow> (go_error + http_response) \<times> 'w"
  http_Get :: "string \<Rightarrow> (string \<times> string) list \<Rightarrow> 'w \<Rightarrow> (go_error + http_response) \<times> 'w"
  http_ParseTime :: "string \<Rightarrow> go_error + time"
  os_OpenFile :: "string \<Rightarrow> open_mode \<Rightarrow> 'w \<Rightarrow> go_error option \<times> 'w"
  io_Copy :: "string \<Rightarrow> http_response \<Rightarrow> 'w \<Rightarrow> int res \<times> 'w"
  os_Chtimes :: "string \<Rightarrow> time \<Rightarrow> 'w \<Rightarrow> go_error option \<times> 'w"
  os_Remove :: "string \<Rightarrow> 'w \<Rightarrow> go_error option \<times> 'w"
  os_Rename :: "string \<Rightarrow> string \<Rightarrow> 'w \<Rightarrow> go_error option \<times> 'w"
  ctx_Err :: "'w \<Rightarrow> go_error option"
  dns_log :: "'w \<Rightarrow> DNSDoneInfo list"
  os_ReadFile :: "string \<Rightarrow> 'w \<Rightarrow> go_error + bytes"
  os_Write :: "string \<Rightarrow> bytes \<Rightarrow> 'w \<Rightarrow> go_error option \<times> 'w"
  os_Close :: "string \<Rightarrow> 'w \<Rightarrow> go_error option \<times> 'w"
  os_MkdirAll :: "string \<Rightarrow> 'w \<Rightarrow> go_error option \<times> 'w"
  os_IsDir :: "string \<Rightarrow> 'w \<Rightarrow> bool"
  os_Tree :: "string \<Rightarrow> 'w \<Rightarrow> fs_node"
  os_Now :: "'w \<Rightarrow> time"

subsection \<open>Numbers in headers\<close>

text \<open>\<^verbatim>\<open>Header.Get\<close>: the empty string for an absent field.\<close>

definition header_Get :: "(string \<times> string) list \<Rightarrow> string \<Rightarrow> string" where
  "header_Get hs k = (case map_of hs k of None \<Rightarrow> [] | Some v \<Rightarrow> v)"

definition parse_digits :: "string \<Rightarrow> int option" where
  "parse_digits s =
     (if s = [] \<or> \<not> list_all is_digit s then None
      else Some (foldl (\<lambda>n c. n * 10 + digit_value c) 0 s))"

abbreviation parse_int_error :: go_error where
  "parse_int_error \<equiv> StdError ''strconv.NumError''"

text \<open>\<^verbatim>\<open>strconv.ParseInt(s, 10, 64)\<close>: an optional sign, digits, the range of an int64.\<close>

definition strconv_ParseInt :: "string \<Rightarrow> go_error + int" where
  "strconv_ParseInt s =
     (let (neg, ds) = (case s of
            c # r \<Rightarrow> (if c = CHR ''-'' then (True, r) else if c = CHR ''+'' then (False, r) else (False, s))
          | [] \<Rightarrow> (False, []))
      in case parse_digits ds of
           None \<Rightarrow> Inl parse_int_error
         | Some n \<Rightarrow>
             (let v = (if neg then - n else n)
              in if v < - 9223372036854775808 \<or> 9223372036854775807 < v then Inl parse_int_error
                 else Inr v))"

subsection \<open>Paths\<close>

definition join_slash :: "string list \<Rightarrow> string" where
  "join_slash ps = (case ps of [] \<Rightarrow> [] | p # qs \<Rightarrow> p @ concat (map (\<lambda>q. CHR ''/'' # q) qs))"

text \<open>\<^verbatim>\<open>Clean\<close> on the parts between slashes; \<open>acc\<close> holds what is kept, reversed.\<close>

fun clean_parts :: "bool \<Rightarrow> string list \<Rightarrow> string list \<Rightarrow> string list" where
  "clean_parts rooted acc [] = rev acc"
| "clean_parts rooted acc (p # ps) =
     (if p = [] \<or> p = ''.'' then clean_parts rooted acc ps
      else if p = ''..''
      then (case acc of
              [] \<Rightarrow> clean_parts rooted (if rooted then [] else [''..'']) ps
            | a # as \<Rightarrow> clean_parts rooted (if a = ''..'' then ''..'' # acc else as) ps)
      else clean_parts rooted (p # acc) ps)"

definition filepath_Clean :: "string \<Rightarrow> string" where
  "filepath_Clean path =
     (if path = [] then ''.''
      else
        (let rooted = (hd path = CHR ''/''); ps = clean_parts rooted [] (strings_Split path ''/'')
         in if rooted then CHR ''/'' # join_slash ps else if ps = [] then ''.'' else join_slash ps))"

definition filepath_Join :: "string list \<Rightarrow> string" where
  "filepath_Join elems =
     (case dropWhile (\<lambda>e. e = []) elems of [] \<Rightarrow> [] | es \<Rightarrow> filepath_Clean (join_slash es))"

text \<open>\<^verbatim>\<open>Split\<close>: the directory, up to and with the last slash; the second result is not used.\<close>

definition filepath_Split_dir :: "string \<Rightarrow> string" where
  "filepath_Split_dir path = rev (dropWhile (\<lambda>c. c \<noteq> CHR ''/'') (rev path))"

text \<open>\<^verbatim>\<open>path.Base\<close>\<close>

definition path_Base :: "string \<Rightarrow> string" where
  "path_Base path =
     (if path = [] then ''.''
      else
        (let p = rev (dropWhile (\<lambda>c. c = CHR ''/'') (rev path))
         in if p = [] then ''/'' else rev (takeWhile (\<lambda>c. c \<noteq> CHR ''/'') (rev p))))"

text \<open>A name that stays one part of a path: no slash, not empty and not a dot entry.\<close>

definition file_name :: "string \<Rightarrow> bool" where
  "file_name k \<longleftrightarrow> k \<noteq> [] \<and> k \<noteq> ''.'' \<and> k \<noteq> ''..'' \<and> CHR ''/'' \<notin> set k"

lemma strings_Split_snoc:
  "CHR ''/'' \<notin> set k \<Longrightarrow> strings_Split (s @ CHR ''/'' # k) ''/'' = strings_Split s ''/'' @ [k]"
proof (induction "length s" arbitrary: s rule: less_induct)
  case less
  obtain p r where p: "CHR ''/'' \<notin> set p" "s = p \<or> s = p @ CHR ''/'' # r"
    using split_list_first [of "CHR ''/''" s] by metis
  from p(2) show ?case
  proof
    assume "s = p"
    then show ?thesis using p(1) less.prems strings_Split_part [of "''/''" p k] by (simp add: strings_Split_last)
  next
    assume s: "s = p @ CHR ''/'' # r"
    then have "strings_Split (r @ CHR ''/'' # k) ''/'' = strings_Split r ''/'' @ [k]"
      using less.hyps [of r] less.prems by simp
    then show ?thesis
      using p(1) s strings_Split_part [of "''/''" p r] strings_Split_part [of "''/''" p "r @ CHR ''/'' # k"] by simp
  qed
qed

lemma clean_parts_snoc: "file_name k \<Longrightarrow> clean_parts rooted acc (ps @ [k]) = clean_parts rooted acc ps @ [k]"
  by (induction rooted acc ps rule: clean_parts.induct) (auto simp: file_name_def split: list.split)

lemma join_slash_snoc: "join_slash (ps @ [k]) = (if ps = [] then k else join_slash ps @ CHR ''/'' # k)"
  by (cases ps) (simp_all add: join_slash_def)

lemma filepath_Join_name:
  "\<exists>ps rooted. \<forall>k'. file_name k' \<longrightarrow>
    filepath_Join [root, k'] = (if rooted then [CHR ''/''] else []) @ join_slash (ps @ [k'])"
proof (cases "root = []")
  case True
  have "filepath_Join [root, k'] = k'" if "file_name k'" for k'
    using that True strings_Split_last [of "''/''" k']
    by (cases k') (auto simp: filepath_Join_def file_name_def join_slash_def filepath_Clean_def Let_def)
  then have "\<forall>k'. file_name k' \<longrightarrow>
      filepath_Join [root, k'] = (if False then [CHR ''/''] else []) @ join_slash ([] @ [k'])" by (simp add: join_slash_def)
  then show ?thesis by blast
next
  case False
  let ?rooted = "hd root = CHR ''/''"
  let ?ps = "clean_parts ?rooted [] (strings_Split root ''/'')"
  have "filepath_Join [root, k'] = (if ?rooted then [CHR ''/''] else []) @ join_slash (?ps @ [k'])" if "file_name k'" for k'
  proof -
    have "strings_Split (root @ CHR ''/'' # k') ''/'' = strings_Split root ''/'' @ [k']"
      using that by (intro strings_Split_snoc) (simp add: file_name_def)
    then show ?thesis using that False
      by (simp add: filepath_Join_def join_slash_def [of "[root, k']"] filepath_Clean_def Let_def clean_parts_snoc)
  qed
  then show ?thesis by blast
qed

lemma filepath_Join_inject:
  assumes "file_name k" and "file_name k'"
  shows "filepath_Join [root, k] = filepath_Join [root, k'] \<longleftrightarrow> k = k'"
proof -
  obtain ps rooted where "\<forall>k'. file_name k' \<longrightarrow>
      filepath_Join [root, k'] = (if rooted then [CHR ''/''] else []) @ join_slash (ps @ [k'])"
    using filepath_Join_name [of root] by blast
  then show ?thesis using assms by (simp add: join_slash_snoc)
qed

text \<open>
  \<^verbatim>\<open>filepath.Walk\<close> with a callback on the name, whether it is a directory, and the error; the callback's
  answer is to go on, to skip the directory, or an error that ends the walk.
\<close>

datatype walk_answer = WalkOn | SkipDir | WalkError go_error

fun walk :: "(string \<Rightarrow> bool \<Rightarrow> go_error option \<Rightarrow> 's \<Rightarrow> walk_answer \<times> 's) \<Rightarrow> fs_node \<Rightarrow> 's \<Rightarrow> walk_answer \<times> 's"
  and walk_names :: "(string \<Rightarrow> bool \<Rightarrow> go_error option \<Rightarrow> 's \<Rightarrow> walk_answer \<times> 's) \<Rightarrow> fs_node list \<Rightarrow> 's \<Rightarrow> walk_answer \<times> 's" where
  "walk fn (FsFile name) st = fn name False None st"
| "walk fn (FsBad name err) st = fn name False (Some err) st"
| "walk fn (FsDir name err names) st =
     (case fn name True err st of
        (WalkOn, st1) \<Rightarrow> (if err = None then walk_names fn names st1 else (WalkOn, st1))
      | (ans, st1) \<Rightarrow> (ans, st1))"
| "walk_names fn [] st = (WalkOn, st)"
| "walk_names fn (n # ns) st =
     (case walk fn n st of
        (WalkOn, st1) \<Rightarrow> walk_names fn ns st1
      | (SkipDir, st1) \<Rightarrow>
          (case n of FsFile _ \<Rightarrow> (SkipDir, st1) | _ \<Rightarrow> walk_names fn ns st1)
      | (WalkError e, st1) \<Rightarrow> (WalkError e, st1))"

definition filepath_Walk ::
  "(string \<Rightarrow> bool \<Rightarrow> go_error option \<Rightarrow> 's \<Rightarrow> walk_answer \<times> 's) \<Rightarrow> fs_node \<Rightarrow> 's \<Rightarrow> go_error option \<times> 's" where
  "filepath_Walk fn root st =
     (case walk fn root st of (WalkError e, st1) \<Rightarrow> (Some e, st1) | (_, st1) \<Rightarrow> (None, st1))"

subsection \<open>What the code relies on of the disk\<close>

locale disk =
  fixes os :: "'w os_ops"
    and content :: "'w \<Rightarrow> string \<Rightarrow> bytes option"
  assumes head_keeps: "http_Head os u hs w = (r, w') \<Longrightarrow> content w' = content w"
    and get_keeps: "http_Get os u hs w = (r, w') \<Longrightarrow> content w' = content w"
    and open_frame: "os_OpenFile os p m w = (e, w') \<Longrightarrow> q \<noteq> p \<Longrightarrow> content w' q = content w q"
    and copy_frame: "io_Copy os p resp w = (rn, w') \<Longrightarrow> q \<noteq> p \<Longrightarrow> content w' q = content w q"
    and chtimes_keeps: "os_Chtimes os p t w = (e, w') \<Longrightarrow> content w' = content w"
    and rename_ok: "os_Rename os p q w = (None, w') \<Longrightarrow> p \<noteq> q \<Longrightarrow>
      content w' = (content w)(q := content w p, p := None)"
    and rename_error: "os_Rename os p q w = (Some err, w') \<Longrightarrow> content w' = content w"
    and remove_result: "os_Remove os p w = (e, w') \<Longrightarrow>
      content w' = content w \<or> content w' = (content w)(p := None)"
    and remove_ok: "os_Remove os p w = (None, w') \<Longrightarrow> content w' p = None"
    and open_exists: "os_Open os p w = None \<longleftrightarrow> content w p \<noteq> None"
    and stat_exists: "content w p \<noteq> None \<Longrightarrow> \<exists>st. os_Stat os p w = Inr st"
    and read_content: "os_ReadFile os p w = (case content w p of None \<Rightarrow> Inl not_exist | Some bs \<Rightarrow> Inr bs)"
    and trunc_content: "os_OpenFile os p O_TRUNC_CREATE_WRONLY w = (None, w') \<Longrightarrow>
      content w' = (content w)(p \<mapsto> [])"
    and write_content: "os_Write os p bs w = (None, w') \<Longrightarrow> content w p = Some old \<Longrightarrow>
      content w' = (content w)(p \<mapsto> old @ bs)"
    and close_keeps: "os_Close os p w = (e, w') \<Longrightarrow> content w' = content w"
    and mkdir_keeps: "os_MkdirAll os p w = (e, w') \<Longrightarrow> content w' = content w"
begin

lemma remove_other: "os_Remove os p w = (e, w') \<Longrightarrow> q \<noteq> p \<Longrightarrow> content w' q = content w q"
  using remove_result [of p w e w'] by auto

end

subsection \<open>A simulated disk and server\<close>

text \<open>
  Files with their modification time, a script of replies that requests consume in order (an error
  once it is used up), and whether the context is cancelled. Times in headers are digits, seconds.
\<close>

record sim =
  sim_files :: "string \<Rightarrow> (bytes \<times> time) option"
  sim_replies :: "(go_error + http_response) list"
  sim_now :: time
  sim_cancelled :: bool
  sim_dns :: "DNSDoneInfo list"
  sim_tree :: "string \<Rightarrow> fs_node"

definition sim_Do :: "string \<Rightarrow> (string \<times> string) list \<Rightarrow> sim \<Rightarrow> (go_error + http_response) \<times> sim" where
  "sim_Do u hs w =
     (case sim_replies w of
        [] \<Rightarrow> (Inl (ExtError ''connection refused''), w)
      | r # rs \<Rightarrow> (r, w\<lparr>sim_replies := rs,
          sim_dns := sim_dns w @ [\<lparr>Addrs = [''192.0.2.1''], ddi_Err = None\<rparr>]\<rparr>))"

definition sim_Head :: "string \<Rightarrow> (string \<times> string) list \<Rightarrow> sim \<Rightarrow> (go_error + http_response) \<times> sim" where
  "sim_Head u hs w =
     (case sim_replies w of
        [] \<Rightarrow> (Inl (ExtError ''connection refused''), w)
      | r # rs \<Rightarrow> (r, w\<lparr>sim_replies := rs\<rparr>))"

definition sim_OpenFile :: "string \<Rightarrow> open_mode \<Rightarrow> sim \<Rightarrow> go_error option \<times> sim" where
  "sim_OpenFile p m w =
     (case m of
        O_TRUNC_CREATE_WRONLY \<Rightarrow> (None, w\<lparr>sim_files := (sim_files w)(p \<mapsto> ([], sim_now w))\<rparr>)
      | O_APPEND_WRONLY \<Rightarrow> (if sim_files w p = None then Some not_exist else None, w))"

definition sim_Copy :: "string \<Rightarrow> http_response \<Rightarrow> sim \<Rightarrow> int res \<times> sim" where
  "sim_Copy p resp w =
     (case Body resp of (bs, e) \<Rightarrow>
        ((int (length bs), e),
         (case sim_files w p of
            None \<Rightarrow> w
          | Some (old, _) \<Rightarrow> w\<lparr>sim_files := (sim_files w)(p \<mapsto> (old @ bs, sim_now w))\<rparr>)))"

definition sim_Write :: "string \<Rightarrow> bytes \<Rightarrow> sim \<Rightarrow> go_error option \<times> sim" where
  "sim_Write p bs w =
     (case sim_files w p of
        None \<Rightarrow> (Some not_exist, w)
      | Some (old, _) \<Rightarrow> (None, w\<lparr>sim_files := (sim_files w)(p \<mapsto> (old @ bs, sim_now w))\<rparr>))"

definition sim_Chtimes :: "string \<Rightarrow> time \<Rightarrow> sim \<Rightarrow> go_error option \<times> sim" where
  "sim_Chtimes p t w =
     (case sim_files w p of
        None \<Rightarrow> (Some not_exist, w)
      | Some (bs, _) \<Rightarrow> (None, w\<lparr>sim_files := (sim_files w)(p \<mapsto> (bs, t))\<rparr>))"

definition sim_Remove :: "string \<Rightarrow> sim \<Rightarrow> go_error option \<times> sim" where
  "sim_Remove p w =
     (if sim_files w p = None then (Some not_exist, w)
      else (None, w\<lparr>sim_files := (sim_files w)(p := None)\<rparr>))"

definition sim_Rename :: "string \<Rightarrow> string \<Rightarrow> sim \<Rightarrow> go_error option \<times> sim" where
  "sim_Rename p q w =
     (if sim_files w p = None then (Some not_exist, w)
      else (None, w\<lparr>sim_files := ((sim_files w)(p := None))(q := sim_files w p)\<rparr>))"

definition sim_ParseTime :: "string \<Rightarrow> go_error + time" where
  "sim_ParseTime s =
     (case parse_digits s of None \<Rightarrow> Inl time_parse_error | Some n \<Rightarrow> Inr (time_Unix n 0))"

definition sim_Stat :: "string \<Rightarrow> sim \<Rightarrow> go_error + (int \<times> time)" where
  "sim_Stat p w =
     (case sim_files w p of None \<Rightarrow> Inl not_exist | Some (bs, t) \<Rightarrow> Inr (int (length bs), t))"

definition sim_os :: "sim os_ops" where
  "sim_os = \<lparr>
     os_Open = (\<lambda>p w. if sim_files w p = None then Some not_exist else None),
     os_Stat = sim_Stat,
     http_NewRequest = (\<lambda>u. if u = [] then Some (StdError ''unsupported protocol scheme'') else None),
     http_Head = sim_Head, http_Get = sim_Do, http_ParseTime = sim_ParseTime,
     os_OpenFile = sim_OpenFile, io_Copy = sim_Copy, os_Chtimes = sim_Chtimes,
     os_Remove = sim_Remove, os_Rename = sim_Rename,
     ctx_Err = (\<lambda>w. if sim_cancelled w then Some (StdError ''context canceled'') else None),
     dns_log = sim_dns,
     os_ReadFile = (\<lambda>p w. case sim_files w p of None \<Rightarrow> Inl not_exist | Some (bs, _) \<Rightarrow> Inr bs),
     os_Write = sim_Write, os_Close = (\<lambda>p w. (None, w)), os_MkdirAll = (\<lambda>p w. (None, w)),
     os_IsDir = (\<lambda>p w. False), os_Tree = (\<lambda>p w. sim_tree w p), os_Now = sim_now\<rparr>"

definition sim_content :: "sim \<Rightarrow> string \<Rightarrow> bytes option" where
  "sim_content w p = map_option fst (sim_files w p)"

lemma sim_os_simps [simp]:
  "os_Open sim_os p w = (if sim_files w p = None then Some not_exist else None)"
  "os_Stat sim_os = sim_Stat"
  "http_NewRequest sim_os u = (if u = [] then Some (StdError ''unsupported protocol scheme'') else None)"
  "http_Head sim_os = sim_Head" "http_Get sim_os = sim_Do" "http_ParseTime sim_os = sim_ParseTime"
  "os_OpenFile sim_os = sim_OpenFile" "io_Copy sim_os = sim_Copy" "os_Chtimes sim_os = sim_Chtimes"
  "os_Remove sim_os = sim_Remove" "os_Rename sim_os = sim_Rename"
  "ctx_Err sim_os w = (if sim_cancelled w then Some (StdError ''context canceled'') else None)"
  "dns_log sim_os = sim_dns"
  "os_ReadFile sim_os p w = (case sim_files w p of None \<Rightarrow> Inl not_exist | Some (bs, _) \<Rightarrow> Inr bs)"
  "os_Write sim_os = sim_Write" "os_Close sim_os p w = (None, w)" "os_MkdirAll sim_os p w = (None, w)"
  "os_IsDir sim_os p w = False" "os_Tree sim_os p w = sim_tree w p" "os_Now sim_os = sim_now"
  by (simp_all add: sim_os_def)

lemmas sim_defs = sim_Do_def sim_Head_def sim_OpenFile_def sim_Copy_def sim_Write_def sim_Chtimes_def sim_Remove_def
  sim_Rename_def sim_Stat_def sim_content_def

interpretation sim: disk sim_os sim_content
  by unfold_locales
    (auto simp: sim_defs fun_eq_iff split: list.splits option.splits open_mode.splits if_splits prod.splits)

end
