(* ===== verification/Downloader.thy ===== *)
theory Downloader
  imports Go_Os
begin

text \<open>
  The package \<^verbatim>\<open>downloader\<close>: one download with its decision between creating, resuming and keeping
  a file (\<^verbatim>\<open>downloader.go\<close>), retries, the download to a temporary file that is verified before it
  replaces the final one (\<^verbatim>\<open>verifying-downloader.go\<close>), and the tracer of name lookups.

  Disk and network are the argument \<open>os\<close> of \<open>Go_Os\<close>. Progress bars are left out. The calls of the
  auditor are returned as a list of events, in order, with the lookups the tracer has seen. A
  cancelled context makes the request fail or not, as the HTTP client does.

  Under the laws of \<open>disk\<close> the boolean of \<^verbatim>\<open>DownloadAndVerifyFileSync\<close> tells exactly whether the
  final path is valid.
\<close>

subsection \<open>Name lookups\<close>

record DownloadTracer =
  DNSDone :: "DNSDoneInfo list"

definition NewDownloadTracer :: DownloadTracer where
  "NewDownloadTracer = \<lparr>DNSDone = []\<rparr>"

definition dnsDone :: "DownloadTracer \<Rightarrow> DNSDoneInfo \<Rightarrow> DownloadTracer" where
  "dnsDone da ddi = da\<lparr>DNSDone := DNSDone da @ [ddi]\<rparr>"

definition DNSResults :: "DownloadTracer \<Rightarrow> string list" where
  "DNSResults da = concat (map Addrs (DNSDone da))"

definition tracer_Errors :: "DownloadTracer \<Rightarrow> string list" where
  "tracer_Errors da =
     List.map_filter (\<lambda>ddi. map_option err_text (ddi_Err ddi)) (DNSDone da)"

datatype DownloadAction = Create | Resume | UpToDate

subsection \<open>One download\<close>

definition GetSizeAndDateOfFile :: "'w os_ops \<Rightarrow> string \<Rightarrow> 'w \<Rightarrow> go_error + (int \<times> time)" where
  "GetSizeAndDateOfFile os path w =
     (case os_Open os path w of Some err \<Rightarrow> Inl err | None \<Rightarrow> os_Stat os path w)"

definition tool_header :: "string \<times> string" where
  "tool_header = (''X-Automated-Tool'', ''https://github.com/mozilla/crlite'')"

definition determineAction ::
  "'w os_ops \<Rightarrow> string \<Rightarrow> string \<Rightarrow> 'w \<Rightarrow> (DownloadAction \<times> int \<times> int) \<times> 'w" where
  "determineAction os crlUrl path w =
     (case GetSizeAndDateOfFile os path w of
        Inl err \<Rightarrow> ((Create, 0, 0), w)
      | Inr (szOnDisk, localDate) \<Rightarrow>
          (case http_NewRequest os crlUrl of
             Some err \<Rightarrow> ((Create, szOnDisk, 0), w)
           | None \<Rightarrow>
               (case http_Head os crlUrl [tool_header] w of
                  (Inl err, w1) \<Rightarrow> ((Create, szOnDisk, 0), w1)
                | (Inr resp, w1) \<Rightarrow>
                    (case http_ParseTime os (header_Get (resp_Header resp) ''Last-Modified'') of
                       Inl err \<Rightarrow> ((Create, szOnDisk, 0), w1)
                     | Inr lastMod \<Rightarrow>
                         (case strconv_ParseInt (header_Get (resp_Header resp) ''Content-Length'') of
                            Inl err \<Rightarrow> ((Create, szOnDisk, 0), w1)
                          | Inr szOnServer \<Rightarrow>
                              (if time_Before localDate lastMod then ((Create, szOnDisk, szOnServer), w1)
                               else if szOnServer = szOnDisk then ((UpToDate, szOnDisk, szOnServer), w1)
                               else if szOnServer > szOnDisk \<and>
                                   header_Get (resp_Header resp) ''Accept-Ranges'' = ''bytes''
                               then ((Resume, szOnDisk, szOnServer), w1)
                               else ((Create, szOnDisk, szOnServer), w1)))))))"

definition range_header :: "int \<Rightarrow> int \<Rightarrow> string \<times> string" where
  "range_header offset sz =
     (''Content-Range'', ''bytes: '' @ show_int offset @ ''-'' @ show_int sz @ ''/'' @ show_int (offset - sz))"

text \<open>After the body is copied: the modification time is set when the server reported one.\<close>

definition set_mod_time :: "'w os_ops \<Rightarrow> string \<Rightarrow> http_response \<Rightarrow> 'w \<Rightarrow> 'w" where
  "set_mod_time os path resp w =
     (let lastModStr = header_Get (resp_Header resp) ''Last-Modified''
      in if length lastModStr < 16 then w
         else
           (case http_ParseTime os lastModStr of
              Inl err \<Rightarrow> w
            | Inr lastMod \<Rightarrow> snd (os_Chtimes os path lastMod w)))"

text \<open>What \<^verbatim>\<open>download\<close> does with the answer to its request: append to the file or write it anew.\<close>

definition save_response ::
  "'w os_ops \<Rightarrow> string \<Rightarrow> (go_error + http_response) \<times> 'w \<Rightarrow> go_error option \<times> 'w" where
  "save_response os path r =
     (case r of
        (Inl err, w2) \<Rightarrow> (Some err, w2)
      | (Inr resp, w2) \<Rightarrow>
          (if StatusCode resp \<noteq> 206 \<and> StatusCode resp \<noteq> 200
           then (Some (Errorf (''Non-OK status: '' @ Status resp)), w2)
           else
             (case os_OpenFile os path
                     (if StatusCode resp = 206 then O_APPEND_WRONLY else O_TRUNC_CREATE_WRONLY) w2 of
                (Some err, w3) \<Rightarrow> (Some err, w3)
              | (None, w3) \<Rightarrow>
                  (case ctx_Err os w3 of
                     Some err \<Rightarrow> (Some err, w3)
                   | None \<Rightarrow>
                       (case io_Copy os path resp w3 of
                          ((totalBytes, Some err), w4) \<Rightarrow> (Some err, w4)
                        | ((totalBytes, None), w4) \<Rightarrow>
                            (None, set_mod_time os path resp w4))))))"

definition download :: "'w os_ops \<Rightarrow> string \<Rightarrow> string \<Rightarrow> 'w \<Rightarrow> go_error option \<times> 'w" where
  "download os crlUrl path w =
     (let ((action, offset, sz), w1) = determineAction os crlUrl path w
      in if action = UpToDate then (None, w1)
         else
           (case http_NewRequest os crlUrl of
              Some err \<Rightarrow> (Some err, w1)
            | None \<Rightarrow>
                save_response os path
                  (http_Get os crlUrl (tool_header # (if action = Resume then [range_header offset sz] else [])) w1)))"

subsection \<open>Retries\<close>

text \<open>
  The loop \<^verbatim>\<open>for ; i <= maxRetries; i++\<close> with \<open>n\<close> rounds left after this one; \<open>attempt\<close> is the call
  of \<^verbatim>\<open>download\<close>. A cancelled context ends it with nil. (The counter is a \<^verbatim>\<open>uint\<close>: the loop ends
  for every \<^verbatim>\<open>maxRetries\<close> but the largest, which no caller passes.)
\<close>

fun retry_loop ::
  "('w \<Rightarrow> bool) \<Rightarrow> ('w \<Rightarrow> go_error option \<times> 'w) \<Rightarrow> nat \<Rightarrow> 'w \<Rightarrow> go_error option \<times> 'w" where
  "retry_loop cancelled attempt n w =
     (if cancelled w then (None, w)
      else
        (case attempt w of
           (None, w1) \<Rightarrow> (None, w1)
         | (Some err, w1) \<Rightarrow>
             (case n of 0 \<Rightarrow> (Some err, w1) | Suc m \<Rightarrow> retry_loop cancelled attempt m w1)))"

declare retry_loop.simps [simp del]

definition DownloadFileSync ::
  "'w os_ops \<Rightarrow> string \<Rightarrow> string \<Rightarrow> nat \<Rightarrow> 'w \<Rightarrow> go_error option \<times> 'w" where
  "DownloadFileSync os crlUrl path maxRetries w =
     retry_loop (\<lambda>w. ctx_Err os w \<noteq> None) (download os crlUrl path) maxRetries w"

subsection \<open>Download and verify\<close>

text \<open>\<^verbatim>\<open>DownloadAuditor\<close>: the calls, with their arguments.\<close>

datatype DownloadAuditor =
    FailedDownload string string DownloadTracer go_error
  | FailedVerifyUrl string string DownloadTracer go_error
  | FailedVerifyPath string string string go_error

text \<open>\<^verbatim>\<open>verify\<close> is \<^verbatim>\<open>verifyFunc.IsValid\<close>, which reads the file at a path.\<close>

definition attemptFallbackToExistingFile ::
  "(string \<Rightarrow> 'w \<Rightarrow> go_error option) \<Rightarrow> string \<Rightarrow> string \<Rightarrow> go_error \<Rightarrow> 'w \<Rightarrow> bool res" where
  "attemptFallbackToExistingFile verify ident finalPath err w =
     (case verify finalPath w of
        None \<Rightarrow> (True, Some err)
      | Some existingValidErr \<Rightarrow>
          (False, Some (Errorf (''['' @ ident @ ''] Couldn't verify already-on-disk path '' @ finalPath
             @ ''. Local error='' @ err_text existingValidErr @ '', Caused by='' @ err_text err))))"

definition tmp_path :: "string \<Rightarrow> string" where
  "tmp_path finalPath = finalPath @ ''.tmp''"

text \<open>
  \<^verbatim>\<open>Configure\<close> hands \<^verbatim>\<open>dnsDone\<close> to the HTTP client as a callback: after a download that led from \<open>w\<close> to
  \<open>w1\<close> the tracer has seen the lookups of the requests made with its context in between (the HEAD request of
  \<^verbatim>\<open>determineAction\<close> is made without it).
\<close>

definition traced :: "'w os_ops \<Rightarrow> 'w \<Rightarrow> 'w \<Rightarrow> DownloadTracer" where
  "traced os w w1 =
     fold (\<lambda>ddi da. dnsDone da ddi) (drop (length (dns_log os w)) (dns_log os w1)) NewDownloadTracer"

text \<open>The deferred removal of the temporary file runs last, on every path.\<close>

definition DownloadAndVerifyFileSync ::
  "'w os_ops \<Rightarrow> (string \<Rightarrow> 'w \<Rightarrow> go_error option) \<Rightarrow> string \<Rightarrow> string \<Rightarrow> string \<Rightarrow> nat \<Rightarrow> 'w
    \<Rightarrow> bool res \<times> DownloadAuditor list \<times> 'w" where
  "DownloadAndVerifyFileSync os verify ident crlUrl finalPath maxRetries w =
     (let tmpPath = tmp_path finalPath;
          (r, calls, w') =
            (case DownloadFileSync os crlUrl tmpPath maxRetries w of
               (Some dlErr, w1) \<Rightarrow>
                 (attemptFallbackToExistingFile verify ident finalPath dlErr w1,
                  [FailedDownload ident crlUrl (traced os w w1) dlErr], w1)
             | (None, w1) \<Rightarrow>
                 (case verify tmpPath w1 of
                    Some dlValidErr \<Rightarrow>
                      (attemptFallbackToExistingFile verify ident finalPath dlValidErr w1,
                       [FailedVerifyUrl ident crlUrl (traced os w w1) dlValidErr], w1)
                  | None \<Rightarrow>
                      (case os_Rename os tmpPath finalPath w1 of
                         (Some renameErr, w2) \<Rightarrow>
                           (attemptFallbackToExistingFile verify ident finalPath renameErr w2, [], w2)
                       | (None, w2) \<Rightarrow> ((True, None), [], w2))))
      in (r, calls, snd (os_Remove os tmpPath w')))"

lemma DNSDone_fold [simp]: "DNSDone (fold (\<lambda>ddi da. dnsDone da ddi) xs da) = DNSDone da @ xs"
  by (induction xs arbitrary: da) (simp_all add: dnsDone_def)

lemma DNSDone_traced: "DNSDone (traced os w w1) = drop (length (dns_log os w)) (dns_log os w1)"
  by (simp add: traced_def NewDownloadTracer_def)

subsection \<open>Lemmas over any disk\<close>

context disk
begin
lemma determineAction_keeps: "determineAction os u p w = (a, w') \<Longrightarrow> content w' = content w"
  by (auto simp: determineAction_def split: sum.splits option.splits prod.splits if_splits
      dest: head_keeps)

lemma set_mod_time_keeps: "content (set_mod_time os p resp w) = content w"
  using chtimes_keeps by (auto simp: set_mod_time_def Let_def split: sum.splits) (metis prod.collapse)

lemma download_frame:
  assumes "download os u p w = (e, w')" "q \<noteq> p"
  shows "content w' q = content w q"
proof -
  obtain a off sz w1 where d: "determineAction os u p w = ((a, off, sz), w1)"
    by (metis prod_cases3 surj_pair)
  note k = determineAction_keeps [OF d]
  from assms(1) k show ?thesis
    by (auto simp: download_def save_response_def d set_mod_time_keeps
        split: if_splits option.splits sum.splits prod.splits
        dest!: get_keeps open_frame [OF _ assms(2)] copy_frame [OF _ assms(2)])
qed

lemma retry_frame:
  assumes "\<And>w e w'. attempt w = (e, w') \<Longrightarrow> content w' q = content w q"
  shows "retry_loop cancelled attempt n w = (e, w') \<Longrightarrow> content w' q = content w q"
proof (induction n arbitrary: w)
  case 0
  from 0 show ?case
    by (auto simp: retry_loop.simps [of _ _ 0] split: if_splits prod.splits option.splits dest: assms)
next
  case (Suc n)
  from Suc.prems show ?case
    by (auto simp: retry_loop.simps [of _ _ "Suc n"] split: if_splits prod.splits option.splits
        dest!: assms Suc.IH)
qed

lemma DownloadFileSync_frame:
  "DownloadFileSync os u p n w = (e, w') \<Longrightarrow> q \<noteq> p \<Longrightarrow> content w' q = content w q"
  unfolding DownloadFileSync_def using retry_frame [of "download os u p" q] download_frame by blast

text \<open>
  The contract of \<^verbatim>\<open>DownloadAndVerifyFileSync\<close> for a verifier that looks at the contents of the file
  only: the boolean is the verdict on what is at \<open>finalPath\<close> afterwards, nothing but the two paths
  changes, and what is at \<open>finalPath\<close> is what was there or a download that was verified.
\<close>

lemma download_and_verify:
  assumes verdict: "\<And>p w. verify p w = None \<longleftrightarrow> valid (content w p)"
    and run: "DownloadAndVerifyFileSync os verify ident u finalPath n w = ((ok, err), calls, w')"
  shows "ok \<longleftrightarrow> valid (content w' finalPath)"
    and "content w' finalPath = content w finalPath \<or> valid (content w' finalPath)"
    and "err = None \<Longrightarrow> ok" and "calls \<noteq> [] \<Longrightarrow> content w' finalPath = content w finalPath"
    and "q \<noteq> finalPath \<Longrightarrow> q \<noteq> tmp_path finalPath \<Longrightarrow> content w' q = content w q"
proof -
  have ne [simp]: "tmp_path finalPath \<noteq> finalPath" "finalPath \<noteq> tmp_path finalPath" by (simp_all add: tmp_path_def)
  obtain e1 w1 where d: "DownloadFileSync os u (tmp_path finalPath) n w = (e1, w1)" by fastforce
  note d1 = DownloadFileSync_frame [OF d]
  obtain er w2 where r: "os_Rename os (tmp_path finalPath) finalPath w1 = (er, w2)" by fastforce
  have r1: "content w2 = (content w1)(finalPath := content w1 (tmp_path finalPath), tmp_path finalPath := None)"
    if "er = None" using rename_ok r that by simp
  have r2: "content w2 = content w1" if "er \<noteq> None" using rename_error r that by auto
  have rm: "content (snd (os_Remove os (tmp_path finalPath) v)) q = content v q"
    if "q \<noteq> tmp_path finalPath" for v q using remove_other that by (metis prod.collapse)
  have v: "valid (content w p)" if "verify p w = None" for p w using verdict that by simp
  have nv: "\<not> valid (content w p)" if "verify p w = Some e" for p w e using verdict [of p w] that by simp
  note defs = DownloadAndVerifyFileSync_def attemptFallbackToExistingFile_def Let_def d r
  show "ok \<longleftrightarrow> valid (content w' finalPath)" using run r1
    by (auto simp: defs rm d1 split: option.splits dest: v nv)
  show "content w' finalPath = content w finalPath \<or> valid (content w' finalPath)" using run r1 r2
    by (auto simp: defs rm d1 split: option.splits dest: v nv)
  show "err = None \<Longrightarrow> ok" using run by (auto simp: defs split: option.splits)
  show "calls \<noteq> [] \<Longrightarrow> content w' finalPath = content w finalPath" using run
    by (auto simp: defs rm d1 split: option.splits)
  show "q \<noteq> finalPath \<Longrightarrow> q \<noteq> tmp_path finalPath \<Longrightarrow> content w' q = content w q" using run r1 r2
    by (auto simp: defs rm d1 split: option.splits dest: v nv)
qed

end

subsection \<open>A sample\<close>

text \<open>The file \<open>f\<close> holds the bytes 1, its download fails once and then yields the bytes 7, 8.\<close>

definition sample_resp :: http_response where
  "sample_resp = \<lparr>StatusCode = 200, Status = ''200 OK'',
     resp_Header = [(''Last-Modified'', ''0000000001600000000'')], Body = ([7, 8], None)\<rparr>"

definition sample_sim :: sim where
  "sample_sim = \<lparr>sim_files = [''f'' \<mapsto> ([1], 5)],
     sim_replies = [Inl (ExtError ''timeout''), Inr sample_resp], sim_now = 9, sim_cancelled = False, sim_dns = [],
     sim_tree = (\<lambda>p. FsBad p not_exist)\<rparr>"

definition sample_dns :: "nat \<Rightarrow> DNSDoneInfo list" where
  "sample_dns n = replicate n \<lparr>Addrs = [''192.0.2.1''], ddi_Err = None\<rparr>"

text \<open>A verifier that wants two bytes.\<close>

definition sample_check :: "bytes option \<Rightarrow> go_error option" where
  "sample_check c =
     (case c of None \<Rightarrow> Some not_exist
      | Some bs \<Rightarrow> if length bs = 2 then None else Some (Errorf ''bad length''))"

subsection \<open>Properties\<close>

text \<open>
  C36. \<^verbatim>\<open>DownloadAndVerifyFileSync\<close>, on any disk that satisfies the laws of files and with any verifier
  that reads the file's contents only: the returned boolean is the verdict on what is at the final
  path when the call returns; what is there is what was there before or a verified download; without
  an error it is valid; and no file but the final and the temporary one changes.
\<close>

theorem download_and_verify_sound:
  assumes laws: "disk os content"
    and verdict: "\<And>p w. verify p w = None \<longleftrightarrow> valid (content w p)"
    and run: "DownloadAndVerifyFileSync os verify ident u finalPath maxRetries w = ((ok, err), calls, w')"
  shows "(ok \<longleftrightarrow> valid (content w' finalPath)) \<and>
     (content w' finalPath = content w finalPath \<or> valid (content w' finalPath)) \<and>
     (err = None \<longrightarrow> ok) \<and> (calls \<noteq> [] \<longrightarrow> content w' finalPath = content w finalPath) \<and>
     (\<forall>q. q \<noteq> finalPath \<longrightarrow> q \<noteq> tmp_path finalPath \<longrightarrow> content w' q = content w q)"
  using disk.download_and_verify [OF laws verdict run] by blast

lemma sample_download:
  "DownloadAndVerifyFileSync sim_os (\<lambda>p w. sample_check (sim_content w p)) ''id'' ''u'' ''f'' 3 sample_sim =
     ((True, None), [],
      sample_sim\<lparr>sim_files := [''f'' \<mapsto> ([7, 8], time_Unix 1600000000 0)], sim_replies := [], sim_dns := sample_dns 2\<rparr>)"
proof -
  let ?w = "sample_sim\<lparr>sim_replies := [Inr sample_resp], sim_dns := sample_dns (Suc 0)\<rparr>"
  let ?v = "sample_sim\<lparr>sim_replies := [], sim_dns := sample_dns 2, sim_files := [''f'' \<mapsto> ([1], 5), ''f.tmp'' \<mapsto> ([7, 8], time_Unix 1600000000 0)]\<rparr>"
  note defs = download_def save_response_def determineAction_def GetSizeAndDateOfFile_def sim_defs sample_dns_def sample_sim_def sample_resp_def
  have 1: "download sim_os ''u'' ''f.tmp'' sample_sim = (Some (ExtError ''timeout''), ?w)"
    by (simp add: defs)
  have 2: "download sim_os ''u'' ''f.tmp'' ?w = (None, ?v)"
    by (simp add: defs numeral_2_eq_2 set_mod_time_def header_Get_def sim_ParseTime_def parse_digits_def is_digit_def digit_value_def)
  have "DownloadFileSync sim_os ''u'' ''f.tmp'' 3 sample_sim = (None, ?v)"
    by (simp add: DownloadFileSync_def retry_loop.simps 1 2) (simp add: sample_sim_def)
  then show ?thesis
    by (simp add: DownloadAndVerifyFileSync_def tmp_path_def sample_check_def sim_defs sample_sim_def fun_eq_iff)
qed

theorem download_and_verify_sound_witness:
  "sim_content (sample_sim\<lparr>sim_files := [''f'' \<mapsto> ([7, 8], time_Unix 1600000000 0)], sim_replies := [], sim_dns := sample_dns 2\<rparr>) ''f''
     = Some [7, 8] \<and>
   sample_check (sim_content
     (sample_sim\<lparr>sim_files := [''f'' \<mapsto> ([7, 8], time_Unix 1600000000 0)], sim_replies := [], sim_dns := sample_dns 2\<rparr>) ''f'') = None"
  using download_and_verify_sound [OF sim.disk_axioms _ sample_download, of "\<lambda>c. sample_check c = None"]
  by (simp add: sim_content_def)

text \<open>The world after \<open>i\<close> attempts, each begun where the last one ended.\<close>

definition after_attempts :: "('w \<Rightarrow> go_error option \<times> 'w) \<Rightarrow> nat \<Rightarrow> 'w \<Rightarrow> 'w" where
  "after_attempts attempt i w = ((\<lambda>v. snd (attempt v)) ^^ i) w"

lemma after_attempts_simps [simp]:
  "after_attempts attempt 0 w = w"
  "after_attempts attempt (Suc i) w = after_attempts attempt i (snd (attempt w))"
  using funpow_swap1 [of "\<lambda>v. snd (attempt v)" i w] by (simp_all add: after_attempts_def)

lemma retry_loop_outcome:
  "\<exists>k\<le>Suc n. (\<forall>i<k. \<not> cancelled (after_attempts attempt i w) \<and> fst (attempt (after_attempts attempt i w)) \<noteq> None) \<and>
     (if k = Suc n then retry_loop cancelled attempt n w = attempt (after_attempts attempt n w)
      else if cancelled (after_attempts attempt k w)
      then retry_loop cancelled attempt n w = (None, after_attempts attempt k w)
      else fst (attempt (after_attempts attempt k w)) = None \<and>
           retry_loop cancelled attempt n w = attempt (after_attempts attempt k w))"
    (is "\<exists>k\<le>Suc n. ?P n w k")
proof (induction n arbitrary: w)
  case 0
  have unf: "retry_loop cancelled attempt 0 w = (if cancelled w then (None, w) else attempt w)"
    by (subst retry_loop.simps) (simp split: prod.split option.split)
  show ?case
  proof (cases "cancelled w \<or> fst (attempt w) = None")
    case True
    then have "?P 0 w 0" using unf by auto
    then show ?thesis by blast
  next
    case False
    then have "?P 0 w (Suc 0)" using unf by simp
    then show ?thesis by blast
  qed
next
  case (Suc n)
  have unf: "retry_loop cancelled attempt (Suc n) w =
      (if cancelled w then (None, w) else if fst (attempt w) = None then attempt w
       else retry_loop cancelled attempt n (snd (attempt w)))"
    by (subst retry_loop.simps) (simp split: prod.split option.split)
  show ?case
  proof (cases "cancelled w \<or> fst (attempt w) = None")
    case True
    then have "?P (Suc n) w 0" using unf by auto
    then show ?thesis by blast
  next
    case False
    obtain k where k: "k \<le> Suc n" "?P n (snd (attempt w)) k" using Suc.IH by blast
    have "?P (Suc n) w (Suc k)" using k(2) False unf by (auto simp: less_Suc_eq_0_disj)
    with k(1) show ?thesis by (meson Suc_le_mono)
  qed
qed

text \<open>
  C37. \<^verbatim>\<open>DownloadFileSync\<close> makes at most \<open>maxRetries + 1\<close> attempts: there is a number \<open>k\<close> of failed
  attempts, each made while the context was not cancelled, after which it has used them all and
  returns the error of the last, or found the context cancelled and returned nil without another
  attempt, or made one more that succeeded.
\<close>

theorem download_file_sync_attempts:
  "\<exists>k\<le>Suc maxRetries.
     (\<forall>i<k. ctx_Err os (after_attempts (download os u p) i w) = None \<and>
        fst (download os u p (after_attempts (download os u p) i w)) \<noteq> None) \<and>
     (if k = Suc maxRetries
      then DownloadFileSync os u p maxRetries w = download os u p (after_attempts (download os u p) maxRetries w)
      else if ctx_Err os (after_attempts (download os u p) k w) \<noteq> None
      then DownloadFileSync os u p maxRetries w = (None, after_attempts (download os u p) k w)
      else fst (download os u p (after_attempts (download os u p) k w)) = None \<and>
           DownloadFileSync os u p maxRetries w = download os u p (after_attempts (download os u p) k w))"
  unfolding DownloadFileSync_def
  using retry_loop_outcome [of maxRetries "\<lambda>w. ctx_Err os w \<noteq> None" "download os u p" w] by simp

theorem download_file_sync_attempts_witness:
  "\<exists>k\<le>Suc 1.
     (\<forall>i<k. ctx_Err sim_os (after_attempts (download sim_os ''u'' ''g'') i sample_sim) = None \<and>
        fst (download sim_os ''u'' ''g'' (after_attempts (download sim_os ''u'' ''g'') i sample_sim)) \<noteq> None)"
  using download_file_sync_attempts [of 1 sim_os "''u''" "''g''" sample_sim] by blast

text \<open>
  C40. \<^verbatim>\<open>determineAction\<close> says Resume exactly when the file on disk can be inspected, the HEAD request (without
  which there is no answer) succeeds, its \<^verbatim>\<open>Last-Modified\<close> and \<^verbatim>\<open>Content-Length\<close> can be read, the file is not
  older than the server's, is shorter than it, and the server accepts ranges of bytes; the two numbers
  are the two sizes. \<^verbatim>\<open>download\<close> then sends, and treats the answer to, a request whose header is the
  response header \<^verbatim>\<open>Content-Range\<close> with a negative total length: the subtraction is the wrong way round.
\<close>

theorem resume_request:
  "(determineAction os u p w = ((Resume, offset, sz), w1) \<longleftrightarrow>
     (\<exists>localDate resp lastMod. GetSizeAndDateOfFile os p w = Inr (offset, localDate) \<and> http_NewRequest os u = None \<and>
        http_Head os u [tool_header] w = (Inr resp, w1) \<and>
        http_ParseTime os (header_Get (resp_Header resp) ''Last-Modified'') = Inr lastMod \<and>
        strconv_ParseInt (header_Get (resp_Header resp) ''Content-Length'') = Inr sz \<and>
        lastMod \<le> localDate \<and> offset < sz \<and> header_Get (resp_Header resp) ''Accept-Ranges'' = ''bytes'')) \<and>
   (determineAction os u p w = ((Resume, offset, sz), w1) \<longrightarrow>
     (\<exists>n. int n = sz - offset \<and> 0 < n \<and>
        download os u p w = save_response os p (http_Get os u
          [tool_header, (''Content-Range'', ''bytes: '' @ show_int offset @ ''-'' @ show_int sz @ ''/-'' @ show_nat n)] w1)))"
proof (intro conjI impI)
  show eq: "determineAction os u p w = ((Resume, offset, sz), w1) \<longleftrightarrow>
     (\<exists>localDate resp lastMod. GetSizeAndDateOfFile os p w = Inr (offset, localDate) \<and> http_NewRequest os u = None \<and>
        http_Head os u [tool_header] w = (Inr resp, w1) \<and>
        http_ParseTime os (header_Get (resp_Header resp) ''Last-Modified'') = Inr lastMod \<and>
        strconv_ParseInt (header_Get (resp_Header resp) ''Content-Length'') = Inr sz \<and>
        lastMod \<le> localDate \<and> offset < sz \<and> header_Get (resp_Header resp) ''Accept-Ranges'' = ''bytes'')"
    unfolding determineAction_def
    by (auto simp: time_Before_def not_less split: sum.splits option.splits prod.splits if_splits)
  assume r: "determineAction os u p w = ((Resume, offset, sz), w1)"
  with eq have lt: "offset < sz" and rq: "http_NewRequest os u = None" by auto
  then have "range_header offset sz =
      (''Content-Range'', ''bytes: '' @ show_int offset @ ''-'' @ show_int sz @ ''/-'' @ show_nat (nat (sz - offset)))"
    by (simp add: range_header_def show_int_def [of "offset - sz"])
  then show "\<exists>n. int n = sz - offset \<and> 0 < n \<and> download os u p w = save_response os p (http_Get os u
      [tool_header, (''Content-Range'', ''bytes: '' @ show_int offset @ ''-'' @ show_int sz @ ''/-'' @ show_nat n)] w1)"
    using lt rq r by (intro exI [of _ "nat (sz - offset)"]) (simp add: download_def)
qed

definition sample_head :: http_response where
  "sample_head = \<lparr>StatusCode = 200, Status = ''200 OK'',
     resp_Header = [(''Last-Modified'', ''3''), (''Content-Length'', ''9''), (''Accept-Ranges'', ''bytes'')],
     Body = ([], None)\<rparr>"

definition sample_partial :: sim where
  "sample_partial = sample_sim\<lparr>sim_files := [''f'' \<mapsto> ([1, 2], time_Unix 4 0)], sim_replies := [Inr sample_head]\<rparr>"

theorem resume_request_witness:
  "\<exists>n. int n = 7 \<and> download sim_os ''u'' ''f'' sample_partial = save_response sim_os ''f'' (http_Get sim_os ''u''
     [tool_header, (''Content-Range'', ''bytes: 2-9/-'' @ show_nat n)] (sample_partial\<lparr>sim_replies := []\<rparr>))"
proof -
  have d: "determineAction sim_os ''u'' ''f'' sample_partial = ((Resume, 2, 9), sample_partial\<lparr>sim_replies := []\<rparr>)"
    by (simp add: determineAction_def GetSizeAndDateOfFile_def sim_defs sample_partial_def sample_sim_def
        sample_head_def header_Get_def sim_ParseTime_def strconv_ParseInt_def parse_digits_def is_digit_def
        digit_value_def time_Before_def time_Unix_def Second_def unix_epoch_def)
  have "show_int 2 = ''2''" "show_int 9 = ''9''" by code_simp+
  with conjunct2 [OF resume_request, rule_format, OF d] show ?thesis by auto
qed

end
