(* ===== verification/Go_Encoding.thy ===== *)
theory Go_Encoding
  imports Crlite_Prelude
begin

text \<open>
  The encodings of the Go standard library the repository stores its identifiers in:
  \<^verbatim>\<open>encoding/hex\<close> (\<^verbatim>\<open>EncodeToString\<close>, \<^verbatim>\<open>DecodeString\<close>) and the padded URL alphabet of
  \<^verbatim>\<open>encoding/base64\<close> (\<^verbatim>\<open>URLEncoding\<close>). The lemmas show that decoding inverts encoding, which
  characters an encoded text can hold, and how long it is: the cache keys of
  \<^verbatim>\<open>storage/\<close> are cut apart again at separators that these alphabets do not contain.
\<close>

subsection \<open>Hexadecimal\<close>

definition hextable :: string where
  "hextable = ''0123456789abcdef''"

definition hex_byte :: "byte \<Rightarrow> string" where
  "hex_byte b = [hextable ! (unat b div 16), hextable ! (unat b mod 16)]"

definition hex_EncodeToString :: "bytes \<Rightarrow> string" where
  "hex_EncodeToString bs = concat (map hex_byte bs)"

definition fromHexChar :: "char \<Rightarrow> nat option" where
  "fromHexChar c =
     (if CHR ''0'' \<le> c \<and> c \<le> CHR ''9'' then Some (of_char c - of_char (CHR ''0''))
      else if CHR ''a'' \<le> c \<and> c \<le> CHR ''f'' then Some (of_char c - of_char (CHR ''a'') + 10)
      else if CHR ''A'' \<le> c \<and> c \<le> CHR ''F'' then Some (of_char c - of_char (CHR ''A'') + 10)
      else None)"

abbreviation hex_invalid :: go_error where
  "hex_invalid \<equiv> StdError ''hex.InvalidByteError''"

abbreviation hex_length :: go_error where
  "hex_length \<equiv> StdError ''hex.ErrLength''"

text \<open>
  \<^verbatim>\<open>hex.DecodeString\<close> returns the bytes decoded before an error together with the error; a
  last single character is checked before the odd length is reported.
\<close>

fun hex_DecodeString :: "string \<Rightarrow> bytes \<times> go_error option" where
  "hex_DecodeString [] = ([], None)"
| "hex_DecodeString [a] =
     ([], Some (if fromHexChar a = None then hex_invalid else hex_length))"
| "hex_DecodeString (a # b # s) =
     (case fromHexChar a of
        None \<Rightarrow> ([], Some hex_invalid)
      | Some x \<Rightarrow>
          (case fromHexChar b of
             None \<Rightarrow> ([], Some hex_invalid)
           | Some y \<Rightarrow> (let (bs, e) = hex_DecodeString s in (of_nat (16 * x + y) # bs, e))))"

subsection \<open>Base64 with the URL alphabet\<close>

definition b64_alphabet :: string where
  "b64_alphabet = ''ABCDEFGHIJKLMNOPQRSTUVWXYZabcdefghijklmnopqrstuvwxyz0123456789-_''"

definition b64_char :: "nat \<Rightarrow> char" where
  "b64_char n = b64_alphabet ! n"

definition b64_value :: "char \<Rightarrow> int option" where
  "b64_value c =
     (if CHR ''A'' \<le> c \<and> c \<le> CHR ''Z'' then Some (of_char c - 65)
      else if CHR ''a'' \<le> c \<and> c \<le> CHR ''z'' then Some (of_char c - 97 + 26)
      else if CHR ''0'' \<le> c \<and> c \<le> CHR ''9'' then Some (of_char c - 48 + 52)
      else if c = CHR ''-'' then Some 62
      else if c = CHR ''_'' then Some 63
      else None)"

text \<open>A group of three bytes as a 24-bit value, and its four 6-bit digits.\<close>

definition b64_val :: "byte \<Rightarrow> byte \<Rightarrow> byte \<Rightarrow> int" where
  "b64_val a b c = uint a * 65536 + uint b * 256 + uint c"

definition b64_digit :: "int \<Rightarrow> nat \<Rightarrow> char" where
  "b64_digit v i = b64_char (nat (v div 64 ^ (3 - i) mod 64))"

fun b64_EncodeToString :: "bytes \<Rightarrow> string" where
  "b64_EncodeToString [] = []"
| "b64_EncodeToString [a] =
     (let v = b64_val a 0 0 in [b64_digit v 0, b64_digit v 1, CHR ''='', CHR ''=''])"
| "b64_EncodeToString [a, b] =
     (let v = b64_val a b 0 in [b64_digit v 0, b64_digit v 1, b64_digit v 2, CHR ''=''])"
| "b64_EncodeToString (a # b # c # bs) =
     (let v = b64_val a b c
      in [b64_digit v 0, b64_digit v 1, b64_digit v 2, b64_digit v 3] @ b64_EncodeToString bs)"

definition b64_join :: "int \<Rightarrow> int \<Rightarrow> int \<Rightarrow> int \<Rightarrow> int" where
  "b64_join w x y z = w * 262144 + x * 4096 + y * 64 + z"

definition b64_byte :: "int \<Rightarrow> nat \<Rightarrow> byte" where
  "b64_byte v i = word_of_int (v div 256 ^ (2 - i) mod 256)"

text \<open>
  \<^verbatim>\<open>decodeQuantum\<close> over the whole input: four digits give three bytes; a group padded by one
  or two \<^verbatim>\<open>=\<close> gives two or one and must be the last. The unused low bits of a padded group
  are not checked, as the decoder is not in strict mode.
\<close>

fun b64_quanta :: "string \<Rightarrow> bytes option" where
  "b64_quanta [] = Some []"
| "b64_quanta (c0 # c1 # c2 # c3 # s) =
     (case (b64_value c0, b64_value c1) of
        (Some w, Some x) \<Rightarrow>
          (if c2 = CHR ''='' then
             (if c3 = CHR ''='' \<and> s = [] then Some [b64_byte (b64_join w x 0 0) 0] else None)
           else
             (case b64_value c2 of
                None \<Rightarrow> None
              | Some y \<Rightarrow>
                  (if c3 = CHR ''='' then
                     (if s = [] then
                        (let v = b64_join w x y 0 in Some [b64_byte v 0, b64_byte v 1])
                      else None)
                   else
                     (case b64_value c3 of
                        None \<Rightarrow> None
                      | Some z \<Rightarrow>
                          (let v = b64_join w x y z in
                           map_option (\<lambda>bs. [b64_byte v 0, b64_byte v 1, b64_byte v 2] @ bs)
                             (b64_quanta s))))))
      | _ \<Rightarrow> None)"
| "b64_quanta _ = None"

abbreviation b64_corrupt :: go_error where
  "b64_corrupt \<equiv> StdError ''base64.CorruptInputError''"

text \<open>\<^verbatim>\<open>URLEncoding.DecodeString\<close> skips carriage returns and line feeds anywhere.\<close>

definition b64_DecodeString :: "string \<Rightarrow> go_error + bytes" where
  "b64_DecodeString s =
     (case b64_quanta (filter (\<lambda>c. c \<noteq> CHR 0x0A \<and> c \<noteq> CHR 0x0D) s) of
        None \<Rightarrow> Inl b64_corrupt
      | Some bs \<Rightarrow> Inr bs)"

subsection \<open>Lemmas: hexadecimal\<close>

lemma hextable_digits:
  "list_all (\<lambda>n. fromHexChar (hextable ! n) = Some n) [0..<16]"
  by code_simp

lemma fromHexChar_hextable [simp]: "n < 16 \<Longrightarrow> fromHexChar (hextable ! n) = Some n"
  using hextable_digits by (auto simp: list_all_iff)

lemma unat_byte_less [simp]: "unat (b :: byte) < 256"
  using unsigned_less [of b] by simp

lemma hex_byte_decode:
  "hex_DecodeString (hex_byte b @ s) = (let (bs, e) = hex_DecodeString s in (b # bs, e))"
proof -
  have "unat b div 16 < 16"
    using unat_byte_less [of b] by (simp only: less_mult_imp_div_less)
  then show ?thesis by (simp add: hex_byte_def mult.commute [of 16])
qed

lemma hex_decode_encode [simp, codec_simps]:
  "hex_DecodeString (hex_EncodeToString bs) = (bs, None)"
  by (induction bs) (simp_all add: hex_EncodeToString_def hex_byte_decode)

lemma length_hex_EncodeToString [simp]: "length (hex_EncodeToString bs) = 2 * length bs"
  by (induction bs) (simp_all add: hex_EncodeToString_def hex_byte_def)

lemma hex_EncodeToString_inject [simp]:
  "hex_EncodeToString a = hex_EncodeToString b \<longleftrightarrow> a = b"
  by (metis hex_decode_encode fst_conv)

lemma set_hex_byte: "set (hex_byte b) \<subseteq> set hextable"
proof -
  have "unat b div 16 < 16" using unat_byte_less [of b] by (simp only: less_mult_imp_div_less)
  moreover have "length hextable = 16" by (simp add: hextable_def)
  ultimately show ?thesis by (auto simp: hex_byte_def)
qed

lemma set_hex_EncodeToString: "set (hex_EncodeToString bs) \<subseteq> set hextable"
  using set_hex_byte by (fastforce simp: hex_EncodeToString_def)

subsection \<open>Lemmas: base64\<close>

lemma b64_alphabet_values:
  "list_all (\<lambda>n. b64_value (b64_char n) = Some (int n)) [0..<64]"
  by code_simp

lemma b64_alphabet_chars: "list_all (\<lambda>n. b64_char n \<in> set b64_alphabet) [0..<64]"
  by code_simp

lemma b64_alphabet_clean:
  "CHR ''='' \<notin> set b64_alphabet" "CHR 0x0A \<notin> set b64_alphabet" "CHR 0x0D \<notin> set b64_alphabet"
  by code_simp+

lemma b64_value_digit [simp]: "b64_value (b64_digit v i) = Some (v div 64 ^ (3 - i) mod 64)"
proof -
  have "0 \<le> v div 64 ^ (3 - i) mod 64" "v div 64 ^ (3 - i) mod 64 < 64" by simp_all
  then show ?thesis using b64_alphabet_values by (simp add: b64_digit_def list_all_iff)
qed

lemma b64_digit_alphabet: "b64_digit v i \<in> set b64_alphabet"
  using b64_alphabet_chars by (simp add: b64_digit_def list_all_iff nat_less_iff)

lemma b64_digit_clean [simp]:
  "b64_digit v i \<noteq> CHR ''=''" "b64_digit v i \<noteq> CHR 0x0A" "b64_digit v i \<noteq> CHR 0x0D"
  using b64_digit_alphabet [of v i] b64_alphabet_clean by metis+

lemma div_64_chain:
  "v div 4096 = v div 64 div 64" "v div 262144 = v div 64 div 64 div 64" for v :: int
  by (simp_all flip: zdiv_zmult2_eq)

lemma b64_join_digits:
  assumes "0 \<le> v" "v < 16777216"
  shows "b64_join (v div 262144 mod 64) (v div 4096 mod 64) (v div 64 mod 64) (v mod 64) = v"
proof -
  have "0 \<le> v div 262144" "v div 262144 < 64"
    using assms by (simp_all add: pos_imp_zdiv_nonneg_iff)
  then have "v div 64 div 64 div 64 mod 64 = v div 64 div 64 div 64"
    unfolding div_64_chain by (rule mod_pos_pos_trivial)
  then show ?thesis
    unfolding b64_join_def div_64_chain
    using div_mult_mod_eq [of v 64] div_mult_mod_eq [of "v div 64" 64]
      div_mult_mod_eq [of "v div 64 div 64" 64] by linarith
qed

lemma uint_byte_bounds: "0 \<le> uint (b :: byte)" "uint (b :: byte) < 256"
  using unsigned_less [of b] by simp_all

lemma b64_val_bounds: "0 \<le> b64_val a b c" "b64_val a b c < 16777216"
  using uint_byte_bounds [of a] uint_byte_bounds [of b] uint_byte_bounds [of c]
  unfolding b64_val_def by linarith+

lemma two_digits:
  assumes "0 \<le> r" "r < (256 :: int)"
  shows "(r + 256 * q) mod 256 = r" "(r + 256 * q) div 256 = q"
  using assms by (simp_all add: mod_pos_pos_trivial)

lemma b64_val_bytes:
  "b64_val a b c mod 256 = uint c" "b64_val a b c div 256 mod 256 = uint b"
  "b64_val a b c div 65536 mod 256 = uint a"
proof -
  have v: "b64_val a b c = uint c + 256 * (uint b + 256 * uint a)"
    by (simp add: b64_val_def)
  show "b64_val a b c mod 256 = uint c" unfolding v by (rule two_digits) (rule uint_byte_bounds)+
  have d: "b64_val a b c div 256 = uint b + 256 * uint a"
    unfolding v by (rule two_digits) (rule uint_byte_bounds)+
  show "b64_val a b c div 256 mod 256 = uint b"
    unfolding d by (rule two_digits) (rule uint_byte_bounds)+
  have "b64_val a b c div 65536 = b64_val a b c div 256 div 256"
    by (simp flip: zdiv_zmult2_eq)
  also have "\<dots> = uint a" unfolding d by (rule two_digits) (rule uint_byte_bounds)+
  finally show "b64_val a b c div 65536 mod 256 = uint a"
    using uint_byte_bounds [of a] by simp
qed

lemma b64_byte_val [simp]:
  "b64_byte (b64_val a b c) 0 = a" "b64_byte (b64_val a b c) (Suc 0) = b"
  "b64_byte (b64_val a b c) 2 = c"
  by (simp_all add: b64_byte_def b64_val_bytes)

lemma b64_val_low_zero:
  "b64_val a 0 0 div 64 mod 64 = 0" "b64_val a 0 0 mod 64 = 0" "b64_val a b 0 mod 64 = 0"
proof -
  have "b64_val a 0 0 = 64 * (64 * (16 * uint a))" "b64_val a b 0 = 64 * (1024 * uint a + 4 * uint b)"
    by (simp_all add: b64_val_def)
  then show "b64_val a 0 0 div 64 mod 64 = 0" "b64_val a 0 0 mod 64 = 0"
    "b64_val a b 0 mod 64 = 0"
    by (simp_all only: nonzero_mult_div_cancel_left mod_mult_self1_is_0 zero_neq_numeral not_False_eq_True)
qed

lemma b64_value_at:
  "b64_value (b64_digit v 0) = Some (v div 262144 mod 64)"
  "b64_value (b64_digit v (Suc 0)) = Some (v div 4096 mod 64)"
  "b64_value (b64_digit v 2) = Some (v div 64 mod 64)"
  "b64_value (b64_digit v 3) = Some (v mod 64)"
  by simp_all

lemmas b64_join_val = b64_join_digits [OF b64_val_bounds]

lemmas b64_group_simps = b64_EncodeToString.simps b64_quanta.simps Let_def b64_value_at
  b64_digit_clean option.case prod.case if_True if_False simp_thms append_Cons append_Nil

lemma b64_quanta_encode: "b64_quanta (b64_EncodeToString bs) = Some bs"
proof (induction bs rule: b64_EncodeToString.induct)
  case (2 a)
  show ?case
    using b64_join_val [of a 0 0] unfolding b64_val_low_zero
    by (simp only: b64_group_simps b64_byte_val One_nat_def)
next
  case (3 a b)
  show ?case
    using b64_join_val [of a b 0] unfolding b64_val_low_zero
    by (simp only: b64_group_simps b64_byte_val One_nat_def)
next
  case (4 a b c bs)
  show ?case
    by (simp only: b64_group_simps b64_join_val 4 option.map b64_byte_val One_nat_def)
qed simp

lemma set_b64_EncodeToString:
  "set (b64_EncodeToString bs) \<subseteq> insert (CHR ''='') (set b64_alphabet)"
  by (induction bs rule: b64_EncodeToString.induct) (auto simp: Let_def b64_digit_alphabet)

lemma b64_decode_encode [simp, codec_simps]:
  "b64_DecodeString (b64_EncodeToString bs) = Inr bs"
proof -
  have "CHR 0x0A \<notin> insert (CHR ''='') (set b64_alphabet)"
    "CHR 0x0D \<notin> insert (CHR ''='') (set b64_alphabet)"
    using b64_alphabet_clean by auto
  then have "filter (\<lambda>c. c \<noteq> CHR 0x0A \<and> c \<noteq> CHR 0x0D) (b64_EncodeToString bs) =
      b64_EncodeToString bs"
    using set_b64_EncodeToString [of bs] by (auto simp: filter_id_conv)
  then show ?thesis by (simp add: b64_DecodeString_def b64_quanta_encode)
qed

lemma b64_EncodeToString_inject [simp]:
  "b64_EncodeToString a = b64_EncodeToString b \<longleftrightarrow> a = b"
  by (metis b64_decode_encode sum.inject(2))

lemma length_b64_EncodeToString: "length (b64_EncodeToString bs) = 4 * ((length bs + 2) div 3)"
proof (induction bs rule: b64_EncodeToString.induct)
  case (4 a b c bs)
  have "(length bs + 5) div 3 = (length bs + 2) div 3 + 1"
    using div_add_self1 [of 3 "length bs + 2"] by (simp add: add.commute)
  with 4 show ?case by (simp add: Let_def add.commute)
qed (simp_all add: Let_def)

lemma b64_no_separator:
  "CHR '':'' \<notin> set (b64_EncodeToString bs)" "CHR ''/'' \<notin> set (b64_EncodeToString bs)"
proof -
  have "CHR '':'' \<notin> insert (CHR ''='') (set b64_alphabet)"
    "CHR ''/'' \<notin> insert (CHR ''='') (set b64_alphabet)"
    by code_simp+
  then show "CHR '':'' \<notin> set (b64_EncodeToString bs)" "CHR ''/'' \<notin> set (b64_EncodeToString bs)"
    using set_b64_EncodeToString [of bs] by blast+
qed

end
