(* ===== verification/Go_Json.thy ===== *)
theory Go_Json
  imports Go_Encoding
begin

text \<open>
  The encoding of a string by \<^verbatim>\<open>json.Marshal\<close> (\<^verbatim>\<open>encoding/json\<close>, the method \<^verbatim>\<open>string\<close> of
  \<^verbatim>\<open>encodeState\<close> with HTML escaping, its default): surrounding quotes, a backslash escape for
  the quote, the backslash, the control characters and the three HTML characters, the
  replacement character for a byte that does not start a valid UTF-8 sequence, and an escape
  for U+2028 and U+2029. The lemmas show that the strings the repository writes, hexadecimal
  and base64 text, are not changed by it.
\<close>

definition is_cont :: "char \<Rightarrow> bool" where
  "is_cont c \<longleftrightarrow> CHR 0x80 \<le> c \<and> c \<le> CHR 0xBF"

text \<open>The length of the valid UTF-8 sequence a string starts with, 0 when there is none.\<close>

fun utf8_len :: "string \<Rightarrow> nat" where
  "utf8_len [] = 0"
| "utf8_len (a # s) =
     (if a < CHR 0x80 then 1
      else if CHR 0xC2 \<le> a \<and> a \<le> CHR 0xDF
      then (case s of b # _ \<Rightarrow> (if is_cont b then 2 else 0) | [] \<Rightarrow> 0)
      else if CHR 0xE0 \<le> a \<and> a \<le> CHR 0xEF
      then (case s of
              b # c # _ \<Rightarrow>
                (if is_cont b \<and> is_cont c \<and> (a = CHR 0xE0 \<longrightarrow> CHR 0xA0 \<le> b)
                    \<and> (a = CHR 0xED \<longrightarrow> b \<le> CHR 0x9F) then 3 else 0)
            | _ \<Rightarrow> 0)
      else if CHR 0xF0 \<le> a \<and> a \<le> CHR 0xF4
      then (case s of
              b # c # d # _ \<Rightarrow>
                (if is_cont b \<and> is_cont c \<and> is_cont d \<and> (a = CHR 0xF0 \<longrightarrow> CHR 0x90 \<le> b)
                    \<and> (a = CHR 0xF4 \<longrightarrow> b \<le> CHR 0x8F) then 4 else 0)
            | _ \<Rightarrow> 0)
      else 0)"

definition html_safe :: "char \<Rightarrow> bool" where
  "html_safe c \<longleftrightarrow> CHR 0x20 \<le> c \<and> c < CHR 0x80 \<and>
     c \<noteq> CHR 0x22 \<and> c \<noteq> CHR ''&'' \<and> c \<noteq> CHR ''<'' \<and> c \<noteq> CHR ''>'' \<and> c \<noteq> CHR 0x5C"

definition json_escape :: "char \<Rightarrow> string" where
  "json_escape c =
     (if c = CHR 0x5C \<or> c = CHR 0x22 then [CHR 0x5C, c]
      else if c = CHR 0x0A then [CHR 0x5C, CHR ''n'']
      else if c = CHR 0x0D then [CHR 0x5C, CHR ''r'']
      else if c = CHR 0x09 then [CHR 0x5C, CHR ''t'']
      else CHR 0x5C # ''u00'' @ hex_byte (byte_of_char c))"

function json_body :: "string \<Rightarrow> string" where
  "json_body s =
     (case s of
        [] \<Rightarrow> []
      | c # r \<Rightarrow>
          (if c < CHR 0x80 then (if html_safe c then [c] else json_escape c) @ json_body r
           else
             (let n = utf8_len s
              in if n = 0 then CHR 0x5C # ''ufffd'' @ json_body r
                 else if take 3 s = [CHR 0xE2, CHR 0x80, CHR 0xA8]
                 then CHR 0x5C # ''u2028'' @ json_body (drop n s)
                 else if take 3 s = [CHR 0xE2, CHR 0x80, CHR 0xA9]
                 then CHR 0x5C # ''u2029'' @ json_body (drop n s)
                 else take n s @ json_body (drop n s))))"
  by pat_completeness auto
termination
  by (relation "measure length") auto

declare json_body.simps [simp del]

definition json_Marshal_string :: "string \<Rightarrow> bytes" where
  "json_Marshal_string s = bytes_of_string (CHR 0x22 # json_body s @ [CHR 0x22])"

subsection \<open>Lemmas: text without escapes\<close>

lemma json_body_safe: "list_all html_safe s \<Longrightarrow> json_body s = s"
proof (induction s)
  case Nil
  then show ?case by (subst json_body.simps) simp
next
  case (Cons c s)
  then have "c < CHR 0x80" by (simp add: html_safe_def)
  with Cons show ?case by (subst json_body.simps) simp
qed

lemma hextable_safe: "list_all html_safe hextable"
  by code_simp

lemma b64_safe: "list_all html_safe (CHR ''='' # b64_alphabet)"
  by code_simp

lemma json_Marshal_hex [simp]:
  "json_Marshal_string (hex_EncodeToString bs) =
     bytes_of_string (CHR 0x22 # hex_EncodeToString bs @ [CHR 0x22])"
proof -
  have "list_all html_safe (hex_EncodeToString bs)"
    using hextable_safe set_hex_EncodeToString [of bs] by (auto simp: list_all_iff)
  then show ?thesis by (simp add: json_Marshal_string_def json_body_safe)
qed

lemma json_Marshal_b64 [simp]:
  "json_Marshal_string (b64_EncodeToString bs) =
     bytes_of_string (CHR 0x22 # b64_EncodeToString bs @ [CHR 0x22])"
proof -
  have "list_all html_safe (b64_EncodeToString bs)"
    using b64_safe set_b64_EncodeToString [of bs] by (auto simp: list_all_iff)
  then show ?thesis by (simp add: json_Marshal_string_def json_body_safe)
qed

end
