(* ===== verification/Go_Sha256.thy ===== *)
theory Go_Sha256
  imports Crlite_Prelude
begin

text \<open>
  \<^verbatim>\<open>crypto/sha256\<close> of the Go standard library (FIPS 180-4), on 32-bit words: the issuer
  identifiers of \<^verbatim>\<open>storage/types.go\<close> are digests of a public key, and the file names of
  downloaded CRLs end in a digest of their URL. The lemmas give the digest's length; nothing
  is claimed about collisions.
\<close>

unbundle bit_operations_syntax

type_synonym u32 = "32 word"

definition rotr :: "nat \<Rightarrow> u32 \<Rightarrow> u32" where
  "rotr n x = drop_bit n x OR push_bit (32 - n) x"

text \<open>The round constants and the initial state of the standard, in decimal.\<close>

definition sha_k :: "u32 list" where
  "sha_k = [
    1116352408, 1899447441, 3049323471, 3921009573, 961987163, 1508970993, 2453635748, 2870763221,
    3624381080, 310598401, 607225278, 1426881987, 1925078388, 2162078206, 2614888103, 3248222580,
    3835390401, 4022224774, 264347078, 604807628, 770255983, 1249150122, 1555081692, 1996064986,
    2554220882, 2821834349, 2952996808, 3210313671, 3336571891, 3584528711, 113926993, 338241895,
    666307205, 773529912, 1294757372, 1396182291, 1695183700, 1986661051, 2177026350, 2456956037,
    2730485921, 2820302411, 3259730800, 3345764771, 3516065817, 3600352804, 4094571909, 275423344,
    430227734, 506948616, 659060556, 883997877, 958139571, 1322822218, 1537002063, 1747873779,
    1955562222, 2024104815, 2227730452, 2361852424, 2428436474, 2756734187, 3204031479, 3329325298]"

definition sha_init :: "u32 list" where
  "sha_init = [1779033703, 3144134277, 1013904242, 2773480762,
    1359893119, 2600822924, 528734635, 1541459225]"

definition sigma0 :: "u32 \<Rightarrow> u32" where
  "sigma0 x = rotr 7 x XOR rotr 18 x XOR drop_bit 3 x"

definition sigma1 :: "u32 \<Rightarrow> u32" where
  "sigma1 x = rotr 17 x XOR rotr 19 x XOR drop_bit 10 x"

definition Sigma0 :: "u32 \<Rightarrow> u32" where
  "Sigma0 x = rotr 2 x XOR rotr 13 x XOR rotr 22 x"

definition Sigma1 :: "u32 \<Rightarrow> u32" where
  "Sigma1 x = rotr 6 x XOR rotr 11 x XOR rotr 25 x"

definition sha_Ch :: "u32 \<Rightarrow> u32 \<Rightarrow> u32 \<Rightarrow> u32" where
  "sha_Ch x y z = (x AND y) XOR (NOT x AND z)"

definition sha_Maj :: "u32 \<Rightarrow> u32 \<Rightarrow> u32 \<Rightarrow> u32" where
  "sha_Maj x y z = (x AND y) XOR (x AND z) XOR (y AND z)"

text \<open>The message schedule: the last sixteen words give the next one, 48 times.\<close>

fun sha_extend :: "nat \<Rightarrow> u32 list \<Rightarrow> u32 list" where
  "sha_extend 0 w = w"
| "sha_extend (Suc n) w =
     (let t = length w
      in sha_extend n (w @ [sigma1 (w ! (t - 2)) + w ! (t - 7) + sigma0 (w ! (t - 15)) + w ! (t - 16)]))"

fun sha_round :: "u32 list \<Rightarrow> u32 \<times> u32 \<Rightarrow> u32 list" where
  "sha_round [a, b, c, d, e, f, g, h] (k, w) =
     (let t1 = h + Sigma1 e + sha_Ch e f g + k + w;
          t2 = Sigma0 a + sha_Maj a b c
      in [t1 + t2, a, b, c, d + t1, e, f, g])"
| "sha_round s kw = s"

definition sha_block :: "u32 list \<Rightarrow> u32 list \<Rightarrow> u32 list" where
  "sha_block hs blk = map2 (+) hs (foldl sha_round hs (zip sha_k (sha_extend 48 blk)))"

text \<open>Big-endian words, and the padding: a one bit, zeros, and the bit length in 64 bits.\<close>

definition be_word :: "byte \<Rightarrow> byte \<Rightarrow> byte \<Rightarrow> byte \<Rightarrow> u32" where
  "be_word a b c d = word_of_int (((uint a * 256 + uint b) * 256 + uint c) * 256 + uint d)"

fun be_words :: "bytes \<Rightarrow> u32 list" where
  "be_words (a # b # c # d # bs) = be_word a b c d # be_words bs"
| "be_words _ = []"

definition be_bytes :: "nat \<Rightarrow> int \<Rightarrow> bytes" where
  "be_bytes n v = map (\<lambda>i. word_of_int (v div 256 ^ (n - 1 - i))) [0..<n]"

definition sha_pad :: "bytes \<Rightarrow> bytes" where
  "sha_pad m =
     (let l = length m
      in m @ [0x80] @ replicate ((119 - l mod 64) mod 64) 0 @ be_bytes 8 (8 * int l))"

fun sha_blocks :: "nat \<Rightarrow> u32 list \<Rightarrow> u32 list \<Rightarrow> u32 list" where
  "sha_blocks 0 hs ws = hs"
| "sha_blocks (Suc n) hs ws = sha_blocks n (sha_block hs (take 16 ws)) (drop 16 ws)"

definition sha256_Sum256 :: "bytes \<Rightarrow> bytes" where
  "sha256_Sum256 m =
     (let p = sha_pad m
      in concat (map (\<lambda>w. be_bytes 4 (uint w))
           (sha_blocks (length p div 64) sha_init (be_words p))))"

subsection \<open>Lemmas: lengths\<close>

lemma length_sha_round [simp]: "length (sha_round s kw) = length s"
  by (induction s kw rule: sha_round.induct) (simp_all add: Let_def)

lemma length_foldl_sha_round [simp]: "length (foldl sha_round s kws) = length s"
  by (induction kws arbitrary: s) simp_all

lemma length_sha_blocks: "length (sha_blocks n hs ws) = length hs"
  by (induction n hs ws rule: sha_blocks.induct) (simp_all add: sha_block_def)

lemma length_be_bytes [simp]: "length (be_bytes n v) = n"
  by (simp add: be_bytes_def)

lemma length_sha_pad: "64 dvd length (sha_pad m)"
proof -
  have "64 dvd l + 9 + (119 - l mod 64) mod 64" for l :: nat
  proof -
    define q r where "q = l div 64" and "r = l mod 64"
    then have l: "l = 64 * q + r" and r: "r < 64" by simp_all
    have "64 dvd 64 * q + r + 9 + (119 - r) mod 64"
    proof (cases "r \<le> 55")
      case True
      then have "(119 - r) mod 64 = 55 - r" using mod_add_self2 [of "55 - r" 64] by simp
      with True have "64 * q + r + 9 + (119 - r) mod 64 = 64 * (q + 1)" by simp
      then show ?thesis by (metis dvd_triv_left)
    next
      case False
      with r have "64 * q + r + 9 + (119 - r) mod 64 = 64 * (q + 2)" by simp
      then show ?thesis by (metis dvd_triv_left)
    qed
    then show ?thesis unfolding l [symmetric] by (simp add: r_def)
  qed
  from this [of "length m"] show ?thesis
    by (simp add: sha_pad_def Let_def add.assoc)
qed

lemma length_sha256_Sum256 [simp]: "length (sha256_Sum256 m) = 32"
proof -
  have "length (concat (map (\<lambda>w. be_bytes 4 (uint w)) ws)) = 4 * length ws" for ws :: "u32 list"
    by (induction ws) simp_all
  then show ?thesis
    by (simp add: sha256_Sum256_def Let_def length_sha_blocks sha_init_def)
qed

end
