(* ===== verification/Go_Asn1.thy ===== *)
theory Go_Asn1
  imports Crlite_Prelude
begin

text \<open>
  The part of \<^verbatim>\<open>encoding/asn1\<close> of the Go standard library that \<^verbatim>\<open>asn1.Unmarshal\<close> runs on the
  structure the repository decodes itself, \<^verbatim>\<open>tbsCertWithRawSerial\<close> of \<^verbatim>\<open>storage/types.go\<close>: reading a tag and a DER length, cutting out an element, entering a
  \<^verbatim>\<open>SEQUENCE\<close>. The reader is a function from the bytes that are left to the value read and the
  bytes after it. The lemmas show that it reads back what a DER encoder wrote.
\<close>

abbreviation asn1_syntax :: go_error where
  "asn1_syntax \<equiv> StdError ''asn1.SyntaxError''"

abbreviation asn1_structural :: go_error where
  "asn1_structural \<equiv> StdError ''asn1.StructuralError''"

text \<open>\<^verbatim>\<open>tagAndLength\<close> of the package.\<close>

record asn1_header =
  hdr_class :: nat
  hdr_tag :: int
  hdr_length :: int
  hdr_compound :: bool

text \<open>\<^verbatim>\<open>parseBase128Int\<close>: at most five groups of seven bits, the value within 31 bits.\<close>

fun parseBase128Int :: "nat \<Rightarrow> int \<Rightarrow> bytes \<Rightarrow> go_error + (int \<times> bytes)" where
  "parseBase128Int shifted ret [] = Inl asn1_syntax"
| "parseBase128Int shifted ret (b # bs) =
     (if shifted = 5 then Inl asn1_structural
      else
        (let r = ret * 128 + uint b mod 128
         in if uint b < 128
            then (if 2147483647 < r then Inl asn1_structural else Inr (r, bs))
            else parseBase128Int (shifted + 1) r bs))"

text \<open>The long form of a length: no overflow, no leading zero byte.\<close>

fun parse_length_bytes :: "nat \<Rightarrow> int \<Rightarrow> bytes \<Rightarrow> go_error + (int \<times> bytes)" where
  "parse_length_bytes 0 len bs =
     (if len < 128 then Inl asn1_structural else Inr (len, bs))"
| "parse_length_bytes (Suc n) len [] = Inl asn1_syntax"
| "parse_length_bytes (Suc n) len (b # bs) =
     (if 8388608 \<le> len then Inl asn1_structural
      else
        (let l = len * 256 + uint b
         in if l = 0 then Inl asn1_structural else parse_length_bytes n l bs))"

definition parse_length :: "bytes \<Rightarrow> go_error + (int \<times> bytes)" where
  "parse_length bs =
     (case bs of
        [] \<Rightarrow> Inl asn1_syntax
      | b # r \<Rightarrow>
          (if uint b < 128 then Inr (uint b, r)
           else if uint b mod 128 = 0 then Inl asn1_syntax
           else parse_length_bytes (nat (uint b mod 128)) 0 r))"

definition parseTagAndLength :: "bytes \<Rightarrow> go_error + (asn1_header \<times> bytes)" where
  "parseTagAndLength bs =
     (case bs of
        [] \<Rightarrow> Inl (StdError ''asn1: internal error in parseTagAndLength'')
      | b # r \<Rightarrow>
          (let cls = nat (uint b div 64); cmp = (uint b div 32 mod 2 = 1); tag = uint b mod 32;
               tagged = (if tag = 31
                 then (case parseBase128Int 0 0 r of
                         Inl e \<Rightarrow> Inl e
                       | Inr (t, r1) \<Rightarrow> (if t < 31 then Inl asn1_syntax else Inr (t, r1)))
                 else Inr (tag, r))
           in case tagged of
                Inl e \<Rightarrow> Inl e
              | Inr (t, r1) \<Rightarrow>
                  (case parse_length r1 of
                     Inl e \<Rightarrow> Inl e
                   | Inr (len, r2) \<Rightarrow>
                       Inr (\<lparr>hdr_class = cls, hdr_tag = t, hdr_length = len, hdr_compound = cmp\<rparr>, r2))))"

text \<open>\<^verbatim>\<open>parseField\<close> on an \<^verbatim>\<open>asn1.RawValue\<close>: any tag, the content cut out unread.\<close>

definition parse_raw_value :: "bytes \<Rightarrow> go_error + (asn1_header \<times> bytes \<times> bytes)" where
  "parse_raw_value bs =
     (if bs = [] then Inl asn1_syntax
      else
        (case parseTagAndLength bs of
           Inl e \<Rightarrow> Inl e
         | Inr (h, r) \<Rightarrow>
             (if int (length r) < hdr_length h then Inl asn1_syntax
              else Inr (h, take (nat (hdr_length h)) r, drop (nat (hdr_length h)) r))))"

text \<open>
  A field \<^verbatim>\<open>asn1.RawValue\<close> with \<^verbatim>\<open>optional,explicit,default:0,tag:0\<close>: skipped when the data is
  exhausted or the element carries another tag; taken when it is tagged \<^verbatim>\<open>[0]\<close>.
\<close>

definition skip_explicit0 :: "bytes \<Rightarrow> go_error + bytes" where
  "skip_explicit0 bs =
     (if bs = [] then Inr []
      else
        (case parseTagAndLength bs of
           Inl e \<Rightarrow> Inl e
         | Inr (h, r) \<Rightarrow>
             (if r = [] then Inl asn1_structural
              else if hdr_class h = 2 \<and> hdr_tag h = 0 \<and> (hdr_length h = 0 \<or> hdr_compound h)
              then (if int (length r) < hdr_length h then Inl asn1_syntax
                    else Inr (drop (nat (hdr_length h)) r))
              else Inr bs)))"

text \<open>The content of a \<^verbatim>\<open>SEQUENCE\<close>: universal class, tag 16, constructed.\<close>

definition enter_sequence :: "bytes \<Rightarrow> go_error + bytes" where
  "enter_sequence bs =
     (if bs = [] then Inl asn1_syntax
      else
        (case parseTagAndLength bs of
           Inl e \<Rightarrow> Inl e
         | Inr (h, r) \<Rightarrow>
             (if hdr_class h \<noteq> 0 \<or> hdr_tag h \<noteq> 16 \<or> \<not> hdr_compound h then Inl asn1_structural
              else if int (length r) < hdr_length h then Inl asn1_syntax
              else Inr (take (nat (hdr_length h)) r))))"

subsection \<open>A DER encoder, for the statements\<close>

definition der_length :: "nat \<Rightarrow> bytes" where
  "der_length n =
     (if n < 128 then [of_nat n]
      else if n < 256 then [0x81, of_nat n]
      else if n < 65536 then [0x82, of_nat (n div 256), of_nat (n mod 256)]
      else [0x83, of_nat (n div 65536), of_nat (n div 256 mod 256), of_nat (n mod 256)])"

definition der_element :: "byte \<Rightarrow> bytes \<Rightarrow> bytes" where
  "der_element t content = t # der_length (length content) @ content"

subsection \<open>Lemmas\<close>

lemma uint_of_nat_byte [simp]: "n < 256 \<Longrightarrow> uint (of_nat n :: byte) = int n"
  by (simp add: uint_nat unat_of_nat)

lemma parse_length_bytes_2:
  assumes "0 < h" and "h < 256" and "l < 256"
  shows "parse_length_bytes 2 0 (of_nat h # of_nat l # r) = Inr (int (h * 256 + l), r)"
  using assms by (simp add: numeral_2_eq_2)

lemma parse_length_bytes_3:
  assumes "0 < g" and "g < 256" and "h < 256" and "l < 256"
  shows "parse_length_bytes 3 0 (of_nat g # of_nat h # of_nat l # r) = Inr (int ((g * 256 + h) * 256 + l), r)"
  using assms by (simp add: numeral_3_eq_3)

lemma parse_length_der:
  assumes "n < 16777216"
  shows "parse_length (der_length n @ r) = Inr (int n, r)"
proof -
  have m: "n mod 256 < 256" "n div 256 mod 256 < 256" by simp_all
  consider "n < 128" | "128 \<le> n" "n < 256" | "256 \<le> n" "n < 65536" | "65536 \<le> n" by linarith
  then show ?thesis
  proof cases
    case 3
    have "n div 256 < 256" using 3 by (intro less_mult_imp_div_less) simp
    moreover have "0 < n div 256" using 3 by (simp add: div_greater_zero_iff)
    moreover have "n div 256 * 256 + n mod 256 = n" by (rule div_mult_mod_eq)
    ultimately have "parse_length_bytes 2 0 (of_nat (n div 256) # of_nat (n mod 256) # r) = Inr (int n, r)"
      using parse_length_bytes_2 [of "n div 256" "n mod 256" r] m by simp
    then show ?thesis using 3 by (simp add: der_length_def parse_length_def)
  next
    case 4
    have "n div 65536 < 256" using assms by (intro less_mult_imp_div_less) simp
    moreover have "0 < n div 65536" using 4 by (simp add: div_greater_zero_iff)
    moreover have "(n div 65536 * 256 + n div 256 mod 256) * 256 + n mod 256 = n"
      using div_mult_mod_eq [of n 256] div_mult_mod_eq [of "n div 256" 256] by (simp add: div_mult2_eq [symmetric])
    ultimately have "parse_length_bytes 3 0 (of_nat (n div 65536) # of_nat (n div 256 mod 256) # of_nat (n mod 256) # r)
        = Inr (int n, r)"
      using parse_length_bytes_3 [of "n div 65536" "n div 256 mod 256" "n mod 256" r] m by simp
    then show ?thesis using 4 by (simp add: der_length_def parse_length_def)
  qed (simp_all add: der_length_def parse_length_def)
qed

lemma parseTagAndLength_der:
  assumes "uint t mod 32 \<noteq> 31" and "length content < 16777216"
  shows "parseTagAndLength (der_element t content @ r) =
    Inr (\<lparr>hdr_class = nat (uint t div 64), hdr_tag = uint t mod 32,
          hdr_length = int (length content), hdr_compound = (uint t div 32 mod 2 = 1)\<rparr>, content @ r)"
  using assms parse_length_der [OF assms(2), of "content @ r"]
  by (simp add: der_element_def parseTagAndLength_def Let_def)

lemma der_element_not_Nil [simp]: "der_element t c \<noteq> []"
  by (simp add: der_element_def)

lemma parse_raw_value_der:
  assumes "uint t mod 32 \<noteq> 31" and "length content < 16777216"
  shows "\<exists>h. parse_raw_value (der_element t content @ r) = Inr (h, content, r)"
  using parseTagAndLength_der [OF assms, of r] by (simp add: parse_raw_value_def)

lemma enter_sequence_der:
  "length content < 16777216 \<Longrightarrow> enter_sequence (der_element 0x30 content @ r) = Inr content"
  using parseTagAndLength_der [of "0x30" content r] by (simp add: enter_sequence_def)

lemma skip_explicit0_der:
  "length content < 16777216 \<Longrightarrow> content @ r \<noteq> [] \<Longrightarrow>
   skip_explicit0 (der_element 0xA0 content @ r) = Inr r"
  using parseTagAndLength_der [of "0xA0" content r] by (simp add: skip_explicit0_def)

lemma skip_explicit0_absent:
  "length content < 16777216 \<Longrightarrow> content \<noteq> [] \<Longrightarrow>
   skip_explicit0 (der_element 0x02 content @ r) = Inr (der_element 0x02 content @ r)"
  using parseTagAndLength_der [of "0x02" content r] by (simp add: skip_explicit0_def)

end
