(* ===== verification/Storage_Types.thy ===== *)
theory Storage_Types
  imports Go_Json Go_Sha256 Go_Time Go_Asn1
begin

text \<open>
  The data model of \<^verbatim>\<open>storage/types.go\<close>: logs, issuers, serial numbers, expiration dates and
  the identifiers composed of them, with their text encodings. A struct is a record (or a
  datatype with one constructor when it has one field) and a method a function whose first
  argument is the receiver. \<open>Certificate\<close> holds the fields of \<^verbatim>\<open>x509.Certificate\<close> that the
  repository reads: the parser that fills it in is a package outside the repository.

  The lemmas show that each encoding is read back, that \<^verbatim>\<open>Serial.Cmp\<close> is a linear order
  (\<open>Serial\<close> is made an instance of \<open>linorder\<close> by it), that \<^verbatim>\<open>NewSerial\<close> returns the octets
  of the serial number as they stand in the certificate, and what an expiration date covers.
  Times are in UTC, as \<^verbatim>\<open>time.Parse\<close> and the X.509 parser return them.
\<close>

subsection \<open>Logs\<close>

record CertificateLog =
  ShortURL :: string
  MaxEntry :: "64 word"
  LastEntryTime :: time
  LastUpdateTime :: time

definition CertificateLogIDFromShortURL :: "string \<Rightarrow> string" where
  "CertificateLogIDFromShortURL shortURL = b64_EncodeToString (bytes_of_string shortURL)"

definition CertificateLog_ID :: "CertificateLog \<Rightarrow> string" where
  "CertificateLog_ID l = CertificateLogIDFromShortURL (ShortURL l)"

subsection \<open>Certificates, issuers and keys\<close>

record Certificate =
  cert_Raw :: bytes
  RawTBSCertificate :: bytes
  RawSubjectPublicKeyInfo :: bytes
  NotAfter :: time
  cert_Issuer :: string
  cert_Issuer_CommonName :: string
  cert_Subject :: string
  SubjectKeyId :: bytes
  CRLDistributionPoints :: "string list"
  BasicConstraintsValid :: bool
  IsCA :: bool

datatype SPKI = SPKI (spki: bytes)

definition SPKI_ID :: "SPKI \<Rightarrow> string" where
  "SPKI_ID k = b64_EncodeToString (spki k)"

definition SPKI_String :: "SPKI \<Rightarrow> string" where
  "SPKI_String k = hex_EncodeToString (spki k)"

definition Sha256DigestURLEncodedBase64 :: "SPKI \<Rightarrow> string" where
  "Sha256DigestURLEncodedBase64 k =
     (let binaryDigest = sha256_Sum256 (spki k) in b64_EncodeToString binaryDigest)"

record Issuer =
  issuer_id :: "string option"
  issuer_spki :: SPKI

definition NewIssuer :: "Certificate \<Rightarrow> Issuer" where
  "NewIssuer aCert = \<lparr>issuer_id = None, issuer_spki = SPKI (RawSubjectPublicKeyInfo aCert)\<rparr>"

definition NewIssuerFromString :: "string \<Rightarrow> Issuer" where
  "NewIssuerFromString aStr = \<lparr>issuer_id = Some aStr, issuer_spki = SPKI []\<rparr>"

text \<open>\<^verbatim>\<open>ID\<close> keeps the identifier it computes in its receiver: the result and the new receiver.\<close>

definition Issuer_ID_memo :: "Issuer \<Rightarrow> string \<times> Issuer" where
  "Issuer_ID_memo o' =
     (case issuer_id o' of
        None \<Rightarrow> (let encodedDigest = Sha256DigestURLEncodedBase64 (issuer_spki o')
                 in (encodedDigest, o'\<lparr>issuer_id := Some encodedDigest\<rparr>))
      | Some s \<Rightarrow> (s, o'))"

definition Issuer_ID :: "Issuer \<Rightarrow> string" where
  "Issuer_ID o' = fst (Issuer_ID_memo o')"

definition Issuer_MarshalJSON :: "Issuer \<Rightarrow> bytes \<times> Issuer" where
  "Issuer_MarshalJSON o' =
     (let (s, o1) = Issuer_ID_memo o' in (json_Marshal_string s, o1))"

subsection \<open>Serial numbers\<close>

datatype Serial = Serial (serial: bytes)

text \<open>\<^verbatim>\<open>asn1.Unmarshal\<close> into \<^verbatim>\<open>tbsCertWithRawSerial\<close>: the content octets of its \<^verbatim>\<open>SerialNumber\<close>.\<close>

definition tbsCertWithRawSerial :: "bytes \<Rightarrow> go_error + bytes" where
  "tbsCertWithRawSerial raw =
     (case enter_sequence raw of
        Inl e \<Rightarrow> Inl e
      | Inr content \<Rightarrow>
          (case skip_explicit0 content of
             Inl e \<Rightarrow> Inl e
           | Inr r \<Rightarrow>
               (case parse_raw_value r of
                  Inl e \<Rightarrow> Inl e
                | Inr (h, b, r') \<Rightarrow> Inr b)))"

definition NewSerialFromBytes :: "bytes \<Rightarrow> Serial" where
  "NewSerialFromBytes b = Serial b"

definition NewSerial :: "Certificate \<Rightarrow> Serial run" where
  "NewSerial aCert =
     (case tbsCertWithRawSerial (RawTBSCertificate aCert) of
        Inl err \<Rightarrow> Panic (err_text err)
      | Inr b \<Rightarrow> Done (NewSerialFromBytes b))"

definition NewSerialFromHex :: "string \<Rightarrow> Serial run" where
  "NewSerialFromHex s =
     (case hex_DecodeString s of
        (b, Some err) \<Rightarrow> Panic (err_text err)
      | (b, None) \<Rightarrow> Done (Serial b))"

definition NewSerialFromIDString :: "string \<Rightarrow> go_error + Serial" where
  "NewSerialFromIDString s =
     (case b64_DecodeString s of
        Inl err \<Rightarrow> Inl err
      | Inr b \<Rightarrow> Inr (NewSerialFromBytes b))"

definition NewSerialFromBinaryString :: "string \<Rightarrow> go_error + Serial" where
  "NewSerialFromBinaryString s = Inr (NewSerialFromBytes (bytes_of_string s))"

definition Serial_ID :: "Serial \<Rightarrow> string" where
  "Serial_ID s = b64_EncodeToString (serial s)"

definition HexString :: "Serial \<Rightarrow> string" where
  "HexString s = hex_EncodeToString (serial s)"

definition Serial_String :: "Serial \<Rightarrow> string" where
  "Serial_String s = HexString s"

definition BinaryString :: "Serial \<Rightarrow> string" where
  "BinaryString s = string_of_bytes (serial s)"

text \<open>\<^verbatim>\<open>bytes.Compare\<close>.\<close>

fun bytes_Compare :: "bytes \<Rightarrow> bytes \<Rightarrow> int" where
  "bytes_Compare [] [] = 0"
| "bytes_Compare [] (b # bs) = -1"
| "bytes_Compare (a # as) [] = 1"
| "bytes_Compare (a # as) (b # bs) =
     (if a < b then -1 else if b < a then 1 else bytes_Compare as bs)"

definition Serial_Cmp :: "Serial \<Rightarrow> Serial \<Rightarrow> int" where
  "Serial_Cmp s o' = bytes_Compare (serial s) (serial o')"

definition Serial_MarshalJSON :: "Serial \<Rightarrow> bytes" where
  "Serial_MarshalJSON s = json_Marshal_string (HexString s)"

text \<open>
  \<^verbatim>\<open>UnmarshalJSON\<close> stores into its receiver what \<^verbatim>\<open>hex.DecodeString\<close> returned, also with an
  error: the outcome is the new receiver and the error. It panics on an empty slice
  (\<^verbatim>\<open>data[0]\<close>) and on a lone quote (\<^verbatim>\<open>data[1:0]\<close>).
\<close>

definition Serial_UnmarshalJSON :: "Serial \<Rightarrow> bytes \<Rightarrow> (Serial \<times> go_error option) run" where
  "Serial_UnmarshalJSON s data =
     (if data = [] then Panic ''index out of range''
      else if hd data \<noteq> byte_of_char (CHR 0x22) \<or> last data \<noteq> byte_of_char (CHR 0x22)
      then Done (s, Some (Errorf ''Expected surrounding quotes''))
      else if length data - 1 < 1 then Panic ''slice bounds out of range''
      else
        (let (b, err) = hex_DecodeString (string_of_bytes (butlast (tl data)))
         in Done (Serial b, err)))"

definition Serial_MarshalBinary :: "Serial \<Rightarrow> bytes" where
  "Serial_MarshalBinary s = Serial_MarshalJSON s"

definition Serial_UnmarshalBinary :: "Serial \<Rightarrow> bytes \<Rightarrow> (Serial \<times> go_error option) run" where
  "Serial_UnmarshalBinary s data = Serial_UnmarshalJSON s data"

text \<open>\<^verbatim>\<open>big.Int.SetBytes\<close>: the big-endian unsigned value.\<close>

definition AsBigInt :: "Serial \<Rightarrow> int" where
  "AsBigInt s = foldl (\<lambda>n b. n * 256 + uint b) 0 (serial s)"

text \<open>The methods of \<^verbatim>\<open>sort.Interface\<close> panic on an index out of range.\<close>

type_synonym SerialList = "Serial list"

definition in_range :: "'a list \<Rightarrow> nat \<Rightarrow> nat \<Rightarrow> bool" where
  "in_range xs i j \<longleftrightarrow> i < length xs \<and> j < length xs"

definition list_swap :: "'a list \<Rightarrow> nat \<Rightarrow> nat \<Rightarrow> 'a list" where
  "list_swap xs i j = (let tmp = xs ! i; xs1 = xs[i := xs ! j] in xs1[j := tmp])"

definition SerialList_Less :: "SerialList \<Rightarrow> nat \<Rightarrow> nat \<Rightarrow> bool run" where
  "SerialList_Less sl i j =
     (if in_range sl i j then Done (Serial_Cmp (sl ! i) (sl ! j) < 0)
      else Panic ''index out of range'')"

definition SerialList_Swap :: "SerialList \<Rightarrow> nat \<Rightarrow> nat \<Rightarrow> SerialList run" where
  "SerialList_Swap sl i j =
     (if in_range sl i j then Done (list_swap sl i j) else Panic ''index out of range'')"

subsection \<open>Expiration dates\<close>

record ExpDate =
  ed_date :: time
  lastGood :: time
  hourResolution :: bool

definition NewExpDateFromTime :: "time \<Rightarrow> ExpDate" where
  "NewExpDateFromTime t =
     (let truncTime = time_Truncate t Hour
      in \<lparr>ed_date = truncTime, lastGood = truncTime + - 1 * Millisecond, hourResolution = True\<rparr>)"

definition NewExpDate :: "string \<Rightarrow> go_error + ExpDate" where
  "NewExpDate s =
     (let day =
        (case parse_date s of
           Inr t \<Rightarrow>
             (let lg = t + 24 * Hour; lg' = lg + - 1 * Millisecond
              in Inr \<lparr>ed_date = t, lastGood = lg', hourResolution = False\<rparr>)
         | Inl err \<Rightarrow> Inl err)
      in if 10 < length s then
           (case parse_date_hour s of
              Inr t \<Rightarrow>
                (let lg = t + 1 * Hour; lg' = lg + - 1 * Millisecond
                 in Inr \<lparr>ed_date = t, lastGood = lg', hourResolution = True\<rparr>)
            | Inl err \<Rightarrow> day)
         else day)"

definition IsExpiredAt :: "ExpDate \<Rightarrow> time \<Rightarrow> bool" where
  "IsExpiredAt e t \<longleftrightarrow> time_Before (lastGood e) t"

definition ExpireTime :: "ExpDate \<Rightarrow> time" where
  "ExpireTime e = ed_date e"

definition ExpDate_ID :: "ExpDate \<Rightarrow> string" where
  "ExpDate_ID e =
     (if hourResolution e then format_date_hour (ed_date e) else format_date (ed_date e))"

definition ExpDate_String :: "ExpDate \<Rightarrow> string" where
  "ExpDate_String e = ExpDate_ID e"

type_synonym ExpDateList = "ExpDate list"

definition ExpDateList_Less :: "ExpDateList \<Rightarrow> nat \<Rightarrow> nat \<Rightarrow> bool run" where
  "ExpDateList_Less sl i j =
     (if in_range sl i j then Done (time_Before (ed_date (sl ! i)) (ed_date (sl ! j)))
      else Panic ''index out of range'')"

definition ExpDateList_Swap :: "ExpDateList \<Rightarrow> nat \<Rightarrow> nat \<Rightarrow> ExpDateList run" where
  "ExpDateList_Swap sl i j =
     (if in_range sl i j then Done (list_swap sl i j) else Panic ''index out of range'')"

subsection \<open>Composed identifiers\<close>

record UniqueCertIdentifier =
  uci_ExpDate :: ExpDate
  uci_Issuer :: Issuer
  SerialNum :: Serial

definition ParseUniqueCertIdentifier :: "string \<Rightarrow> go_error + UniqueCertIdentifier" where
  "ParseUniqueCertIdentifier s =
     (let parts = strings_Split s ''::''
      in if length parts \<noteq> 3
         then Inl (Errorf (''Expected 3 parts, got '' @ show_nat (length parts)))
         else
           (case NewExpDate (parts ! 0) of
              Inl err \<Rightarrow> Inl err
            | Inr e \<Rightarrow>
                (let i = NewIssuerFromString (parts ! 1)
                 in case NewSerialFromIDString (parts ! 2) of
                      Inl err \<Rightarrow> Inl err
                    | Inr n \<Rightarrow> Inr \<lparr>uci_ExpDate = e, uci_Issuer = i, SerialNum = n\<rparr>)))"

definition UniqueCertIdentifier_String :: "UniqueCertIdentifier \<Rightarrow> string" where
  "UniqueCertIdentifier_String uci =
     ExpDate_ID (uci_ExpDate uci) @ ''::'' @ Issuer_ID (uci_Issuer uci) @ ''::''
       @ Serial_ID (SerialNum uci)"

record IssuerAndDate =
  iad_ExpDate :: ExpDate
  iad_Issuer :: Issuer

definition ParseIssuerAndDate :: "string \<Rightarrow> go_error + IssuerAndDate" where
  "ParseIssuerAndDate s =
     (let parts = strings_Split s ''/''
      in if length parts \<noteq> 2
         then Inl (Errorf (''Unexpected number of parts: '' @ show_nat (length parts)
                           @ '' from '' @ s))
         else
           (case NewExpDate (parts ! 0) of
              Inl err \<Rightarrow> Inl err
            | Inr expDate \<Rightarrow>
                Inr \<lparr>iad_ExpDate = expDate, iad_Issuer = NewIssuerFromString (parts ! 1)\<rparr>))"

definition IssuerAndDate_String :: "IssuerAndDate \<Rightarrow> string" where
  "IssuerAndDate_String t = ExpDate_ID (iad_ExpDate t) @ ''/'' @ Issuer_ID (iad_Issuer t)"

record IssuerDate =
  idt_Issuer :: Issuer
  ExpDates :: "ExpDate list"

subsection \<open>Lemmas: issuers\<close>

lemma Issuer_ID_simps [simp, codec_simps]:
  "Issuer_ID (NewIssuerFromString s) = s"
  "Issuer_ID (NewIssuer c) = Sha256DigestURLEncodedBase64 (SPKI (RawSubjectPublicKeyInfo c))"
  by (simp_all add: Issuer_ID_def Issuer_ID_memo_def NewIssuerFromString_def NewIssuer_def Let_def)

lemma Issuer_ID_memo_stable:
  "Issuer_ID_memo (snd (Issuer_ID_memo i)) = Issuer_ID_memo i"
  by (simp add: Issuer_ID_memo_def Let_def split: option.split)

lemma Sha256Digest_shape:
  "length (Sha256DigestURLEncodedBase64 k) = 44"
  "CHR '':'' \<notin> set (Sha256DigestURLEncodedBase64 k)"
  "CHR ''/'' \<notin> set (Sha256DigestURLEncodedBase64 k)"
  by (simp_all add: Sha256DigestURLEncodedBase64_def Let_def length_b64_EncodeToString
      length_sha256_Sum256 b64_no_separator)

subsection \<open>Lemmas: the order of serial numbers\<close>

lemma bytes_Compare_lex:
  "bytes_Compare a b = (if a = b then 0 else if a < b then -1 else 1)"
  by (induction a b rule: bytes_Compare.induct) auto

lemma Serial_Cmp_lex:
  "Serial_Cmp s t = (if s = t then 0 else if serial s < serial t then -1 else 1)"
  by (cases s; cases t) (simp add: Serial_Cmp_def bytes_Compare_lex)

instantiation Serial :: linorder
begin

definition less_eq_Serial :: "Serial \<Rightarrow> Serial \<Rightarrow> bool" where
  "less_eq_Serial s t \<longleftrightarrow> Serial_Cmp s t \<le> 0"

definition less_Serial :: "Serial \<Rightarrow> Serial \<Rightarrow> bool" where
  "less_Serial s t \<longleftrightarrow> Serial_Cmp s t < 0"

instance
proof
  fix x y z :: Serial
  show "(x < y) = (x \<le> y \<and> \<not> y \<le> x)"
    by (auto simp: less_eq_Serial_def less_Serial_def Serial_Cmp_lex Serial.expand)
  show "x \<le> x" by (simp add: less_eq_Serial_def Serial_Cmp_lex)
  show "x \<le> y \<Longrightarrow> y \<le> z \<Longrightarrow> x \<le> z"
    by (auto simp: less_eq_Serial_def Serial_Cmp_lex split: if_splits)
  show "x \<le> y \<Longrightarrow> y \<le> x \<Longrightarrow> x = y"
    by (auto simp: less_eq_Serial_def Serial_Cmp_lex split: if_splits)
  show "x \<le> y \<or> y \<le> x"
    by (auto simp: less_eq_Serial_def Serial_Cmp_lex Serial.expand)
qed

end

lemma Serial_order_simps:
  "s < t \<longleftrightarrow> serial s < serial t" "s \<le> t \<longleftrightarrow> serial s \<le> serial t" for s t :: Serial
  by (auto simp: less_Serial_def less_eq_Serial_def Serial_Cmp_lex Serial.expand)

subsection \<open>Lemmas: encodings of serial numbers\<close>

lemma serial_codecs [simp, codec_simps]:
  "NewSerialFromHex (HexString s) = Done s"
  "NewSerialFromIDString (Serial_ID s) = Inr s"
  "NewSerialFromBinaryString (BinaryString s) = Inr s"
  by (simp_all add: NewSerialFromHex_def HexString_def NewSerialFromIDString_def Serial_ID_def
      NewSerialFromBinaryString_def BinaryString_def NewSerialFromBytes_def)

lemma serial_json [simp, codec_simps]:
  "Serial_UnmarshalJSON s0 (Serial_MarshalJSON s) = Done (s, None)"
  by (simp add: Serial_UnmarshalJSON_def Serial_MarshalJSON_def HexString_def bytes_of_string_def
      string_of_bytes_def comp_def)

lemma tbsCertWithRawSerial_v3:
  assumes "length ver < 16777216" and "length sn < 16777216" and "ver \<noteq> []"
    and "length (der_element 0xA0 ver @ der_element 0x02 sn @ rest) < 16777216"
  shows "tbsCertWithRawSerial
      (der_element 0x30 (der_element 0xA0 ver @ der_element 0x02 sn @ rest) @ trailing) = Inr sn"
proof -
  obtain h where "parse_raw_value (der_element 0x02 sn @ rest) = Inr (h, sn, rest)"
    using parse_raw_value_der [of "0x02" sn rest] assms(2) by auto
  then show ?thesis
    using assms by (simp add: tbsCertWithRawSerial_def enter_sequence_der skip_explicit0_der)
qed

lemma tbsCertWithRawSerial_v1:
  assumes "length sn < 16777216" and "sn \<noteq> []" and "length (der_element 0x02 sn @ rest) < 16777216"
  shows "tbsCertWithRawSerial (der_element 0x30 (der_element 0x02 sn @ rest) @ trailing) = Inr sn"
proof -
  obtain h where "parse_raw_value (der_element 0x02 sn @ rest) = Inr (h, sn, rest)"
    using parse_raw_value_der [of "0x02" sn rest] assms(1) by auto
  then show ?thesis
    using assms by (simp add: tbsCertWithRawSerial_def enter_sequence_der skip_explicit0_absent)
qed

subsection \<open>Lemmas: expiration dates\<close>

text \<open>The dates the constructors make: aligned, within the years that print with four digits.\<close>

definition wf_ExpDate :: "ExpDate \<Rightarrow> bool" where
  "wf_ExpDate e \<longleftrightarrow> four_digit_year (ed_date e) \<and>
     (if hourResolution e then ed_date e mod Hour = 0 else ed_date e mod Day = 0)"

definition resolution :: "ExpDate \<Rightarrow> duration" where
  "resolution e = (if hourResolution e then Hour else Day)"

lemma ExpDate_ID_lastGood [simp]: "ExpDate_ID (e\<lparr>lastGood := g\<rparr>) = ExpDate_ID e"
  by (simp add: ExpDate_ID_def)

lemma format_date_shape:
  assumes "four_digit_year t"
  obtains y m d where "format_date t = digits4 y @ ''-'' @ digits2 m @ ''-'' @ digits2 d"
    and "y < 10000" "m < 100" "d < 100"
proof -
  obtain y m d where ymd: "date_of_day (t div Day) = (y, m, d)" by (metis prod_cases3)
  have "0 \<le> y" "y < 10000" using assms ymd by (simp_all add: four_digit_year_def time_Year_def)
  with valid_date_bounds [OF date_of_day_sound(2) [OF ymd]]
  have "format_date t = digits4 (nat y) @ ''-'' @ digits2 (nat m) @ ''-'' @ digits2 (nat d)"
    "nat y < 10000" "nat m < 100" "nat d < 100"
    by (simp_all add: format_date_def ymd appendInt_digits nat_less_iff)
  then show ?thesis by (rule that)
qed

lemma hour_text: "appendInt (t mod Day div Hour) 2 = digits2 (nat (t mod Day div Hour))"
  "nat (t mod Day div Hour) < 100"
  using mod_Day_Hour(1,2) [of t] by (simp_all add: appendInt_digits nat_less_iff)

lemma digit_no_separator:
  assumes "k < 10"
  shows "digit_char k \<noteq> CHR '':''" and "digit_char k \<noteq> CHR ''/''"
proof -
  have "is_digit (digit_char k)" using assms by simp
  moreover have "\<not> is_digit (CHR '':'')" "\<not> is_digit (CHR ''/'')" by code_simp+
  ultimately show "digit_char k \<noteq> CHR '':''" "digit_char k \<noteq> CHR ''/''" by metis+
qed

lemma digits_no_separator:
  "n < 100 \<Longrightarrow> CHR '':'' \<notin> set (digits2 n)" "n < 100 \<Longrightarrow> CHR ''/'' \<notin> set (digits2 n)"
  "n < 10000 \<Longrightarrow> CHR '':'' \<notin> set (digits4 n)" "n < 10000 \<Longrightarrow> CHR ''/'' \<notin> set (digits4 n)"
  by (simp_all add: digits2_def digits4_def digit_no_separator [symmetric]
      less_mult_imp_div_less)

lemma ExpDate_ID_shape:
  assumes "wf_ExpDate e"
  shows "CHR '':'' \<notin> set (ExpDate_ID e)" and "CHR ''/'' \<notin> set (ExpDate_ID e)"
    and "length (ExpDate_ID e) = (if hourResolution e then 13 else 10)"
proof -
  have "four_digit_year (ed_date e)" using assms by (simp add: wf_ExpDate_def)
  then obtain y m d where f: "format_date (ed_date e) = digits4 y @ ''-'' @ digits2 m @ ''-'' @ digits2 d"
    "y < 10000" "m < 100" "d < 100" by (rule format_date_shape)
  note h = hour_text [of "ed_date e"]
  show "CHR '':'' \<notin> set (ExpDate_ID e)" "CHR ''/'' \<notin> set (ExpDate_ID e)"
    "length (ExpDate_ID e) = (if hourResolution e then 13 else 10)"
    using f h by (auto simp: ExpDate_ID_def format_date_hour_def digits_no_separator)
qed

lemma NewExpDate_ID:
  assumes "wf_ExpDate e"
  shows "NewExpDate (ExpDate_ID e) = Inr (e\<lparr>lastGood := ed_date e + resolution e - Millisecond\<rparr>)"
proof -
  have f: "four_digit_year (ed_date e)" using assms by (simp add: wf_ExpDate_def)
  have D: "Day = 24 * Hour" by (simp add: Day_def Hour_def)
  show ?thesis
    using assms ExpDate_ID_shape(3) [OF assms] parse_date_format [OF f] parse_date_hour_format [OF f]
    by (cases "hourResolution e")
      (simp_all add: NewExpDate_def ExpDate_ID_def wf_ExpDate_def resolution_def Let_def D
        del: mult_1)
qed

lemma NewExpDate_cases:
  assumes "NewExpDate s = Inr e"
  obtains (hour) "parse_date_hour s = Inr (ed_date e)" "hourResolution e"
      "lastGood e = ed_date e + Hour - Millisecond"
    | (day) "parse_date s = Inr (ed_date e)" "\<not> hourResolution e"
      "lastGood e = ed_date e + Day - Millisecond"
proof -
  have "Day = 24 * Hour" by (simp add: Day_def Hour_def)
  with assms that show ?thesis
    by (auto simp: NewExpDate_def Let_def split: if_splits sum.splits)
qed

lemma NewExpDate_wf:
  assumes "NewExpDate s = Inr e"
  shows "wf_ExpDate e" and "lastGood e = ed_date e + resolution e - Millisecond"
  using assms
  by (cases rule: NewExpDate_cases;
      simp add: wf_ExpDate_def resolution_def parse_date_hour_instant parse_date_year
        format_parse_date)+

lemma NewExpDate_text:
  assumes "NewExpDate s = Inr e" and "length s \<noteq> 12"
  shows "ExpDate_ID e = s"
  using assms(1)
proof (cases rule: NewExpDate_cases)
  case hour
  then have "length s = 13" using parse_date_hour_instant(3) [OF hour(1)] assms(2) by simp
  with hour show ?thesis by (simp add: ExpDate_ID_def format_parse_date_hour)
next
  case day
  then show ?thesis by (simp add: ExpDate_ID_def format_parse_date)
qed

lemma time_Truncate_Hour: "time_Truncate t Hour = t - t mod Hour"
  by (simp add: time_Truncate_def Hour_def)

lemma truncate_Hour_year:
  assumes "four_digit_year t"
  shows "four_digit_year (t - t mod Hour)"
proof -
  note h = mod_Day_Hour [of t]
  have "0 \<le> t mod Day div Hour * Hour" "t mod Day div Hour * Hour < Day"
    using h(1,2) by (simp_all add: Hour_def Day_def)
  then have "(t - t mod Hour) div Day = t div Day"
    unfolding h(3) [symmetric] by (intro int_div_pos_eq [where r = "t mod Day div Hour * Hour"])
      (auto simp: mult.commute)
  with assms show ?thesis by (simp add: four_digit_year_def time_Year_def)
qed

lemma wf_NewExpDateFromTime [intro]: "four_digit_year t \<Longrightarrow> wf_ExpDate (NewExpDateFromTime t)"
  by (simp add: wf_ExpDate_def NewExpDateFromTime_def time_Truncate_Hour truncate_Hour_year Let_def
      mod_diff_eq)

lemma NewExpDateFromTime_simps [simp]:
  "ed_date (NewExpDateFromTime t) = t - t mod Hour"
  "hourResolution (NewExpDateFromTime t)"
  "lastGood (NewExpDateFromTime t) = t - t mod Hour - Millisecond"
  by (simp_all add: NewExpDateFromTime_def time_Truncate_Hour Let_def)

subsection \<open>Properties\<close>

text \<open>
  C18. Every text form of a serial number is read back: hexadecimal, base64, the binary string,
  JSON and the binary marshalling (whatever the receiver held before).
\<close>

theorem serial_round_trip:
  "NewSerialFromHex (HexString s) = Done s \<and>
   NewSerialFromIDString (Serial_ID s) = Inr s \<and>
   NewSerialFromBinaryString (BinaryString s) = Inr s \<and>
   Serial_UnmarshalJSON s0 (Serial_MarshalJSON s) = Done (s, None) \<and>
   Serial_UnmarshalBinary s0 (Serial_MarshalBinary s) = Done (s, None)"
  by (simp add: Serial_UnmarshalBinary_def Serial_MarshalBinary_def)

text \<open>
  C19. \<^verbatim>\<open>NewSerial\<close> on a DER certificate body of version 2 or 3 returns the content octets of the
  serial number unchanged (leading zeros and sign octet included), whatever follows in the
  sequence and after it; so it never panics on such a body.
\<close>

theorem new_serial_keeps_octets:
  assumes "RawTBSCertificate c =
      der_element 0x30 (der_element 0xA0 ver @ der_element 0x02 sn @ rest) @ trailing"
    and "ver \<noteq> []" and "length (der_element 0xA0 ver @ der_element 0x02 sn @ rest) < 16777216"
  shows "NewSerial c = Done (Serial sn)"
proof -
  have "length ver < 16777216" "length sn < 16777216"
    using assms(3) by (auto simp: der_element_def)
  then show ?thesis
    using assms tbsCertWithRawSerial_v3 [of ver sn rest trailing]
    by (simp add: NewSerial_def NewSerialFromBytes_def)
qed

definition sample_cert :: "bytes \<Rightarrow> Certificate" where
  "sample_cert tbs = \<lparr>cert_Raw = [], RawTBSCertificate = tbs, RawSubjectPublicKeyInfo = [1, 2, 3],
     NotAfter = 0, cert_Issuer = [], cert_Issuer_CommonName = [], cert_Subject = [],
     SubjectKeyId = [], CRLDistributionPoints = [], BasicConstraintsValid = True, IsCA = True\<rparr>"

theorem new_serial_keeps_octets_witness:
  "NewSerial (sample_cert [0x30, 0x0B, 0xA0, 3, 2, 1, 2, 2, 2, 0, 0xA5, 5, 0]) = Done (Serial [0, 0xA5])"
proof -
  have "RawTBSCertificate (sample_cert [0x30, 0x0B, 0xA0, 3, 2, 1, 2, 2, 2, 0, 0xA5, 5, 0])
      = der_element 0x30 (der_element 0xA0 [2, 1, 2] @ der_element 0x02 [0, 0xA5] @ [5, 0]) @ []"
    by (simp add: sample_cert_def der_element_def der_length_def)
  then show ?thesis
    by (rule new_serial_keeps_octets) (simp_all add: der_element_def der_length_def)
qed

text \<open>
  C17. The string of a certificate identifier, as it is queued and streamed, parses back to an
  identifier of the same serial number, issuer and date, and prints as the same string again.
  The issuer identifier must not contain a colon, which holds of every base64 digest.
\<close>

theorem unique_cert_identifier_round_trip:
  assumes "wf_ExpDate (uci_ExpDate u)" and "CHR '':'' \<notin> set (Issuer_ID (uci_Issuer u))"
  shows "\<exists>v. ParseUniqueCertIdentifier (UniqueCertIdentifier_String u) = Inr v \<and>
    SerialNum v = SerialNum u \<and> Issuer_ID (uci_Issuer v) = Issuer_ID (uci_Issuer u) \<and>
    ExpireTime (uci_ExpDate v) = ExpireTime (uci_ExpDate u) \<and>
    UniqueCertIdentifier_String v = UniqueCertIdentifier_String u"
proof -
  have "strings_Split (UniqueCertIdentifier_String u) ''::'' =
      [ExpDate_ID (uci_ExpDate u), Issuer_ID (uci_Issuer u), Serial_ID (SerialNum u)]"
    using assms ExpDate_ID_shape(1) [OF assms(1)] split_simps [of "''::''", simplified]
      b64_no_separator(1) [of "serial (SerialNum u)"]
    by (simp add: UniqueCertIdentifier_String_def Serial_ID_def)
  then have "ParseUniqueCertIdentifier (UniqueCertIdentifier_String u) =
      Inr \<lparr>uci_ExpDate = uci_ExpDate u\<lparr>lastGood := ed_date (uci_ExpDate u) + resolution (uci_ExpDate u) - Millisecond\<rparr>,
        uci_Issuer = NewIssuerFromString (Issuer_ID (uci_Issuer u)), SerialNum = SerialNum u\<rparr>"
    by (simp add: ParseUniqueCertIdentifier_def NewExpDate_ID [OF assms(1)] Let_def)
  then show ?thesis by (simp add: ExpireTime_def UniqueCertIdentifier_String_def)
qed

theorem unique_cert_identifier_round_trip_witness:
  "\<exists>v. ParseUniqueCertIdentifier (UniqueCertIdentifier_String
      \<lparr>uci_ExpDate = NewExpDateFromTime 63700000000000000000, uci_Issuer = NewIssuer (sample_cert []),
       SerialNum = Serial [7]\<rparr>) = Inr v \<and> SerialNum v = Serial [7]"
proof -
  have "four_digit_year 63700000000000000000" by code_simp
  then show ?thesis
    using unique_cert_identifier_round_trip [of
      "\<lparr>uci_ExpDate = NewExpDateFromTime 63700000000000000000,
        uci_Issuer = NewIssuer (sample_cert []), SerialNum = Serial [7]\<rparr>"]
    by (auto simp: Sha256Digest_shape wf_NewExpDateFromTime)
qed

text \<open>
  The string of an issuer and date (the suffix of the cache keys and the form in the
  configuration of the consumers) parses back to the same issuer and date.
\<close>

theorem issuer_and_date_round_trip:
  assumes "wf_ExpDate (iad_ExpDate t)" and "CHR ''/'' \<notin> set (Issuer_ID (iad_Issuer t))"
  shows "\<exists>v. ParseIssuerAndDate (IssuerAndDate_String t) = Inr v \<and>
    Issuer_ID (iad_Issuer v) = Issuer_ID (iad_Issuer t) \<and>
    ExpireTime (iad_ExpDate v) = ExpireTime (iad_ExpDate t) \<and>
    IssuerAndDate_String v = IssuerAndDate_String t"
proof -
  have "strings_Split (IssuerAndDate_String t) ''/'' =
      [ExpDate_ID (iad_ExpDate t), Issuer_ID (iad_Issuer t)]"
    using assms ExpDate_ID_shape(2) [OF assms(1)] split_simps [of "''/''", simplified]
    by (simp add: IssuerAndDate_String_def)
  then have "ParseIssuerAndDate (IssuerAndDate_String t) =
      Inr \<lparr>iad_ExpDate = iad_ExpDate t\<lparr>lastGood := ed_date (iad_ExpDate t) + resolution (iad_ExpDate t) - Millisecond\<rparr>,
        iad_Issuer = NewIssuerFromString (Issuer_ID (iad_Issuer t))\<rparr>"
    by (simp add: ParseIssuerAndDate_def NewExpDate_ID [OF assms(1)] Let_def)
  then show ?thesis by (simp add: ExpireTime_def IssuerAndDate_String_def)
qed

theorem issuer_and_date_round_trip_witness:
  "\<exists>v. ParseIssuerAndDate (IssuerAndDate_String
      \<lparr>iad_ExpDate = NewExpDateFromTime 63700000000000000000, iad_Issuer = NewIssuerFromString ''ca''\<rparr>)
      = Inr v \<and> Issuer_ID (iad_Issuer v) = ''ca''"
proof -
  have "four_digit_year 63700000000000000000" by code_simp
  then show ?thesis
    using issuer_and_date_round_trip [of
      "\<lparr>iad_ExpDate = NewExpDateFromTime 63700000000000000000,
        iad_Issuer = NewIssuerFromString ''ca''\<rparr>"]
    by (auto simp: wf_NewExpDateFromTime)
qed

text \<open>
  A text that \<^verbatim>\<open>NewExpDate\<close> accepts gives an aligned date whose last good instant is one
  millisecond before the end of its day or hour, and the identifier of that date is the text
  itself unless its hour was written with one digit (12 characters); \<^verbatim>\<open>NewExpDate\<close> accepts
  that identifier and returns the same date.
\<close>

theorem exp_date_parse_print:
  assumes "NewExpDate s = Inr e"
  shows "lastGood e = ed_date e + resolution e - Millisecond \<and> ed_date e mod resolution e = 0 \<and>
    (length s = 12 \<or> ExpDate_ID e = s) \<and> NewExpDate (ExpDate_ID e) = Inr e"
proof -
  note w = NewExpDate_wf [OF assms]
  have "e\<lparr>lastGood := lastGood e\<rparr> = e" by simp
  then have "NewExpDate (ExpDate_ID e) = Inr e" using NewExpDate_ID [OF w(1)] w(2) by simp
  then show ?thesis
    using w NewExpDate_text [OF assms] by (auto simp: wf_ExpDate_def resolution_def)
qed

theorem exp_date_parse_print_witness:
  "\<exists>e. NewExpDate ''2021-03-04-5'' = Inr e \<and> NewExpDate (ExpDate_ID e) = Inr e \<and>
     ExpDate_ID e = ''2021-03-04-05''"
proof -
  obtain e where e: "NewExpDate ''2021-03-04-5'' = Inr e" and i: "ExpDate_ID e = ''2021-03-04-05''"
  proof (cases "NewExpDate ''2021-03-04-5''")
    case (Inl err)
    moreover have "case NewExpDate ''2021-03-04-5'' of Inl _ \<Rightarrow> False | Inr _ \<Rightarrow> True" by code_simp
    ultimately show ?thesis by simp
  next
    case (Inr e)
    moreover have "case NewExpDate ''2021-03-04-5'' of Inl _ \<Rightarrow> False
        | Inr e \<Rightarrow> ExpDate_ID e = ''2021-03-04-05''" by code_simp
    ultimately show ?thesis using that by simp
  qed
  from exp_date_parse_print [OF e] e i show ?thesis by blast
qed

text \<open>
  The last good instant of a date made from a time and that of the date read back from its
  identifier are one hour apart: from the instant \<^verbatim>\<open>NotAfter\<close> truncated to the hour on, the
  first counts as expired and the second does not for the rest of that hour.
\<close>

theorem exp_date_reparse_expires_later:
  assumes "four_digit_year t"
  shows "\<exists>e. NewExpDate (ExpDate_ID (NewExpDateFromTime t)) = Inr e \<and>
    (\<forall>u. IsExpiredAt (NewExpDateFromTime t) u \<longleftrightarrow> t - t mod Hour - Millisecond < u) \<and>
    (\<forall>u. IsExpiredAt e u \<longleftrightarrow> IsExpiredAt (NewExpDateFromTime t) (u - Hour)) \<and>
    IsExpiredAt (NewExpDateFromTime t) t \<and> ExpireTime e = ExpireTime (NewExpDateFromTime t)"
proof -
  have "0 \<le> t mod Hour" by (simp add: Hour_def)
  moreover have "0 < Millisecond" by (simp add: Millisecond_def)
  ultimately show ?thesis
    using NewExpDate_ID [OF wf_NewExpDateFromTime [OF assms]]
    by (auto simp: IsExpiredAt_def time_Before_def resolution_def ExpireTime_def)
qed

theorem exp_date_reparse_expires_later_witness:
  "\<exists>e. NewExpDate (ExpDate_ID (NewExpDateFromTime 63700000000000000000)) = Inr e \<and>
    IsExpiredAt (NewExpDateFromTime 63700000000000000000) 63700000000000000000 \<and>
    \<not> IsExpiredAt e 63700000000000000000"
proof -
  have "four_digit_year 63700000000000000000" by code_simp
  from exp_date_reparse_expires_later [OF this]
  obtain e where e: "NewExpDate (ExpDate_ID (NewExpDateFromTime 63700000000000000000)) = Inr e"
    and "IsExpiredAt (NewExpDateFromTime 63700000000000000000) 63700000000000000000"
    and u: "\<forall>u. IsExpiredAt e u \<longleftrightarrow> IsExpiredAt (NewExpDateFromTime 63700000000000000000) (u - Hour)"
    by blast
  moreover have "\<not> IsExpiredAt (NewExpDateFromTime 63700000000000000000) (63700000000000000000 - Hour)"
    by code_simp
  ultimately show ?thesis by blast
qed

text \<open>
  \<^verbatim>\<open>Serial.UnmarshalJSON\<close> panics exactly on an empty slice and on a slice holding one quote;
  on any other input that is not surrounded by quotes it returns an error and leaves its
  receiver unchanged.
\<close>

theorem serial_unmarshal_outcomes:
  "((\<exists>m. Serial_UnmarshalJSON s data = Panic m) \<longleftrightarrow> data = [] \<or> data = [0x22]) \<and>
   (data \<noteq> [] \<and> (hd data \<noteq> 0x22 \<or> last data \<noteq> 0x22) \<longrightarrow>
     Serial_UnmarshalJSON s data = Done (s, Some (Errorf ''Expected surrounding quotes'')))"
proof -
  have q: "byte_of_char (CHR 0x22) = 0x22" by code_simp
  show ?thesis
    by (cases data) (auto simp: Serial_UnmarshalJSON_def q split: prod.split)
qed

theorem serial_unmarshal_outcomes_witness:
  "Serial_UnmarshalJSON (Serial [1]) [0x61, 0x62] =
     Done (Serial [1], Some (Errorf ''Expected surrounding quotes''))"
  using serial_unmarshal_outcomes [of "Serial [1]" "[0x61, 0x62]"] by simp

text \<open>The order of octet strings: at the first octet that differs, or the shorter one if there is none.\<close>

definition octets_before :: "bytes \<Rightarrow> bytes \<Rightarrow> bool" where
  "octets_before xs ys \<longleftrightarrow>
     (\<exists>p x y xs' ys'. xs = p @ x # xs' \<and> ys = p @ y # ys' \<and> uint x < uint y) \<or> (\<exists>y ys'. ys = xs @ y # ys')"

lemma octets_before_less: "octets_before xs ys \<longleftrightarrow> xs < ys"
  unfolding octets_before_def list_less_def lexord_def by (auto simp: word_less_def) blast+

definition big_endian :: "bytes \<Rightarrow> int" where
  "big_endian xs = foldl (\<lambda>n b. n * 256 + uint b) 0 xs"

lemma big_endian_Cons: "big_endian (x # xs) = uint x * 256 ^ length xs + big_endian xs"
proof -
  have "foldl (\<lambda>n b. n * 256 + uint b) n xs = n * 256 ^ length xs + foldl (\<lambda>n b. n * 256 + uint b) 0 xs" for n
  proof (induction xs arbitrary: n)
    case (Cons x xs)
    show ?case using Cons [of "n * 256 + uint x"] Cons [of "uint x"] by (simp add: algebra_simps)
  qed simp
  from this [of "uint x"] show ?thesis by (simp add: big_endian_def)
qed

lemma leading_digit:
  fixes a b m v w :: int
  assumes "v < m" and "0 \<le> w" and "a < b" and "0 \<le> m"
  shows "a * m + v < b * m + w"
proof -
  have "(a + 1) * m \<le> b * m" using assms(3,4) by (intro mult_right_mono) simp_all
  then show ?thesis using assms(1,2) by (simp add: algebra_simps)
qed

lemma big_endian_bound: "0 \<le> big_endian xs \<and> big_endian xs < 256 ^ length xs"
proof (induction xs)
  case (Cons x xs)
  have "uint x < 256" using uint_lt2p [of x] by simp
  from leading_digit [OF _ order_refl this, of "big_endian xs" "256 ^ length xs"] Cons show ?case
    by (simp add: big_endian_Cons)
qed (simp add: big_endian_def)

lemma big_endian_less: "length xs = length ys \<Longrightarrow> big_endian xs < big_endian ys \<longleftrightarrow> xs < ys"
proof (induction xs ys rule: list_induct2)
  case (Cons x xs y ys)
  have lt: "uint a * 256 ^ length xs + big_endian as < uint b * 256 ^ length xs + big_endian bs"
    if "uint a < uint b" "length as = length xs" for a b :: "8 word" and as bs :: bytes
    using big_endian_bound [of as] big_endian_bound [of bs] that by (intro leading_digit) simp_all
  consider "uint x < uint y" | "uint y < uint x" | "x = y" by (metis linorder_less_linear word_uint_eq_iff)
  then show ?case
  proof cases
    case 1
    from lt [OF 1 refl, of ys] have "big_endian (x # xs) < big_endian (y # ys)" by (simp add: big_endian_Cons Cons.hyps)
    then show ?thesis using 1 by (simp add: word_less_def)
  next
    case 2
    from lt [OF 2, of ys xs] have "big_endian (y # ys) < big_endian (x # xs)" by (simp add: big_endian_Cons Cons.hyps)
    then show ?thesis using 2 by (auto simp: word_less_def)
  next
    case 3
    then show ?thesis using Cons by (simp add: big_endian_Cons)
  qed
qed simp

text \<open>
  C20. \<^verbatim>\<open>Serial.Cmp\<close> compares the octets of two serial numbers: it is -1 when the first comes before the second
  (at the first octet that differs the smaller, read without a sign, or else the shorter), 0 when
  they are the same, 1 otherwise. \<^verbatim>\<open>SerialList.Less\<close> tells for every pair of indices in range whether
  the one comes before the other, and panics on any other. For serial numbers of the same number of
  octets this is the order of the integers that \<^verbatim>\<open>AsBigInt\<close> gives.
\<close>

theorem serial_cmp_order:
  "Serial_Cmp a b = (if octets_before (serial a) (serial b) then -1 else if a = b then 0 else 1) \<and>
   SerialList_Less sl i j =
     (if i < length sl \<and> j < length sl then Done (octets_before (serial (sl ! i)) (serial (sl ! j)))
      else Panic ''index out of range'') \<and>
   (length (serial a) = length (serial b) \<longrightarrow> (Serial_Cmp a b < 0 \<longleftrightarrow> AsBigInt a < AsBigInt b))"
  using big_endian_less [of "serial a" "serial b"]
  by (auto simp: Serial_Cmp_lex SerialList_Less_def in_range_def octets_before_less AsBigInt_def Serial.expand
      simp flip: big_endian_def)

theorem serial_cmp_order_witness:
  "Serial_Cmp (Serial [0, 0xA5]) (Serial [1, 0]) = -1 \<and> AsBigInt (Serial [0, 0xA5]) < AsBigInt (Serial [1, 0])"
  using serial_cmp_order [of "Serial [0, 0xA5]" "Serial [1, 0]" "[]" 0 0]
  by (simp add: Serial_Cmp_def)

end
