(* ===== verification/Remote_Cache.thy ===== *)
theory Remote_Cache
  imports Storage_Types
begin

text \<open>
  The interface \<^verbatim>\<open>RemoteCache\<close> of \<^verbatim>\<open>storage/types.go\<close> as a record of operations on a state
  \<open>'c\<close>, and the contract its clients rely on as the locale \<open>set_cache\<close>.

  An operation takes its arguments, the current time (what \<^verbatim>\<open>time.Now()\<close> returns while it
  runs) and the state, and gives its result and the new state, or the end of the process. A
  result \<^verbatim>\<open>(T, error)\<close> is a pair, since some callers use the value next to an error. The
  operations that send on a channel and close it give the list of what they sent, in order.

  The contract speaks of \<open>members\<close>, the elements of the set at a key, and of \<open>alive\<close>, that
  the key has not expired at a time. It holds for the mock (\<open>Mock_Cache\<close>) and for Redis
  behind a client that keeps the documented behaviour of the commands (\<open>Redis_Cache\<close>). An
  insertion that returns an error may or may not have reached the server.
\<close>

type_synonym ('c, 'a) cache_op = "time \<Rightarrow> 'c \<Rightarrow> ('a \<times> 'c) run"

record 'c RemoteCache =
  rc_Exists :: "string \<Rightarrow> ('c, bool res) cache_op"
  rc_SetInsert :: "string \<Rightarrow> string \<Rightarrow> ('c, bool res) cache_op"
  rc_SetRemove :: "string \<Rightarrow> string \<Rightarrow> ('c, bool res) cache_op"
  rc_SetContains :: "string \<Rightarrow> string \<Rightarrow> ('c, bool res) cache_op"
  rc_SetList :: "string \<Rightarrow> ('c, string list res) cache_op"
  rc_SetToChan :: "string \<Rightarrow> ('c, string list res) cache_op"
  rc_SetCardinality :: "string \<Rightarrow> ('c, int res) cache_op"
  rc_ExpireAt :: "string \<Rightarrow> time \<Rightarrow> ('c, go_error option) cache_op"
  rc_ExpireIn :: "string \<Rightarrow> duration \<Rightarrow> ('c, go_error option) cache_op"
  rc_Queue :: "string \<Rightarrow> string \<Rightarrow> ('c, int res) cache_op"
  rc_Pop :: "string \<Rightarrow> ('c, string res) cache_op"
  rc_QueueLength :: "string \<Rightarrow> ('c, int res) cache_op"
  rc_BlockingPopCopy :: "string \<Rightarrow> string \<Rightarrow> duration \<Rightarrow> ('c, string res) cache_op"
  rc_ListRemove :: "string \<Rightarrow> string \<Rightarrow> ('c, go_error option) cache_op"
  rc_TrySet :: "string \<Rightarrow> string \<Rightarrow> duration \<Rightarrow> ('c, string res) cache_op"
  rc_KeysToChan :: "string \<Rightarrow> ('c, string list res) cache_op"
  rc_StoreLogState :: "CertificateLog \<Rightarrow> ('c, go_error option) cache_op"
  rc_LoadLogState :: "string \<Rightarrow> ('c, CertificateLog option res) cache_op"

locale set_cache =
  fixes rc :: "'c RemoteCache"
    and inv :: "'c \<Rightarrow> bool"
    and members :: "'c \<Rightarrow> string \<Rightarrow> string set"
    and alive :: "time \<Rightarrow> 'c \<Rightarrow> string \<Rightarrow> bool"
  assumes finite_members: "inv c \<Longrightarrow> finite (members c k)"
    and insert_inv: "inv c \<Longrightarrow> rc_SetInsert rc k e now c = Done (r, c') \<Longrightarrow> inv c'"
    and insert_result:
      "inv c \<Longrightarrow> alive now c k \<Longrightarrow> rc_SetInsert rc k e now c = Done ((b, None), c') \<Longrightarrow>
       b = (e \<notin> members c k) \<and> members c' k = insert e (members c k)"
    and insert_error:
      "inv c \<Longrightarrow> alive now c k \<Longrightarrow> rc_SetInsert rc k e now c = Done ((b, Some err), c') \<Longrightarrow>
       members c' k = members c k \<or> members c' k = insert e (members c k)"
    and insert_frame:
      "inv c \<Longrightarrow> rc_SetInsert rc k e now c = Done (r, c') \<Longrightarrow> k' \<noteq> k \<Longrightarrow>
       members c' k' = members c k'"
    and insert_alive:
      "inv c \<Longrightarrow> rc_SetInsert rc k e now c = Done (r, c') \<Longrightarrow> alive u c k' \<Longrightarrow> alive u c' k'"
    and expire_at:
      "inv c \<Longrightarrow> rc_ExpireAt rc k t now c = Done (er, c') \<Longrightarrow> now < t \<Longrightarrow>
       inv c' \<and> members c' = members c \<and> (\<forall>u < t. alive u c k \<longrightarrow> alive u c' k)"
    and expire_at_frame:
      "inv c \<Longrightarrow> rc_ExpireAt rc k t now c = Done (er, c') \<Longrightarrow> k' \<noteq> k \<Longrightarrow>
       alive u c k' \<Longrightarrow> alive u c' k'"
    and contains_result:
      "inv c \<Longrightarrow> alive now c k \<Longrightarrow> rc_SetContains rc k e now c = Done ((b, None), c') \<Longrightarrow>
       b = (e \<in> members c k)"
    and list_result:
      "inv c \<Longrightarrow> alive now c k \<Longrightarrow> rc_SetList rc k now c = Done ((xs, None), c') \<Longrightarrow>
       set xs = members c k"
    and to_chan_result:
      "inv c \<Longrightarrow> alive now c k \<Longrightarrow> rc_SetToChan rc k now c = Done ((xs, None), c') \<Longrightarrow>
       set xs = members c k"
    and cardinality_result:
      "inv c \<Longrightarrow> alive now c k \<Longrightarrow> rc_SetCardinality rc k now c = Done ((n, None), c') \<Longrightarrow>
       n = int (card (members c k))"
begin

lemma insert_mono:
  assumes "inv c" "alive now c k" "rc_SetInsert rc k e now c = Done (r, c')"
  shows "members c k' \<subseteq> members c' k'"
  using assms insert_result insert_error insert_frame [OF assms(1,3), of k']
  by (cases "k' = k"; cases r; cases "snd r") (simp_all, blast+)

lemma insert_then_contains:
  assumes "inv c" "alive now c k" "rc_SetInsert rc k e now c = Done ((b, None), c')"
    and "alive u c' k" "rc_SetContains rc k e' u c' = Done ((b', None), c'')"
  shows "b' = (e' = e \<or> e' \<in> members c k)"
  using insert_result [OF assms(1-3)] contains_result [OF insert_inv [OF assms(1,3)] assms(4,5)]
  by auto

lemma insert_again:
  assumes "inv c" "alive now c k" "rc_SetInsert rc k e now c = Done ((b, None), c')"
    and "alive u c' k" "rc_SetInsert rc k e u c' = Done ((b', None), c'')"
  shows "b' = False \<and> members c'' k = members c' k"
  using insert_result [OF assms(1-3)] insert_result [OF insert_inv [OF assms(1,3)] assms(4,5)]
  by auto

end

text \<open>
  What the programs that only read rely on: at a time \<open>now\<close>, listing or streaming a set without an
  error returns what is live in it, and neither changes what is live anywhere.
\<close>

locale reading_cache =
  fixes rc :: "'c RemoteCache"
    and inv :: "'c \<Rightarrow> bool"
    and live :: "'c \<Rightarrow> string \<Rightarrow> string set"
    and now :: time
  assumes list_reads: "inv c \<Longrightarrow> rc_SetList rc k now c = Done ((xs, None), c') \<Longrightarrow>
      set xs = live c k \<and> inv c' \<and> live c' = live c"
    and chan_reads: "inv c \<Longrightarrow> rc_SetToChan rc k now c = Done ((xs, None), c') \<Longrightarrow>
      set xs = live c k \<and> inv c' \<and> live c' = live c"

end
