(* ===== verification/Mock_Cache.thy ===== *)
theory Mock_Cache
  imports Remote_Cache
begin

text \<open>
  \<^verbatim>\<open>storage/mockcache.go\<close>: the in-memory \<^verbatim>\<open>RemoteCache\<close>, a map from keys to sorted slices of
  strings and a map of expiration times. Each method is one definition, from the binary
  search with \<^verbatim>\<open>sort.Search\<close> to the insertion by \<^verbatim>\<open>append\<close> and \<^verbatim>\<open>copy\<close>; \<open>MockRemoteCache_ops\<close>
  is the mock as an implementation of the interface.

  The invariant \<open>mock_inv\<close> (distinct keys, no empty slice, slices strictly sorted) is kept by
  every method, the insertion refines the insertion into a set, and the interpretation
  \<open>mock\<close> discharges the contract \<open>set_cache\<close>. \<^verbatim>\<open>SetRemove\<close> is shown not to remove anything.

  The methods \<^verbatim>\<open>json.Marshal\<close> and \<^verbatim>\<open>json.Unmarshal\<close> on a \<^verbatim>\<open>CertificateLog\<close> are the argument
  \<open>js\<close> of the two methods that use them.
\<close>

record json_codec =
  js_Marshal :: "CertificateLog \<Rightarrow> go_error + bytes"
  js_Unmarshal :: "bytes \<Rightarrow> go_error + CertificateLog"

record MockRemoteCache =
  Data :: "(string \<times> string list) list"
  Expirations :: "(string \<times> time) list"
  Duplicate :: int

definition NewMockRemoteCache :: MockRemoteCache where
  "NewMockRemoteCache = \<lparr>Data = [], Expirations = [], Duplicate = 0\<rparr>"

text \<open>Reading a map at an absent key gives the zero value, here the nil slice.\<close>

definition data_at :: "MockRemoteCache \<Rightarrow> string \<Rightarrow> string list" where
  "data_at ec key = (case map_of (Data ec) key of None \<Rightarrow> [] | Some xs \<Rightarrow> xs)"

definition CleanupExpiry :: "time \<Rightarrow> MockRemoteCache \<Rightarrow> MockRemoteCache" where
  "CleanupExpiry now ec =
     fold (\<lambda>(key, timestamp) ec.
         if time_Before timestamp now
         then ec\<lparr>Data := AList.delete key (Data ec),
                Expirations := AList.delete key (Expirations ec)\<rparr>
         else ec)
       (Expirations ec) ec"

text \<open>The binary search and the comparison three of the methods start with.\<close>

definition search_idx :: "string list \<Rightarrow> string \<Rightarrow> nat" where
  "search_idx xs entry = sort_Search (length xs) (\<lambda>i. strings_Compare entry (xs ! i) \<le> 0)"

definition found_at :: "string list \<Rightarrow> string \<Rightarrow> nat \<Rightarrow> bool" where
  "found_at xs entry idx =
     (let count = length xs;
          cmp = (if idx < count then strings_Compare entry (xs ! idx) else 0)
      in idx < count \<and> cmp = 0)"

definition Mock_SetInsert ::
  "string \<Rightarrow> string \<Rightarrow> MockRemoteCache \<Rightarrow> bool res \<times> MockRemoteCache" where
  "Mock_SetInsert key entry ec =
     (let xs = data_at ec key; idx = search_idx xs entry
      in if found_at xs entry idx then ((False, None), ec)
         else ((True, None),
               ec\<lparr>Data := AList.update key (slice_insert idx [] entry xs) (Data ec)\<rparr>))"

definition Mock_SetRemove ::
  "string \<Rightarrow> string \<Rightarrow> time \<Rightarrow> MockRemoteCache \<Rightarrow> bool res \<times> MockRemoteCache" where
  "Mock_SetRemove key entry now ec0 =
     (let ec = CleanupExpiry now ec0; xs = data_at ec key; idx = search_idx xs entry
      in if found_at xs entry idx
         then ((True, None),
               ec\<lparr>Data := AList.update key (take idx xs @ drop idx xs) (Data ec)\<rparr>)
         else ((False, None), ec))"

definition Mock_SetContains ::
  "string \<Rightarrow> string \<Rightarrow> time \<Rightarrow> MockRemoteCache \<Rightarrow> bool res \<times> MockRemoteCache" where
  "Mock_SetContains key entry now ec0 =
     (let ec = CleanupExpiry now ec0; xs = data_at ec key; idx = search_idx xs entry
      in if found_at xs entry idx then ((True, None), ec) else ((False, None), ec))"

definition Mock_SetList ::
  "string \<Rightarrow> time \<Rightarrow> MockRemoteCache \<Rightarrow> string list res \<times> MockRemoteCache" where
  "Mock_SetList key now ec0 =
     (let ec = CleanupExpiry now ec0 in ((data_at ec key, None), ec))"

text \<open>The slice is sent \<^verbatim>\<open>Duplicate + 1\<close> times.\<close>

definition Mock_SetToChan ::
  "string \<Rightarrow> time \<Rightarrow> MockRemoteCache \<Rightarrow> string list res \<times> MockRemoteCache" where
  "Mock_SetToChan key now ec0 =
     (let ec = CleanupExpiry now ec0
      in ((concat (replicate (nat (Duplicate ec + 1)) (data_at ec key)), None), ec))"

definition Mock_SetCardinality :: "string \<Rightarrow> MockRemoteCache \<Rightarrow> int res \<times> MockRemoteCache" where
  "Mock_SetCardinality key ec = ((int (length (data_at ec key)), None), ec)"

definition Mock_Exists ::
  "string \<Rightarrow> time \<Rightarrow> MockRemoteCache \<Rightarrow> bool res \<times> MockRemoteCache" where
  "Mock_Exists key now ec0 =
     (let ec = CleanupExpiry now ec0 in ((map_of (Data ec) key \<noteq> None, None), ec))"

definition Mock_ExpireAt ::
  "string \<Rightarrow> time \<Rightarrow> MockRemoteCache \<Rightarrow> go_error option \<times> MockRemoteCache" where
  "Mock_ExpireAt key expTime ec =
     (None, ec\<lparr>Expirations := AList.update key expTime (Expirations ec)\<rparr>)"

definition Mock_ExpireIn ::
  "string \<Rightarrow> duration \<Rightarrow> time \<Rightarrow> MockRemoteCache \<Rightarrow> go_error option \<times> MockRemoteCache" where
  "Mock_ExpireIn key dur now ec =
     (None, ec\<lparr>Expirations := AList.update key (now + dur) (Expirations ec)\<rparr>)"

definition Mock_Queue :: "string \<Rightarrow> string \<Rightarrow> MockRemoteCache \<Rightarrow> int res \<times> MockRemoteCache" where
  "Mock_Queue key identifier ec = ((0, Some (Errorf ''Queue unimplemented'')), ec)"

definition Mock_Pop :: "string \<Rightarrow> MockRemoteCache \<Rightarrow> string res \<times> MockRemoteCache" where
  "Mock_Pop key ec = (([], Some (Errorf ''Pop unimplemented'')), ec)"

definition Mock_QueueLength :: "string \<Rightarrow> MockRemoteCache \<Rightarrow> int res \<times> MockRemoteCache" where
  "Mock_QueueLength key ec = ((0, Some (Errorf ''QueueLength unimplemented'')), ec)"

text \<open>
  \<^verbatim>\<open>filepath.Match\<close> for the patterns of literal characters and \<^verbatim>\<open>*\<close>, which the code uses: a
  star matches any run of characters without a slash.
\<close>

fun filepath_Match :: "string \<Rightarrow> string \<Rightarrow> bool" where
  "filepath_Match [] name \<longleftrightarrow> name = []"
| "filepath_Match (p # ps) [] \<longleftrightarrow> p = CHR ''*'' \<and> filepath_Match ps []"
| "filepath_Match (p # ps) (c # cs) \<longleftrightarrow>
     (if p = CHR ''*''
      then filepath_Match ps (c # cs) \<or> (c \<noteq> CHR ''/'' \<and> filepath_Match (p # ps) cs)
      else p = c \<and> filepath_Match ps cs)"

definition Mock_KeysToChan ::
  "string \<Rightarrow> MockRemoteCache \<Rightarrow> string list res \<times> MockRemoteCache" where
  "Mock_KeysToChan pat ec = ((filter (filepath_Match pat) (map fst (Data ec)), None), ec)"

definition Mock_TrySet ::
  "string \<Rightarrow> string \<Rightarrow> duration \<Rightarrow> time \<Rightarrow> MockRemoteCache \<Rightarrow> (string res \<times> MockRemoteCache) run" where
  "Mock_TrySet key v life now ec =
     (case map_of (Data ec) key of
        Some [] \<Rightarrow> Panic ''index out of range''
      | Some (x # xs) \<Rightarrow> Done ((x, None), ec)
      | None \<Rightarrow>
          (let ec1 = ec\<lparr>Data := AList.update key [v] (Data ec)\<rparr>;
               (err, ec2) = Mock_ExpireAt key (now + life) ec1
           in Done ((v, err), ec2)))"

definition Mock_BlockingPopCopy ::
  "string \<Rightarrow> string \<Rightarrow> duration \<Rightarrow> MockRemoteCache \<Rightarrow> string res \<times> MockRemoteCache" where
  "Mock_BlockingPopCopy key dest timeout ec =
     (case Mock_Pop key ec of
        ((v, Some err), ec1) \<Rightarrow> (([], Some err), ec1)
      | ((v, None), ec1) \<Rightarrow>
          (case Mock_Queue dest v ec1 of
             ((n, Some err), ec2) \<Rightarrow> (([], Some err), ec2)
           | ((n, None), ec2) \<Rightarrow> ((v, None), ec2)))"

definition Mock_ListRemove ::
  "string \<Rightarrow> string \<Rightarrow> time \<Rightarrow> MockRemoteCache \<Rightarrow> go_error option \<times> MockRemoteCache" where
  "Mock_ListRemove key val now ec =
     (let ((b, err), ec1) = Mock_SetRemove key val now ec in (err, ec1))"

definition Mock_StoreLogState ::
  "json_codec \<Rightarrow> CertificateLog \<Rightarrow> MockRemoteCache \<Rightarrow> go_error option \<times> MockRemoteCache" where
  "Mock_StoreLogState js log ec =
     (case js_Marshal js log of
        Inl err \<Rightarrow> (Some err, ec)
      | Inr encoded \<Rightarrow>
          (None, ec\<lparr>Data := AList.update (ShortURL log) [string_of_bytes encoded] (Data ec)\<rparr>))"

definition Mock_LoadLogState ::
  "json_codec \<Rightarrow> string \<Rightarrow> MockRemoteCache \<Rightarrow> CertificateLog option res \<times> MockRemoteCache" where
  "Mock_LoadLogState js shortUrl ec =
     (case map_of (Data ec) shortUrl of
        None \<Rightarrow> ((None, Some (Errorf ''Log state not found'')), ec)
      | Some data \<Rightarrow>
          (if length data \<noteq> 1
           then ((None, Some (Errorf ''Unexpected number of log states'')), ec)
           else
             (case js_Unmarshal js (bytes_of_string (data ! 0)) of
                Inl err \<Rightarrow> ((None, Some err), ec)
              | Inr log \<Rightarrow> ((Some log, None), ec))))"

definition MockRemoteCache_ops :: "json_codec \<Rightarrow> MockRemoteCache RemoteCache" where
  "MockRemoteCache_ops js =
     \<lparr>rc_Exists = \<lambda>k now c. Done (Mock_Exists k now c),
      rc_SetInsert = \<lambda>k e now c. Done (Mock_SetInsert k e c),
      rc_SetRemove = \<lambda>k e now c. Done (Mock_SetRemove k e now c),
      rc_SetContains = \<lambda>k e now c. Done (Mock_SetContains k e now c),
      rc_SetList = \<lambda>k now c. Done (Mock_SetList k now c),
      rc_SetToChan = \<lambda>k now c. Done (Mock_SetToChan k now c),
      rc_SetCardinality = \<lambda>k now c. Done (Mock_SetCardinality k c),
      rc_ExpireAt = \<lambda>k t now c. Done (Mock_ExpireAt k t c),
      rc_ExpireIn = \<lambda>k d now c. Done (Mock_ExpireIn k d now c),
      rc_Queue = \<lambda>k i now c. Done (Mock_Queue k i c),
      rc_Pop = \<lambda>k now c. Done (Mock_Pop k c),
      rc_QueueLength = \<lambda>k now c. Done (Mock_QueueLength k c),
      rc_BlockingPopCopy = \<lambda>k d t now c. Done (Mock_BlockingPopCopy k d t c),
      rc_ListRemove = \<lambda>k v now c. Done (Mock_ListRemove k v now c),
      rc_TrySet = \<lambda>k v life now c. Mock_TrySet k v life now c,
      rc_KeysToChan = \<lambda>pat now c. Done (Mock_KeysToChan pat c),
      rc_StoreLogState = \<lambda>l now c. Done (Mock_StoreLogState js l c),
      rc_LoadLogState = \<lambda>u now c. Done (Mock_LoadLogState js u c)\<rparr>"

lemma mock_ops_simps:
  "rc_SetInsert (MockRemoteCache_ops js) k e now c = Done (Mock_SetInsert k e c)"
  "rc_ExpireAt (MockRemoteCache_ops js) k t now c = Done (Mock_ExpireAt k t c)"
  "rc_SetToChan (MockRemoteCache_ops js) k now c = Done (Mock_SetToChan k now c)"
  "rc_SetList (MockRemoteCache_ops js) k now c = Done (Mock_SetList k now c)"
  "rc_KeysToChan (MockRemoteCache_ops js) pat now c = Done (Mock_KeysToChan pat c)"
  "rc_StoreLogState (MockRemoteCache_ops js) l now c = Done (Mock_StoreLogState js l c)"
  "rc_LoadLogState (MockRemoteCache_ops js) u now c = Done (Mock_LoadLogState js u c)"
  by (simp_all add: MockRemoteCache_ops_def)

subsection \<open>The invariant and the abstraction to sets\<close>

definition mock_inv :: "MockRemoteCache \<Rightarrow> bool" where
  "mock_inv ec \<longleftrightarrow> wf_map (Data ec) \<and> wf_map (Expirations ec) \<and> 0 \<le> Duplicate ec \<and>
     (\<forall>xs \<in> snd ` set (Data ec). xs \<noteq> [] \<and> sorted_wrt (<) xs)"

definition mock_members :: "MockRemoteCache \<Rightarrow> string \<Rightarrow> string set" where
  "mock_members ec key = set (data_at ec key)"

definition mock_alive :: "time \<Rightarrow> MockRemoteCache \<Rightarrow> string \<Rightarrow> bool" where
  "mock_alive now ec key =
     (case map_of (Expirations ec) key of None \<Rightarrow> True | Some t \<Rightarrow> \<not> time_Before t now)"

subsection \<open>Lemmas\<close>

lemma data_at_update [simp]:
  "data_at (ec\<lparr>Data := AList.update k xs (Data ec)\<rparr>) k' = (if k' = k then xs else data_at ec k')"
  by (simp add: data_at_def)

lemma data_at_sorted: "mock_inv ec \<Longrightarrow> sorted_wrt (<) (data_at ec k)"
  by (auto simp: mock_inv_def data_at_def split: option.split dest: map_of_SomeD)

lemma mock_inv_update:
  assumes "mock_inv ec" and "xs \<noteq> []" and "sorted_wrt (<) xs"
  shows "mock_inv (ec\<lparr>Data := AList.update k xs (Data ec)\<rparr>)"
proof -
  have "wf_map (Data ec)" using assms(1) by (simp add: mock_inv_def)
  with assms show ?thesis
    by (auto simp: mock_inv_def set_update_wf)
qed

text \<open>Binary search in a strictly sorted slice finds the element or its place.\<close>

lemma search_idx_cuts:
  assumes "sorted_wrt (<) xs"
  shows "cuts_at (length xs) (\<lambda>i. e \<le> xs ! i) (search_idx xs e)"
proof -
  have "e \<le> xs ! y" if "e \<le> xs ! x" "x \<le> y" "y < length xs" for x y
    using that sorted_wrt_nth_less [OF assms, of x y] by (cases "x = y") auto
  then show ?thesis unfolding search_idx_def by (simp add: sort_Search_cuts)
qed

lemma found_at_iff:
  assumes "sorted_wrt (<) xs"
  shows "found_at xs e (search_idx xs e) \<longleftrightarrow> e \<in> set xs"
proof -
  note c = search_idx_cuts [OF assms, of e, unfolded cuts_at_def]
  have "xs ! search_idx xs e = e" "search_idx xs e < length xs" if "i < length xs" "xs ! i = e" for i
  proof -
    have *: "search_idx xs e \<le> i" using c that by (metis leI order_refl)
    then show "search_idx xs e < length xs" using that by simp
    then have "e \<le> xs ! search_idx xs e" using c by simp
    then show "xs ! search_idx xs e = e"
      using sorted_wrt_nth_less [OF assms, of "search_idx xs e" i] that *
      by (cases "search_idx xs e = i") auto
  qed
  then show ?thesis
    by (auto simp: found_at_def Let_def in_set_conv_nth)
qed

lemma sorted_insert_at_cut:
  assumes "sorted_wrt (<) xs" and "e \<notin> set xs"
  shows "sorted_wrt (<) (take (search_idx xs e) xs @ e # drop (search_idx xs e) xs)"
proof -
  let ?i = "search_idx xs e"
  note c = search_idx_cuts [OF assms(1), of e, unfolded cuts_at_def]
  have low: "x < e" if "x \<in> set (take ?i xs)" for x
    using that c by (auto simp: in_set_conv_nth not_le)
  have high: "e < x" if x: "x \<in> set (drop ?i xs)" for x
  proof -
    obtain j where "j < length xs - ?i" "x = xs ! (?i + j)"
      using x by (auto simp: in_set_conv_nth)
    then have "e \<le> x" "x \<in> set xs" using c by auto
    with assms(2) show ?thesis by (metis order_less_le)
  qed
  have "sorted_wrt (<) (take ?i xs @ drop ?i xs)" using assms(1) by simp
  then show ?thesis
    using low high by (auto simp: sorted_wrt_append intro: less_trans)
qed

lemma search_idx_le: "sorted_wrt (<) xs \<Longrightarrow> search_idx xs e \<le> length xs"
  using search_idx_cuts [of xs e] by (simp add: cuts_at_def)

lemma Mock_SetInsert_known:
  "mock_inv ec \<Longrightarrow> e \<in> mock_members ec k \<Longrightarrow> Mock_SetInsert k e ec = ((False, None), ec)"
  by (simp add: Mock_SetInsert_def Let_def mock_members_def found_at_iff data_at_sorted)

lemma Mock_SetInsert_new:
  assumes "mock_inv ec" and "e \<notin> mock_members ec k"
  obtains ec' where "Mock_SetInsert k e ec = ((True, None), ec')" "mock_inv ec'"
    "mock_members ec' = (mock_members ec)(k := insert e (mock_members ec k))"
    "Expirations ec' = Expirations ec" "Duplicate ec' = Duplicate ec"
    "keys (Data ec') = insert k (keys (Data ec))"
proof -
  let ?xs = "data_at ec k"
  define i where "i = search_idx ?xs e"
  let ?ys = "take i ?xs @ e # drop i ?xs"
  note s = data_at_sorted [OF assms(1), of k]
  have "Mock_SetInsert k e ec =
      ((True, None), ec\<lparr>Data := AList.update k ?ys (Data ec)\<rparr>)"
    using assms s search_idx_le [OF s, of e]
    by (simp add: Mock_SetInsert_def Let_def mock_members_def found_at_iff slice_insert_eq i_def)
  moreover have "sorted_wrt (<) ?ys"
    unfolding i_def using assms(2) s by (simp add: sorted_insert_at_cut mock_members_def)
  then have "mock_inv (ec\<lparr>Data := AList.update k ?ys (Data ec)\<rparr>)"
    using assms(1) by (simp add: mock_inv_update)
  moreover have "set ?ys = insert e (set ?xs)"
    using set_append [of "take i ?xs" "drop i ?xs"] by auto
  then have "mock_members (ec\<lparr>Data := AList.update k ?ys (Data ec)\<rparr>)
      = (mock_members ec)(k := insert e (mock_members ec k))"
    by (auto simp: mock_members_def fun_eq_iff)
  ultimately show ?thesis using that by simp
qed

text \<open>What the clean-up leaves: the entries of the keys that are alive.\<close>

definition drop_dead :: "time \<Rightarrow> string \<times> time \<Rightarrow> MockRemoteCache \<Rightarrow> MockRemoteCache" where
  "drop_dead now = (\<lambda>(key, timestamp) ec.
     if time_Before timestamp now
     then ec\<lparr>Data := AList.delete key (Data ec), Expirations := AList.delete key (Expirations ec)\<rparr>
     else ec)"

lemma CleanupExpiry_fold: "CleanupExpiry now ec = fold (drop_dead now) (Expirations ec) ec"
  by (simp add: CleanupExpiry_def drop_dead_def)

lemma drop_dead_at:
  "map_of (Data (drop_dead now y ec)) k =
     (if k = fst y \<and> time_Before (snd y) now then None else map_of (Data ec) k)"
  "map_of (Expirations (drop_dead now y ec)) k =
     (if k = fst y \<and> time_Before (snd y) now then None else map_of (Expirations ec) k)"
  "Duplicate (drop_dead now y ec) = Duplicate ec"
  by (cases y; simp add: drop_dead_def)+

lemma fold_drop_dead:
  fixes now :: time and ys :: "(string \<times> time) list"
  defines "dead k \<equiv> \<exists>t. (k, t) \<in> set ys \<and> time_Before t now"
  shows "map_of (Data (fold (drop_dead now) ys ec)) k = (if dead k then None else map_of (Data ec) k)"
    and "map_of (Expirations (fold (drop_dead now) ys ec)) k =
      (if dead k then None else map_of (Expirations ec) k)"
    and "Duplicate (fold (drop_dead now) ys ec) = Duplicate ec"
  unfolding dead_def
  by (induction ys arbitrary: ec) (auto simp: drop_dead_at)

lemma fold_drop_dead_inv:
  "mock_inv ec \<Longrightarrow> mock_inv (fold (drop_dead now) ys ec)"
proof (induction ys arbitrary: ec)
  case (Cons y ys)
  have "mock_inv (drop_dead now y ec)"
    using Cons.prems set_delete_subset [of "fst y" "Data ec"]
    by (fastforce simp: drop_dead_def mock_inv_def split: prod.split)
  with Cons.IH show ?case by simp
qed simp

lemma CleanupExpiry_inv [inv_intros, simp]: "mock_inv ec \<Longrightarrow> mock_inv (CleanupExpiry now ec)"
  by (simp add: CleanupExpiry_fold fold_drop_dead_inv)

lemma mock_alive_iff:
  "wf_map (Expirations ec) \<Longrightarrow>
   mock_alive now ec k \<longleftrightarrow> \<not> (\<exists>t. (k, t) \<in> set (Expirations ec) \<and> time_Before t now)"
  by (auto simp: mock_alive_def map_of_eq_None_iff image_iff split: option.splits
      dest: map_of_SomeD eq_key_imp_eq_value)

lemma CleanupExpiry_at:
  assumes "mock_inv ec"
  shows "map_of (Data (CleanupExpiry now ec)) k =
      (if mock_alive now ec k then map_of (Data ec) k else None)"
    and "map_of (Expirations (CleanupExpiry now ec)) k =
      (if mock_alive now ec k then map_of (Expirations ec) k else None)"
    and "Duplicate (CleanupExpiry now ec) = Duplicate ec"
  using assms fold_drop_dead [of now "Expirations ec" ec]
  by (auto simp: CleanupExpiry_fold mock_inv_def mock_alive_iff)

lemma data_at_CleanupExpiry:
  "mock_inv ec \<Longrightarrow>
   data_at (CleanupExpiry now ec) k = (if mock_alive now ec k then data_at ec k else [])"
  by (simp add: data_at_def CleanupExpiry_at)

subsection \<open>The mock keeps the contract\<close>

lemma Mock_SetContains_result:
  "mock_inv ec \<Longrightarrow>
   Mock_SetContains k e now ec =
     ((mock_alive now ec k \<and> e \<in> mock_members ec k, None), CleanupExpiry now ec)"
  by (simp add: Mock_SetContains_def Let_def found_at_iff data_at_sorted data_at_CleanupExpiry
      mock_members_def)

lemma Mock_SetToChan_set:
  assumes "mock_inv ec" and "Mock_SetToChan k now ec = ((xs, r), ec')"
  shows "set xs = (if mock_alive now ec k then mock_members ec k else {})"
proof -
  have "0 \<le> Duplicate (CleanupExpiry now ec)"
    using assms(1) by (simp add: CleanupExpiry_at mock_inv_def)
  with assms show ?thesis
    by (auto simp: Mock_SetToChan_def Let_def data_at_CleanupExpiry mock_members_def)
qed

lemma Mock_SetInsert_cases:
  assumes "mock_inv ec" and "Mock_SetInsert k e ec = (r, ec')"
  shows "r = (e \<notin> mock_members ec k, None)" and "mock_inv ec'"
    and "mock_members ec' = (mock_members ec)(k := insert e (mock_members ec k))"
    and "Expirations ec' = Expirations ec"
proof -
  consider "e \<in> mock_members ec k" | "e \<notin> mock_members ec k" by blast
  then have "r = (e \<notin> mock_members ec k, None) \<and> mock_inv ec' \<and>
    mock_members ec' = (mock_members ec)(k := insert e (mock_members ec k)) \<and>
    Expirations ec' = Expirations ec"
  proof cases
    case 1
    with assms show ?thesis
      by (auto simp: Mock_SetInsert_known insert_absorb)
  next
    case 2
    from Mock_SetInsert_new [OF assms(1) 2] assms(2) 2 show ?thesis by auto
  qed
  then show "r = (e \<notin> mock_members ec k, None)" "mock_inv ec'"
    "mock_members ec' = (mock_members ec)(k := insert e (mock_members ec k))"
    "Expirations ec' = Expirations ec" by blast+
qed

interpretation mock: set_cache "MockRemoteCache_ops js" mock_inv mock_members mock_alive
proof unfold_locales
  fix c k e now r c' b err u k'
  assume inv: "mock_inv c"
  show "finite (mock_members c k)" by (simp add: mock_members_def)
  { assume "rc_SetInsert (MockRemoteCache_ops js) k e now c = Done (r, c')"
    then have i: "Mock_SetInsert k e c = (r, c')" by (simp add: MockRemoteCache_ops_def)
    note i' = Mock_SetInsert_cases [OF inv i]
    show "mock_inv c'" by (rule i'(2))
    show "k' \<noteq> k \<Longrightarrow> mock_members c' k' = mock_members c k'" using i' by simp
    show "mock_alive u c k' \<Longrightarrow> mock_alive u c' k'" using i' by (simp add: mock_alive_def) }
  { assume "rc_SetInsert (MockRemoteCache_ops js) k e now c = Done ((b, None), c')"
    then have "Mock_SetInsert k e c = ((b, None), c')" by (simp add: MockRemoteCache_ops_def)
    from Mock_SetInsert_cases [OF inv this]
    show "b = (e \<notin> mock_members c k) \<and> mock_members c' k = insert e (mock_members c k)" by simp }
  { assume "rc_SetInsert (MockRemoteCache_ops js) k e now c = Done ((b, Some err), c')"
    then have "Mock_SetInsert k e c = ((b, Some err), c')" by (simp add: MockRemoteCache_ops_def)
    from Mock_SetInsert_cases(1) [OF inv this]
    show "mock_members c' k = mock_members c k \<or> mock_members c' k = insert e (mock_members c k)"
      by simp }
next
  fix c k e now b c' and xs :: "string list" and n er t u k'
  assume inv: "mock_inv c"
  show "b = (e \<in> mock_members c k)" if "mock_alive now c k"
    "rc_SetContains (MockRemoteCache_ops js) k e now c = Done ((b, None), c')"
    using that inv by (simp add: MockRemoteCache_ops_def Mock_SetContains_result)
  show "set xs = mock_members c k" if "mock_alive now c k"
    "rc_SetList (MockRemoteCache_ops js) k now c = Done ((xs, None), c')"
    using that inv
    by (auto simp: MockRemoteCache_ops_def Mock_SetList_def Let_def data_at_CleanupExpiry
        mock_members_def)
  show "set xs = mock_members c k" if "mock_alive now c k"
    "rc_SetToChan (MockRemoteCache_ops js) k now c = Done ((xs, None), c')"
    using that Mock_SetToChan_set [OF inv] by (auto simp: MockRemoteCache_ops_def)
  show "n = int (card (mock_members c k))"
    if "rc_SetCardinality (MockRemoteCache_ops js) k now c = Done ((n, None), c')"
  proof -
    have "distinct (data_at c k)"
      using data_at_sorted [OF inv, of k] by (simp add: strict_sorted_iff)
    then show ?thesis
      using that by (auto simp: MockRemoteCache_ops_def Mock_SetCardinality_def mock_members_def
          distinct_card)
  qed
  assume "rc_ExpireAt (MockRemoteCache_ops js) k t now c = Done (er, c')"
  then have c': "c' = c\<lparr>Expirations := AList.update k t (Expirations c)\<rparr>"
    by (simp add: MockRemoteCache_ops_def Mock_ExpireAt_def)
  show "mock_inv c' \<and> mock_members c' = mock_members c \<and> (\<forall>u<t. mock_alive u c k \<longrightarrow> mock_alive u c' k)"
    using inv
    by (auto simp: c' mock_inv_def mock_members_def data_at_def mock_alive_def time_Before_def)
  show "k' \<noteq> k \<Longrightarrow> mock_alive u c k' \<Longrightarrow> mock_alive u c' k'"
    by (simp add: c' mock_alive_def)
qed

definition mock_live :: "time \<Rightarrow> MockRemoteCache \<Rightarrow> string \<Rightarrow> string set" where
  "mock_live now ec k = (if mock_alive now ec k then mock_members ec k else {})"

lemma mock_live_cleanup:
  assumes "mock_inv ec"
  shows "set (data_at (CleanupExpiry now ec) k) = mock_live now ec k"
    and "mock_live now (CleanupExpiry now ec) = mock_live now ec"
proof -
  show m: "set (data_at (CleanupExpiry now ec) k) = mock_live now ec k" for k
    using assms by (simp add: data_at_CleanupExpiry mock_live_def mock_members_def)
  show "mock_live now (CleanupExpiry now ec) = mock_live now ec"
    using m by (auto simp: mock_live_def [of _ "CleanupExpiry now ec"] mock_members_def fun_eq_iff
        mock_alive_def CleanupExpiry_at(2) [OF assms] split: option.splits if_splits)
qed

interpretation mock_reads: reading_cache "MockRemoteCache_ops js" mock_inv "mock_live now" now
proof unfold_locales
  fix c k c' and xs :: "string list"
  assume inv: "mock_inv c"
  show "set xs = mock_live now c k \<and> mock_inv c' \<and> mock_live now c' = mock_live now c"
    if "rc_SetList (MockRemoteCache_ops js) k now c = Done ((xs, None), c')"
    using that inv mock_live_cleanup [OF inv] by (auto simp: MockRemoteCache_ops_def Mock_SetList_def Let_def)
  show "set xs = mock_live now c k \<and> mock_inv c' \<and> mock_live now c' = mock_live now c"
    if "rc_SetToChan (MockRemoteCache_ops js) k now c = Done ((xs, None), c')"
  proof -
    have "0 \<le> Duplicate (CleanupExpiry now c)"
      using CleanupExpiry_inv [OF inv, of now] by (simp add: mock_inv_def)
    then show ?thesis
      using that inv mock_live_cleanup [OF inv] by (auto simp: MockRemoteCache_ops_def Mock_SetToChan_def Let_def)
  qed
qed

subsection \<open>Reachable states\<close>

text \<open>
  One step of the mock: any call of one of its methods at any time that returns. The methods
  left out (\<^verbatim>\<open>SetCardinality\<close>, the three unimplemented ones, \<^verbatim>\<open>BlockingPopCopy\<close>, \<^verbatim>\<open>KeysToChan\<close>
  and \<^verbatim>\<open>LoadLogState\<close>) do not change the state.
\<close>

inductive mock_step :: "json_codec \<Rightarrow> MockRemoteCache \<Rightarrow> MockRemoteCache \<Rightarrow> bool" for js where
  insert: "Mock_SetInsert k e c = (r, c') \<Longrightarrow> mock_step js c c'"
| remove: "Mock_SetRemove k e now c = (r, c') \<Longrightarrow> mock_step js c c'"
| contains: "Mock_SetContains k e now c = (r, c') \<Longrightarrow> mock_step js c c'"
| list: "Mock_SetList k now c = (rs, c') \<Longrightarrow> mock_step js c c'"
| to_chan: "Mock_SetToChan k now c = (rs, c') \<Longrightarrow> mock_step js c c'"
| exists: "Mock_Exists k now c = (r, c') \<Longrightarrow> mock_step js c c'"
| expire_at: "Mock_ExpireAt k t c = (err, c') \<Longrightarrow> mock_step js c c'"
| expire_in: "Mock_ExpireIn k d now c = (err, c') \<Longrightarrow> mock_step js c c'"
| try_set: "Mock_TrySet k v life now c = Done (rv, c') \<Longrightarrow> mock_step js c c'"
| list_remove: "Mock_ListRemove k v now c = (err, c') \<Longrightarrow> mock_step js c c'"
| store_log: "Mock_StoreLogState js l c = (err, c') \<Longrightarrow> mock_step js c c'"

lemma mock_inv_Expirations [inv_intros]:
  "mock_inv c \<Longrightarrow> mock_inv (c\<lparr>Expirations := AList.update k t (Expirations c)\<rparr>)"
  by (simp add: mock_inv_def)

lemma found_at_nonempty: "found_at xs e i \<Longrightarrow> xs \<noteq> []"
  by (auto simp: found_at_def Let_def)

lemma data_at_update_same:
  assumes "data_at c k \<noteq> []"
  shows "AList.update k (data_at c k) (Data c) = Data c"
proof -
  obtain xs where "map_of (Data c) k = Some xs" "data_at c k = xs"
    using assms by (auto simp: data_at_def split: option.splits)
  moreover have "map_of m k = Some xs \<Longrightarrow> AList.update k xs m = m" for m :: "(string \<times> string list) list"
    by (induction m) auto
  ultimately show ?thesis by simp
qed

lemma Mock_SetRemove_state: "snd (Mock_SetRemove k e now c) = CleanupExpiry now c"
  by (auto simp: Mock_SetRemove_def Let_def data_at_update_same dest: found_at_nonempty)

lemma mock_step_inv:
  assumes "mock_step js c c'" and "mock_inv c"
  shows "mock_inv c'"
  using assms
proof (induction rule: mock_step.induct)
  case (insert k e c r c')
  then show ?case using Mock_SetInsert_cases(2) by blast
next
  case (remove k e now c r c')
  then show ?case using Mock_SetRemove_state [of k e now c] by simp
next
  case (list_remove k v now c err c')
  then show ?case
    using Mock_SetRemove_state [of k v now c] by (auto simp: Mock_ListRemove_def split: prod.splits)
next
  case (try_set k v life now c rv c')
  then show ?case
    by (auto simp: Mock_TrySet_def Mock_ExpireAt_def Let_def mock_inv_update
        split: option.splits list.splits intro!: mock_inv_Expirations
          [of "c\<lparr>Data := AList.update k [v] (Data c)\<rparr>", simplified])
next
  case (store_log l c err c')
  then show ?case
    by (auto simp: Mock_StoreLogState_def mock_inv_update split: sum.splits)
qed (auto simp: Mock_SetContains_def Mock_SetList_def Mock_SetToChan_def Mock_Exists_def
    Mock_ExpireAt_def Mock_ExpireIn_def Let_def mock_inv_Expirations split: if_splits)

lemma NewMockRemoteCache_inv: "mock_inv NewMockRemoteCache"
  by (simp add: mock_inv_def NewMockRemoteCache_def)

lemma mock_reachable_inv: "(mock_step js)\<^sup>*\<^sup>* NewMockRemoteCache c \<Longrightarrow> mock_inv c"
  by (induction rule: rtranclp_induct) (auto intro: mock_step_inv NewMockRemoteCache_inv)

subsection \<open>Properties\<close>

text \<open>
  C10. The insertion of the mock refines the insertion into a set: it answers whether the entry was
  absent, adds it to the set at the key, leaves the other keys alone and keeps every slice
  strictly sorted.
\<close>

theorem mock_insert_refines_set:
  assumes "mock_inv ec"
  shows "\<exists>ec'. Mock_SetInsert k e ec = ((e \<notin> mock_members ec k, None), ec') \<and> mock_inv ec' \<and>
    mock_members ec' = (mock_members ec)(k := insert e (mock_members ec k))"
proof -
  obtain r ec' where i: "Mock_SetInsert k e ec = (r, ec')" by fastforce
  from Mock_SetInsert_cases [OF assms i] i show ?thesis by simp
qed

text \<open>An encoding of the log states without progress, and a cache, to evaluate properties on.\<close>

definition sample_codec :: json_codec where
  "sample_codec =
     \<lparr>js_Marshal = \<lambda>l. if LastEntryTime l = 0 \<and> LastUpdateTime l = 0 \<and> MaxEntry l = 0
        then Inr (bytes_of_string (ShortURL l)) else Inl (StdError ''json''),
      js_Unmarshal = \<lambda>b. Inr \<lparr>ShortURL = string_of_bytes b, MaxEntry = 0, LastEntryTime = 0,
        LastUpdateTime = 0\<rparr>\<rparr>"

definition sample_mock :: MockRemoteCache where
  "sample_mock = \<lparr>Data = [(''k'', [''a'', ''c''])], Expirations = [(''k'', 10)], Duplicate = 0\<rparr>"

lemma sample_mock_inv: "mock_inv sample_mock"
  by code_simp

theorem mock_insert_refines_set_witness:
  "\<exists>ec'. Mock_SetInsert ''k'' ''b'' sample_mock = ((True, None), ec') \<and>
     mock_members ec' ''k'' = {''a'', ''b'', ''c''}"
proof -
  have m: "mock_members sample_mock ''k'' = {''a'', ''c''}" by code_simp
  obtain ec' where "Mock_SetInsert ''k'' ''b'' sample_mock =
      ((''b'' \<notin> mock_members sample_mock ''k'', None), ec')"
    "mock_members ec' ''k'' = insert ''b'' (mock_members sample_mock ''k'')"
    using mock_insert_refines_set [OF sample_mock_inv, of "''k''" "''b''"] by (metis fun_upd_same)
  then show ?thesis by (intro exI [of _ ec']) (simp add: m insert_commute)
qed

text \<open>
  C11. In every state that calls of its methods can bring about, the mock's slices are strictly
  sorted and non-empty under distinct keys; in particular \<^verbatim>\<open>TrySet\<close> never panics there.
\<close>

theorem mock_reachable_states:
  assumes "(mock_step js)\<^sup>*\<^sup>* NewMockRemoteCache c"
  shows "mock_inv c \<and> (\<exists>r c'. Mock_TrySet k v life now c = Done (r, c'))"
proof -
  note inv = mock_reachable_inv [OF assms]
  have "xs \<noteq> []" if "map_of (Data c) k = Some xs" for xs
    using inv that by (force simp: mock_inv_def dest: map_of_SomeD)
  with inv show ?thesis
    by (auto simp: Mock_TrySet_def Mock_ExpireAt_def Let_def split: option.split list.split)
qed

theorem mock_reachable_states_witness:
  "\<exists>r c'. Mock_TrySet ''k'' ''v'' 5 0 (snd (Mock_SetInsert ''k'' ''a'' NewMockRemoteCache)) = Done (r, c')"
proof -
  have "mock_step sample_codec NewMockRemoteCache (snd (Mock_SetInsert ''k'' ''a'' NewMockRemoteCache))"
    by (rule mock_step.insert) (rule prod.collapse [symmetric])
  from mock_reachable_states [OF r_into_rtranclp, OF this] show ?thesis by blast
qed

text \<open>
  A member is visible through \<^verbatim>\<open>SetContains\<close>, \<^verbatim>\<open>SetList\<close>, \<^verbatim>\<open>SetToChan\<close> and \<^verbatim>\<open>Exists\<close> until the
  expiration time of its key has passed and never after, for any number of duplicates sent.
\<close>

theorem mock_expiry:
  assumes "mock_inv ec"
  shows "fst (fst (Mock_SetContains k e now ec)) = (mock_alive now ec k \<and> e \<in> mock_members ec k) \<and>
    set (fst (fst (Mock_SetList k now ec))) = (if mock_alive now ec k then mock_members ec k else {}) \<and>
    set (fst (fst (Mock_SetToChan k now ec))) = (if mock_alive now ec k then mock_members ec k else {}) \<and>
    fst (fst (Mock_Exists k now ec)) = (mock_alive now ec k \<and> mock_members ec k \<noteq> {})"
proof (intro conjI)
  show "set (fst (fst (Mock_SetToChan k now ec)))
      = (if mock_alive now ec k then mock_members ec k else {})"
    using Mock_SetToChan_set [OF assms] by (metis prod.collapse)
  have "xs \<noteq> []" if "map_of (Data ec) k = Some xs" for xs
    using assms that by (force simp: mock_inv_def dest: map_of_SomeD)
  then show "fst (fst (Mock_Exists k now ec)) = (mock_alive now ec k \<and> mock_members ec k \<noteq> {})"
    using assms
    by (cases "map_of (Data ec) k")
      (auto simp: Mock_Exists_def Let_def CleanupExpiry_at mock_members_def data_at_def)
qed (use assms in \<open>auto simp: Mock_SetContains_result Mock_SetList_def Let_def
    data_at_CleanupExpiry mock_members_def\<close>)

theorem mock_expiry_witness:
  "fst (fst (Mock_SetContains ''k'' ''a'' 10 sample_mock)) \<and>
   \<not> fst (fst (Mock_SetContains ''k'' ''a'' 11 sample_mock))"
proof -
  have "mock_alive 10 sample_mock ''k''" "\<not> mock_alive 11 sample_mock ''k''"
    "''a'' \<in> mock_members sample_mock ''k''" by code_simp+
  then show ?thesis
    using mock_expiry [OF sample_mock_inv, of "''k''" "''a''" 10]
      mock_expiry [OF sample_mock_inv, of "''k''" "''a''" 11] by simp
qed

text \<open>
  \<^verbatim>\<open>SetRemove\<close> of the mock answers that it removed a present entry, and the entry is still
  there afterwards: it never changes the members of a live key.
\<close>

theorem mock_remove_keeps_entry:
  assumes "mock_inv ec" and "mock_alive now ec k"
  shows "fst (Mock_SetRemove k e now ec) = (e \<in> mock_members ec k, None) \<and>
    mock_members (snd (Mock_SetRemove k e now ec)) k = mock_members ec k"
  using assms data_at_sorted [OF assms(1), of k]
  by (auto simp: Mock_SetRemove_state mock_members_def data_at_CleanupExpiry Mock_SetRemove_def
      Let_def found_at_iff)

theorem mock_remove_keeps_entry_witness:
  "fst (Mock_SetRemove ''k'' ''a'' 5 sample_mock) = (True, None) \<and>
   ''a'' \<in> mock_members (snd (Mock_SetRemove ''k'' ''a'' 5 sample_mock)) ''k''"
proof -
  have "mock_alive 5 sample_mock ''k''" "''a'' \<in> mock_members sample_mock ''k''" by code_simp+
  with mock_remove_keeps_entry [OF sample_mock_inv, of 5 "''k''" "''a''"] show ?thesis by simp
qed

end
