(* ===== verification/Redis_Cache.thy ===== *)
theory Redis_Cache
  imports Mock_Cache
begin

text \<open>
  \<^verbatim>\<open>storage/rediscache.go\<close>: the \<^verbatim>\<open>RemoteCache\<close> on a Redis server. The client library is the
  argument \<open>cl\<close>, a record of the commands the code issues on a server state \<open>'r\<close>: each gives
  the value and the error that \<^verbatim>\<open>Result()\<close> returns. A scan gives the error of its first page,
  the values its iterator delivers and the iterator's error.

  The locale \<open>redis_client\<close> states what the commands promise (the Redis documentation of
  \<^verbatim>\<open>SADD\<close>, \<^verbatim>\<open>SISMEMBER\<close>, \<^verbatim>\<open>SMEMBERS\<close>, \<^verbatim>\<open>SSCAN\<close>, \<^verbatim>\<open>SCARD\<close>, \<^verbatim>\<open>EXPIREAT\<close>); under it the methods
  keep the contract \<open>set_cache\<close>. \<open>reference_client\<close> is an executable server with these
  commands, which shows that the contract can be met: it interprets the locale.
\<close>

record 'r redis_client_ops =
  cl_Ping :: "time \<Rightarrow> 'r \<Rightarrow> go_error option \<times> 'r"
  cl_Info :: "string \<Rightarrow> time \<Rightarrow> 'r \<Rightarrow> string res \<times> 'r"
  cl_SAdd :: "string \<Rightarrow> string \<Rightarrow> time \<Rightarrow> 'r \<Rightarrow> int res \<times> 'r"
  cl_SRem :: "string \<Rightarrow> string \<Rightarrow> time \<Rightarrow> 'r \<Rightarrow> int res \<times> 'r"
  cl_SIsMember :: "string \<Rightarrow> string \<Rightarrow> time \<Rightarrow> 'r \<Rightarrow> bool res \<times> 'r"
  cl_SMembers :: "string \<Rightarrow> time \<Rightarrow> 'r \<Rightarrow> string list res \<times> 'r"
  cl_SScan :: "string \<Rightarrow> time \<Rightarrow> 'r \<Rightarrow> (go_error option \<times> string list \<times> go_error option) \<times> 'r"
  cl_SCard :: "string \<Rightarrow> time \<Rightarrow> 'r \<Rightarrow> int res \<times> 'r"
  cl_Exists :: "string \<Rightarrow> time \<Rightarrow> 'r \<Rightarrow> int res \<times> 'r"
  cl_ExpireAt :: "string \<Rightarrow> time \<Rightarrow> time \<Rightarrow> 'r \<Rightarrow> go_error option \<times> 'r"
  cl_Expire :: "string \<Rightarrow> duration \<Rightarrow> time \<Rightarrow> 'r \<Rightarrow> go_error option \<times> 'r"
  cl_RPush :: "string \<Rightarrow> string \<Rightarrow> time \<Rightarrow> 'r \<Rightarrow> int res \<times> 'r"
  cl_BRPopLPush :: "string \<Rightarrow> string \<Rightarrow> duration \<Rightarrow> time \<Rightarrow> 'r \<Rightarrow> string res \<times> 'r"
  cl_LRem :: "string \<Rightarrow> int \<Rightarrow> string \<Rightarrow> time \<Rightarrow> 'r \<Rightarrow> go_error option \<times> 'r"
  cl_LPop :: "string \<Rightarrow> time \<Rightarrow> 'r \<Rightarrow> string res \<times> 'r"
  cl_LLen :: "string \<Rightarrow> time \<Rightarrow> 'r \<Rightarrow> int res \<times> 'r"
  cl_Scan :: "string \<Rightarrow> time \<Rightarrow> 'r \<Rightarrow> (go_error option \<times> string list \<times> go_error option) \<times> 'r"
  cl_SetNX :: "string \<Rightarrow> string \<Rightarrow> duration \<Rightarrow> time \<Rightarrow> 'r \<Rightarrow> go_error option \<times> 'r"
  cl_Get :: "string \<Rightarrow> time \<Rightarrow> 'r \<Rightarrow> string res \<times> 'r"
  cl_Set :: "string \<Rightarrow> string \<Rightarrow> duration \<Rightarrow> time \<Rightarrow> 'r \<Rightarrow> go_error option \<times> 'r"

definition EMPTY_QUEUE :: string where "EMPTY_QUEUE = ''redis: nil''"

definition NO_EXPIRATION :: duration where "NO_EXPIRATION = 0"

definition MemoryPolicyCorrect ::
  "'r redis_client_ops \<Rightarrow> time \<Rightarrow> 'r \<Rightarrow> go_error option \<times> 'r" where
  "MemoryPolicyCorrect cl now r =
     (case cl_Info cl ''memory'' now r of
        ((val, Some err), r1) \<Rightarrow> (Some err, r1)
      | ((val, None), r1) \<Rightarrow>
          (if strings_Contains val ''maxmemory_policy:noeviction'' then (None, r1)
           else (Some (Errorf (''Redis maxmemory_policy should be `noeviction`. Memory config is set to ''
                               @ val)), r1)))"

text \<open>The wrong memory policy is only logged: the cache is returned.\<close>

definition NewRedisCache :: "'r redis_client_ops \<Rightarrow> time \<Rightarrow> 'r \<Rightarrow> go_error option \<times> 'r" where
  "NewRedisCache cl now r =
     (case cl_Ping cl now r of
        (Some err, r1) \<Rightarrow> (Some err, r1)
      | (None, r1) \<Rightarrow> (let (err, r2) = MemoryPolicyCorrect cl now r1 in (None, r2)))"

definition Redis_SetInsert ::
  "'r redis_client_ops \<Rightarrow> string \<Rightarrow> string \<Rightarrow> time \<Rightarrow> 'r \<Rightarrow> (bool res \<times> 'r) run" where
  "Redis_SetInsert cl key entry now r =
     (case cl_SAdd cl key entry now r of
        ((added, Some err), r1) \<Rightarrow>
          (if strings_HasPrefix (err_text err) ''OOM''
           then Fatal (''Out of memory on Redis insert of entry '' @ entry @ '' into key '' @ key
                       @ '', error '' @ err_text err)
           else Done ((added = 1, Some err), r1))
      | ((added, None), r1) \<Rightarrow> Done ((added = 1, None), r1))"

definition Redis_SetRemove ::
  "'r redis_client_ops \<Rightarrow> string \<Rightarrow> string \<Rightarrow> time \<Rightarrow> 'r \<Rightarrow> bool res \<times> 'r" where
  "Redis_SetRemove cl key entry now r =
     (let ((removed, err), r1) = cl_SRem cl key entry now r in ((removed > 0, err), r1))"

definition Redis_SetContains ::
  "'r redis_client_ops \<Rightarrow> string \<Rightarrow> string \<Rightarrow> time \<Rightarrow> 'r \<Rightarrow> bool res \<times> 'r" where
  "Redis_SetContains cl key entry now r = cl_SIsMember cl key entry now r"

definition Redis_SetList ::
  "'r redis_client_ops \<Rightarrow> string \<Rightarrow> time \<Rightarrow> 'r \<Rightarrow> string list res \<times> 'r" where
  "Redis_SetList cl key now r = cl_SMembers cl key now r"

definition scan_to_chan ::
  "(go_error option \<times> string list \<times> go_error option) \<times> 'r \<Rightarrow> string list res \<times> 'r" where
  "scan_to_chan scanres =
     (case scanres of
        ((Some err, xs, iterErr), r1) \<Rightarrow> (([], Some err), r1)
      | ((None, xs, iterErr), r1) \<Rightarrow> ((xs, iterErr), r1))"

definition Redis_SetToChan ::
  "'r redis_client_ops \<Rightarrow> string \<Rightarrow> time \<Rightarrow> 'r \<Rightarrow> string list res \<times> 'r" where
  "Redis_SetToChan cl key now r = scan_to_chan (cl_SScan cl key now r)"

definition Redis_SetCardinality ::
  "'r redis_client_ops \<Rightarrow> string \<Rightarrow> time \<Rightarrow> 'r \<Rightarrow> int res \<times> 'r" where
  "Redis_SetCardinality cl key now r = cl_SCard cl key now r"

definition Redis_Exists ::
  "'r redis_client_ops \<Rightarrow> string \<Rightarrow> time \<Rightarrow> 'r \<Rightarrow> bool res \<times> 'r" where
  "Redis_Exists cl key now r =
     (let ((count, err), r1) = cl_Exists cl key now r in ((count = 1, err), r1))"

definition Redis_ExpireAt ::
  "'r redis_client_ops \<Rightarrow> string \<Rightarrow> time \<Rightarrow> time \<Rightarrow> 'r \<Rightarrow> go_error option \<times> 'r" where
  "Redis_ExpireAt cl key aExpTime now r = cl_ExpireAt cl key aExpTime now r"

definition Redis_ExpireIn ::
  "'r redis_client_ops \<Rightarrow> string \<Rightarrow> duration \<Rightarrow> time \<Rightarrow> 'r \<Rightarrow> go_error option \<times> 'r" where
  "Redis_ExpireIn cl key aDuration now r = cl_Expire cl key aDuration now r"

definition Redis_Queue ::
  "'r redis_client_ops \<Rightarrow> string \<Rightarrow> string \<Rightarrow> time \<Rightarrow> 'r \<Rightarrow> int res \<times> 'r" where
  "Redis_Queue cl key identifier now r = cl_RPush cl key identifier now r"

definition Redis_BlockingPopCopy ::
  "'r redis_client_ops \<Rightarrow> string \<Rightarrow> string \<Rightarrow> duration \<Rightarrow> time \<Rightarrow> 'r \<Rightarrow> string res \<times> 'r" where
  "Redis_BlockingPopCopy cl key dest timeout now r = cl_BRPopLPush cl key dest timeout now r"

definition Redis_ListRemove ::
  "'r redis_client_ops \<Rightarrow> string \<Rightarrow> string \<Rightarrow> time \<Rightarrow> 'r \<Rightarrow> go_error option \<times> 'r" where
  "Redis_ListRemove cl key val now r = cl_LRem cl key 1 val now r"

definition Redis_Pop ::
  "'r redis_client_ops \<Rightarrow> string \<Rightarrow> time \<Rightarrow> 'r \<Rightarrow> string res \<times> 'r" where
  "Redis_Pop cl key now r = cl_LPop cl key now r"

definition Redis_QueueLength ::
  "'r redis_client_ops \<Rightarrow> string \<Rightarrow> time \<Rightarrow> 'r \<Rightarrow> int res \<times> 'r" where
  "Redis_QueueLength cl key now r = cl_LLen cl key now r"

definition Redis_KeysToChan ::
  "'r redis_client_ops \<Rightarrow> string \<Rightarrow> time \<Rightarrow> 'r \<Rightarrow> string list res \<times> 'r" where
  "Redis_KeysToChan cl pat now r = scan_to_chan (cl_Scan cl pat now r)"

definition Redis_TrySet ::
  "'r redis_client_ops \<Rightarrow> string \<Rightarrow> string \<Rightarrow> duration \<Rightarrow> time \<Rightarrow> 'r \<Rightarrow> string res \<times> 'r" where
  "Redis_TrySet cl k v life now r =
     (case cl_SetNX cl k v life now r of
        (Some err, r1) \<Rightarrow> (([], Some err), r1)
      | (None, r1) \<Rightarrow> cl_Get cl k now r1)"

definition shortUrlToLogKey :: "string \<Rightarrow> string" where
  "shortUrlToLogKey shortUrl = ''log::'' @ shortUrl"

definition Redis_StoreLogState ::
  "json_codec \<Rightarrow> 'r redis_client_ops \<Rightarrow> CertificateLog \<Rightarrow> time \<Rightarrow> 'r \<Rightarrow> go_error option \<times> 'r" where
  "Redis_StoreLogState js cl log now r =
     (case js_Marshal js log of
        Inl err \<Rightarrow> (Some err, r)
      | Inr encoded \<Rightarrow>
          cl_Set cl (shortUrlToLogKey (ShortURL log)) (string_of_bytes encoded) NO_EXPIRATION now r)"

definition Redis_LoadLogState ::
  "json_codec \<Rightarrow> 'r redis_client_ops \<Rightarrow> string \<Rightarrow> time \<Rightarrow> 'r \<Rightarrow> CertificateLog option res \<times> 'r" where
  "Redis_LoadLogState js cl shortUrl now r =
     (case cl_Get cl (shortUrlToLogKey shortUrl) now r of
        ((data, Some err), r1) \<Rightarrow> ((None, Some err), r1)
      | ((data, None), r1) \<Rightarrow>
          (case js_Unmarshal js (bytes_of_string data) of
             Inl err \<Rightarrow> ((None, Some err), r1)
           | Inr log \<Rightarrow> ((Some log, None), r1)))"

definition RedisCache_ops :: "json_codec \<Rightarrow> 'r redis_client_ops \<Rightarrow> 'r RemoteCache" where
  "RedisCache_ops js cl =
     \<lparr>rc_Exists = \<lambda>k now c. Done (Redis_Exists cl k now c),
      rc_SetInsert = \<lambda>k e now c. Redis_SetInsert cl k e now c,
      rc_SetRemove = \<lambda>k e now c. Done (Redis_SetRemove cl k e now c),
      rc_SetContains = \<lambda>k e now c. Done (Redis_SetContains cl k e now c),
      rc_SetList = \<lambda>k now c. Done (Redis_SetList cl k now c),
      rc_SetToChan = \<lambda>k now c. Done (Redis_SetToChan cl k now c),
      rc_SetCardinality = \<lambda>k now c. Done (Redis_SetCardinality cl k now c),
      rc_ExpireAt = \<lambda>k t now c. Done (Redis_ExpireAt cl k t now c),
      rc_ExpireIn = \<lambda>k d now c. Done (Redis_ExpireIn cl k d now c),
      rc_Queue = \<lambda>k i now c. Done (Redis_Queue cl k i now c),
      rc_Pop = \<lambda>k now c. Done (Redis_Pop cl k now c),
      rc_QueueLength = \<lambda>k now c. Done (Redis_QueueLength cl k now c),
      rc_BlockingPopCopy = \<lambda>k d t now c. Done (Redis_BlockingPopCopy cl k d t now c),
      rc_ListRemove = \<lambda>k v now c. Done (Redis_ListRemove cl k v now c),
      rc_TrySet = \<lambda>k v life now c. Done (Redis_TrySet cl k v life now c),
      rc_KeysToChan = \<lambda>pat now c. Done (Redis_KeysToChan cl pat now c),
      rc_StoreLogState = \<lambda>l now c. Done (Redis_StoreLogState js cl l now c),
      rc_LoadLogState = \<lambda>u now c. Done (Redis_LoadLogState js cl u now c)\<rparr>"

subsection \<open>What the commands promise\<close>

text \<open>
  \<open>strv now s k\<close> is the string at the key at the time, if there is one, and \<open>absent now s k\<close>
  that nothing is stored there. \<^verbatim>\<open>SETNX\<close> sets an absent key only; \<^verbatim>\<open>GET\<close> fails on it. An error of
  either leaves what is set on every key.

  The lives of keys are whole milliseconds, as the protocol has them. Expiration times are whole
  seconds in the protocol; the law for \<^verbatim>\<open>EXPIREAT\<close> is used only for the dates of certificates, which
  are whole hours. A command is executed once: that the client sends a command again whose answer
  was lost, and so is told that an element was there already, is not part of the contract.
\<close>

locale redis_client =
  fixes cl :: "'r redis_client_ops"
    and inv :: "'r \<Rightarrow> bool"
    and members :: "'r \<Rightarrow> string \<Rightarrow> string set"
    and alive :: "time \<Rightarrow> 'r \<Rightarrow> string \<Rightarrow> bool"
    and strv :: "time \<Rightarrow> 'r \<Rightarrow> string \<Rightarrow> string option"
    and absent :: "time \<Rightarrow> 'r \<Rightarrow> string \<Rightarrow> bool"
  assumes finite: "inv s \<Longrightarrow> finite (members s k)"
    and sadd: "inv s \<Longrightarrow> cl_SAdd cl k e now s = ((n, er), s') \<Longrightarrow>
      inv s' \<and> (\<forall>k'. k' \<noteq> k \<longrightarrow> members s' k' = members s k') \<and>
      (\<forall>u k'. alive u s k' \<longrightarrow> alive u s' k')"
    and sadd_result: "inv s \<Longrightarrow> alive now s k \<Longrightarrow> cl_SAdd cl k e now s = ((n, None), s') \<Longrightarrow>
      n = (if e \<in> members s k then 0 else 1) \<and> members s' k = insert e (members s k)"
    and sadd_error: "inv s \<Longrightarrow> alive now s k \<Longrightarrow> cl_SAdd cl k e now s = ((n, Some err), s') \<Longrightarrow>
      members s' k = members s k \<or> members s' k = insert e (members s k)"
    and sismember: "inv s \<Longrightarrow> alive now s k \<Longrightarrow> cl_SIsMember cl k e now s = ((b, None), s') \<Longrightarrow>
      b = (e \<in> members s k)"
    and smembers: "inv s \<Longrightarrow> alive now s k \<Longrightarrow> cl_SMembers cl k now s = ((xs, None), s') \<Longrightarrow>
      set xs = members s k"
    and sscan: "inv s \<Longrightarrow> alive now s k \<Longrightarrow> cl_SScan cl k now s = ((None, xs, None), s') \<Longrightarrow>
      set xs = members s k"
    and scard: "inv s \<Longrightarrow> alive now s k \<Longrightarrow> cl_SCard cl k now s = ((n, None), s') \<Longrightarrow>
      n = int (card (members s k))"
    and expire_at_cmd: "inv s \<Longrightarrow> cl_ExpireAt cl k t now s = (er, s') \<Longrightarrow>
      (now < t \<longrightarrow> inv s' \<and> members s' = members s \<and> (\<forall>u < t. alive u s k \<longrightarrow> alive u s' k)) \<and>
      (\<forall>u k'. k' \<noteq> k \<longrightarrow> alive u s k' \<longrightarrow> alive u s' k')"
    and setnx: "inv s \<Longrightarrow> cl_SetNX cl k v life now s = (er, s') \<Longrightarrow> 0 < life \<Longrightarrow> life mod Millisecond = 0 \<Longrightarrow>
      inv s' \<and> (\<forall>u. er = None \<and> now \<le> u \<and> u < now + life \<and> absent now s k \<longrightarrow> strv u s' k = Some v) \<and>
      (\<forall>u k' w. now \<le> u \<and> (k' \<noteq> k \<or> \<not> absent now s k) \<and> strv u s k' = Some w \<longrightarrow> strv u s' k' = Some w)"
    and not_absent: "strv now s k = Some v \<Longrightarrow> \<not> absent now s k"
    and get: "inv s \<Longrightarrow> cl_Get cl k now s = (r, s') \<Longrightarrow>
      inv s' \<and> (\<forall>v. r = (v, None) \<longrightarrow> strv now s k = Some v) \<and> (\<forall>u k'. strv u s' k' = strv u s k')"
begin

lemma try_set_first:
  assumes "inv s" "0 < life" "life mod Millisecond = 0" "absent now s k"
    and "Redis_TrySet cl k v life now s = ((x, None), s1)"
  shows "x = v \<and> inv s1 \<and> (\<forall>u. now \<le> u \<and> u < now + life \<longrightarrow> strv u s1 k = Some v)"
proof -
  obtain t where t: "cl_SetNX cl k v life now s = (None, t)" "cl_Get cl k now t = ((x, None), s1)"
    using assms(5) by (auto simp: Redis_TrySet_def split: prod.splits option.splits)
  note a = setnx [OF assms(1) t(1) assms(2,3)]
  have sv: "\<forall>u. now \<le> u \<and> u < now + life \<longrightarrow> strv u t k = Some v" using a assms(4) by blast
  have "strv now t k = Some v" using sv assms(2) by simp
  with get [OF _ t(2)] a sv show ?thesis by auto
qed

text \<open>A call while a key is set keeps it; on the key itself it is answered with the value, or fails.\<close>

lemma try_set_taken:
  assumes "inv s" "0 < life" "life mod Millisecond = 0" "Redis_TrySet cl k' w life u s = (r, s1)"
    and "u \<le> z" "strv u s k = Some v" "strv z s k = Some v"
  shows "inv s1 \<and> strv z s1 k = Some v \<and> (k' = k \<longrightarrow> snd r = None \<longrightarrow> fst r = v)"
proof -
  obtain er t where t: "cl_SetNX cl k' w life u s = (er, t)" by fastforce
  note a = setnx [OF assms(1) t assms(2,3)]
  have na: "k \<noteq> k' \<or> \<not> absent u s k'" using not_absent [OF assms(6)] by auto
  have kept: "strv y t k = Some v" if "u \<le> y" "strv y s k = Some v" for y using a na that by blast
  have z: "strv z t k = Some v" and u: "strv u t k = Some v" using kept assms(5-7) by blast+
  show ?thesis
  proof (cases er)
    case (Some e)
    then have "r = ([], Some e)" "s1 = t" using assms(4) t by (simp_all add: Redis_TrySet_def)
    then show ?thesis using a z by simp
  next
    case None
    then have g: "cl_Get cl k' u t = (r, s1)" using assms(4) t by (simp add: Redis_TrySet_def)
    with get [OF _ g] a z u show ?thesis by (cases r) auto
  qed
qed

end

text \<open>Calls of \<^verbatim>\<open>TrySet\<close> one after the other: key, value, life and time of each.\<close>

fun try_sets :: "'r redis_client_ops \<Rightarrow> (string \<times> string \<times> duration \<times> time) list \<Rightarrow> 'r \<Rightarrow> string res list \<times> 'r" where
  "try_sets cl [] s = ([], s)"
| "try_sets cl ((k, v, life, now) # calls) s =
     (let (r, s1) = Redis_TrySet cl k v life now s; (rs, s2) = try_sets cl calls s1 in (r # rs, s2))"

definition call_time :: "string \<times> string \<times> duration \<times> time \<Rightarrow> time" where
  "call_time c = snd (snd (snd c))"

definition call_life :: "string \<times> string \<times> duration \<times> time \<Rightarrow> duration" where
  "call_life c = fst (snd (snd c))"

context redis_client
begin

lemma try_sets_taken:
  assumes "inv s" and "\<forall>z. t \<le> z \<and> z < until \<longrightarrow> strv z s k = Some v"
    and "sorted (map call_time calls)" and "\<forall>c \<in> set calls. t \<le> call_time c \<and> call_time c < until \<and> 0 < call_life c \<and> call_life c mod Millisecond = 0"
    and "try_sets cl calls s = (rs, s')"
  shows "\<forall>(c, r) \<in> set (zip calls rs). fst c = k \<longrightarrow> snd r = None \<longrightarrow> fst r = v"
  using assms
proof (induction calls arbitrary: s t rs s')
  case (Cons c calls)
  obtain k' w life u where c: "c = (k', w, life, u)" by (rule prod_cases4)
  obtain r s1 where r: "Redis_TrySet cl k' w life u s = (r, s1)" by fastforce
  obtain rs' s2 where rs: "try_sets cl calls s1 = (rs', s2)" by fastforce
  have u: "t \<le> u" "u < until" "0 < life" "life mod Millisecond = 0" using Cons.prems(4) by (auto simp: c call_time_def call_life_def)
  have sv: "strv u s k = Some v" using Cons.prems(2) u by blast
  have step: "inv s1 \<and> strv z s1 k = Some v \<and> (k' = k \<longrightarrow> snd r = None \<longrightarrow> fst r = v)" if "u \<le> z" "z < until" for z
    using try_set_taken [OF Cons.prems(1) u(3,4) r that(1) sv] Cons.prems(2) u(1) that by simp
  have "\<forall>(c, r) \<in> set (zip calls rs'). fst c = k \<longrightarrow> snd r = None \<longrightarrow> fst r = v"
  proof (rule Cons.IH [of s1 u rs' s2])
    show "inv s1" using step [of u] u(2) by simp
    show "\<forall>c \<in> set calls. u \<le> call_time c \<and> call_time c < until \<and> 0 < call_life c \<and> call_life c mod Millisecond = 0"
      using Cons.prems(3,4) by (auto simp: c call_time_def)
  qed (use step Cons.prems(3) rs in auto)
  moreover have "rs = r # rs'" using Cons.prems(5) r rs by (simp add: c)
  moreover have "k' = k \<longrightarrow> snd r = None \<longrightarrow> fst r = v" using step [of u] u(2) by simp
  ultimately show ?case by (simp add: c)
qed simp

end

lemma Redis_SetInsert_Done:
  "Redis_SetInsert cl k e now s = Done ((b, er), s') \<longleftrightarrow>
     (\<exists>n. cl_SAdd cl k e now s = ((n, er), s') \<and> b = (n = 1) \<and>
       (\<forall>err. er = Some err \<longrightarrow> \<not> strings_HasPrefix (err_text err) ''OOM''))"
  by (auto simp: Redis_SetInsert_def split: prod.splits option.splits)

lemma scan_to_chan_ok:
  "scan_to_chan sc = ((xs, None), s') \<longleftrightarrow> sc = ((None, xs, None), s')"
  by (auto simp: scan_to_chan_def split: prod.splits option.splits)

sublocale redis_client < redis: set_cache "RedisCache_ops js cl" inv members alive for js
proof unfold_locales
  fix s k e now r s' b err u k'
  assume i: "inv s"
  show "finite (members s k)" using finite [OF i] .
  { assume "rc_SetInsert (RedisCache_ops js cl) k e now s = Done (r, s')"
    then obtain n er where "cl_SAdd cl k e now s = ((n, er), s')"
      by (cases r) (auto simp: RedisCache_ops_def Redis_SetInsert_Done)
    from sadd [OF i this] show "inv s'" "k' \<noteq> k \<Longrightarrow> members s' k' = members s k'"
      "alive u s k' \<Longrightarrow> alive u s' k'" by simp_all }
  show "b = (e \<notin> members s k) \<and> members s' k = insert e (members s k)"
    if "alive now s k" "rc_SetInsert (RedisCache_ops js cl) k e now s = Done ((b, None), s')"
    using that sadd_result [OF i that(1)]
    by (fastforce simp: RedisCache_ops_def Redis_SetInsert_Done)
  show "members s' k = members s k \<or> members s' k = insert e (members s k)"
    if "alive now s k" "rc_SetInsert (RedisCache_ops js cl) k e now s = Done ((b, Some err), s')"
    using that sadd_error [OF i that(1)]
    by (fastforce simp: RedisCache_ops_def Redis_SetInsert_Done)
next
  fix s k e now b s' and xs :: "string list" and n er t u k'
  assume i: "inv s"
  show "b = (e \<in> members s k)" if "alive now s k"
    "rc_SetContains (RedisCache_ops js cl) k e now s = Done ((b, None), s')"
    using that sismember [OF i that(1)] by (simp add: RedisCache_ops_def Redis_SetContains_def)
  show "set xs = members s k" if "alive now s k"
    "rc_SetList (RedisCache_ops js cl) k now s = Done ((xs, None), s')"
    using that smembers [OF i that(1)] by (simp add: RedisCache_ops_def Redis_SetList_def)
  show "set xs = members s k" if "alive now s k"
    "rc_SetToChan (RedisCache_ops js cl) k now s = Done ((xs, None), s')"
    using that sscan [OF i that(1)]
    by (simp add: RedisCache_ops_def Redis_SetToChan_def scan_to_chan_ok)
  show "n = int (card (members s k))" if "alive now s k"
    "rc_SetCardinality (RedisCache_ops js cl) k now s = Done ((n, None), s')"
    using that scard [OF i that(1)] by (simp add: RedisCache_ops_def Redis_SetCardinality_def)
  assume "rc_ExpireAt (RedisCache_ops js cl) k t now s = Done (er, s')"
  then have x: "cl_ExpireAt cl k t now s = (er, s')"
    by (simp add: RedisCache_ops_def Redis_ExpireAt_def)
  show "inv s' \<and> members s' = members s \<and> (\<forall>u<t. alive u s k \<longrightarrow> alive u s' k)" if "now < t"
    using expire_at_cmd [OF i x] that by simp
  show "alive u s' k'" if "k' \<noteq> k" "alive u s k'"
    using expire_at_cmd [OF i x] that by simp
qed

subsection \<open>Queues\<close>

text \<open>The list commands: \<^verbatim>\<open>items s k\<close> are the elements of the list at the key, left to right.\<close>

locale redis_queue =
  fixes cl :: "'r redis_client_ops"
    and qinv :: "'r \<Rightarrow> bool"
    and items :: "'r \<Rightarrow> string \<Rightarrow> string list"
  assumes rpush: "qinv s \<Longrightarrow> cl_RPush cl k v now s = ((n, None), s') \<Longrightarrow>
      qinv s' \<and> items s' = (items s)(k := items s k @ [v]) \<and> n = int (length (items s k)) + 1"
    and lpop: "qinv s \<Longrightarrow> cl_LPop cl k now s = ((v, None), s') \<Longrightarrow>
      qinv s' \<and> items s k = v # items s' k \<and> (\<forall>k'. k' \<noteq> k \<longrightarrow> items s' k' = items s k')"
    and brpoplpush: "qinv s \<Longrightarrow> cl_BRPopLPush cl k d timeout now s = ((v, None), s') \<Longrightarrow> d \<noteq> k \<Longrightarrow>
      qinv s' \<and> items s k = items s' k @ [v] \<and> items s' d = v # items s d"
    and lrem: "qinv s \<Longrightarrow> cl_LRem cl k 1 v now s = (None, s') \<Longrightarrow>
      qinv s' \<and> items s' = (items s)(k := remove1 v (items s k))"
begin

lemma queue_twice:
  assumes "qinv s" "Redis_Queue cl k a t0 s = ((n, None), s1)" "Redis_Queue cl k b t1 s1 = ((m, None), s2)"
  shows "qinv s2 \<and> items s2 = (items s)(k := items s k @ [a, b]) \<and> m = int (length (items s k)) + 2"
  using rpush [of s k a t0 n s1] rpush [of s1 k b t1 m s2] assms by (simp add: Redis_Queue_def)

lemma queue_then_pop:
  assumes "qinv s" "Redis_Queue cl k a t0 s = ((n, None), s1)" "Redis_Queue cl k b t1 s1 = ((m, None), s2)"
    and "items s k = []" and "Redis_Pop cl k t2 s2 = ((v, None), s3)"
  shows "v = a \<and> items s3 k = [b]"
  using queue_twice [OF assms(1-3)] lpop [of s2 k t2 v s3] assms(4,5) by (simp add: Redis_Pop_def)

lemma queue_then_blocking_pop:
  assumes "qinv s" "Redis_Queue cl k a t0 s = ((n, None), s1)" "Redis_Queue cl k b t1 s1 = ((m, None), s2)"
    and "items s k = []" and "d \<noteq> k" and "Redis_BlockingPopCopy cl k d timeout t2 s2 = ((v, None), s3)"
  shows "v = b \<and> items s3 k = [a] \<and> items s3 d = b # items s d"
  using queue_twice [OF assms(1-3)] brpoplpush [of s2 k d timeout t2 v s3] assms(4-6)
  by (auto simp: Redis_BlockingPopCopy_def)

lemma copy_then_remove:
  assumes "qinv s" and "Redis_BlockingPopCopy cl k d timeout t0 s = ((v, None), s1)" and "d \<noteq> k"
    and "Redis_ListRemove cl d v t1 s1 = (None, s2)"
  shows "items s2 d = items s d \<and> items s k = items s2 k @ [v]"
  using brpoplpush [of s k d timeout t0 v s1] lrem [of s1 d v t1 s2] assms
  by (auto simp: Redis_BlockingPopCopy_def Redis_ListRemove_def)

end

subsection \<open>A server that keeps the promises\<close>

datatype redis_value = RSet "string list" | RList "string list" | RString string

type_synonym redis_db = "(string \<times> redis_value \<times> time option) list"

definition db_at :: "time \<Rightarrow> redis_db \<Rightarrow> string \<Rightarrow> (redis_value \<times> time option) option" where
  "db_at now db k =
     (case map_of db k of
        Some (v, Some t) \<Rightarrow> (if now < t then Some (v, Some t) else None)
      | x \<Rightarrow> x)"

abbreviation wrong_type :: go_error where
  "wrong_type \<equiv> ExtError ''WRONGTYPE Operation against a key holding the wrong kind of value''"

definition on_set :: "time \<Rightarrow> redis_db \<Rightarrow> string \<Rightarrow> string list res" where
  "on_set now db k =
     (case db_at now db k of
        None \<Rightarrow> ([], None) | Some (RSet xs, _) \<Rightarrow> (xs, None) | _ \<Rightarrow> ([], Some wrong_type))"

definition on_list :: "time \<Rightarrow> redis_db \<Rightarrow> string \<Rightarrow> string list res" where
  "on_list now db k =
     (case db_at now db k of
        None \<Rightarrow> ([], None) | Some (RList xs, _) \<Rightarrow> (xs, None) | _ \<Rightarrow> ([], Some wrong_type))"

definition put :: "time \<Rightarrow> string \<Rightarrow> redis_value \<Rightarrow> redis_db \<Rightarrow> redis_db" where
  "put now k v db =
     AList.update k (v, case db_at now db k of None \<Rightarrow> None | Some (_, t) \<Rightarrow> t) db"

fun redis_glob :: "string \<Rightarrow> string \<Rightarrow> bool" where
  "redis_glob [] name \<longleftrightarrow> name = []"
| "redis_glob (p # ps) [] \<longleftrightarrow> p = CHR ''*'' \<and> redis_glob ps []"
| "redis_glob (p # ps) (c # cs) \<longleftrightarrow>
     (if p = CHR ''*'' then redis_glob ps (c # cs) \<or> redis_glob (p # ps) cs
      else p = c \<and> redis_glob ps cs)"

definition ref_get :: "string \<Rightarrow> time \<Rightarrow> redis_db \<Rightarrow> string res \<times> redis_db" where
  "ref_get k now db =
     (case db_at now db k of
        None \<Rightarrow> (([], Some (ExtError EMPTY_QUEUE)), db)
      | Some (RString v, _) \<Rightarrow> ((v, None), db)
      | _ \<Rightarrow> (([], Some wrong_type), db))"

definition ref_list_change ::
  "(string list \<Rightarrow> string list) \<Rightarrow> string \<Rightarrow> time \<Rightarrow> redis_db \<Rightarrow> string list res \<times> redis_db" where
  "ref_list_change f k now db =
     (case on_list now db k of
        (xs, Some e) \<Rightarrow> (([], Some e), db)
      | (xs, None) \<Rightarrow> ((xs, None), put now k (RList (f xs)) db))"

definition reference_client :: "redis_db redis_client_ops" where
  "reference_client =
     \<lparr>cl_Ping = \<lambda>now db. (None, db),
      cl_Info = \<lambda>sec now db. ((''maxmemory_policy:noeviction'', None), db),
      cl_SAdd = \<lambda>k e now db.
        (case on_set now db k of
           (xs, Some er) \<Rightarrow> ((0, Some er), db)
         | (xs, None) \<Rightarrow> (if e \<in> set xs then ((0, None), db)
                         else ((1, None), put now k (RSet (e # xs)) db))),
      cl_SRem = \<lambda>k e now db.
        (case on_set now db k of
           (xs, Some er) \<Rightarrow> ((0, Some er), db)
         | (xs, None) \<Rightarrow> (if e \<in> set xs
             then ((1, None), if set xs = {e} then AList.delete k db
                              else put now k (RSet (remove1 e xs)) db)
             else ((0, None), db))),
      cl_SIsMember = \<lambda>k e now db. (let (xs, er) = on_set now db k in ((e \<in> set xs, er), db)),
      cl_SMembers = \<lambda>k now db. (on_set now db k, db),
      cl_SScan = \<lambda>k now db. (let (xs, er) = on_set now db k in ((er, xs, None), db)),
      cl_SCard = \<lambda>k now db. (let (xs, er) = on_set now db k in ((int (length xs), er), db)),
      cl_Exists = \<lambda>k now db. ((if db_at now db k = None then 0 else 1, None), db),
      cl_ExpireAt = \<lambda>k t now db.
        (case db_at now db k of None \<Rightarrow> (None, db)
         | Some (v, _) \<Rightarrow> (None, AList.update k (v, Some t) db)),
      cl_Expire = \<lambda>k d now db.
        (case db_at now db k of None \<Rightarrow> (None, db)
         | Some (v, _) \<Rightarrow> (None, AList.update k (v, Some (now + d)) db)),
      cl_RPush = \<lambda>k v now db.
        (let ((xs, er), db1) = ref_list_change (\<lambda>xs. xs @ [v]) k now db
         in ((if er = None then int (length xs) + 1 else 0, er), db1)),
      cl_BRPopLPush = \<lambda>k d timeout now db.
        (case on_list now db k of
           (xs, Some er) \<Rightarrow> (([], Some er), db)
         | (xs, None) \<Rightarrow>
             (if xs = [] then (([], Some (ExtError EMPTY_QUEUE)), db)
              else (case ref_list_change (\<lambda>ys. last xs # ys) d now (put now k (RList (butlast xs)) db) of
                      ((_, None), db1) \<Rightarrow> ((last xs, None), db1)
                    | ((_, Some er), _) \<Rightarrow> (([], Some er), db)))),
      cl_LRem = \<lambda>k n v now db.
        (case ref_list_change (remove1 v) k now db of ((_, er), db1) \<Rightarrow> (er, db1)),
      cl_LPop = \<lambda>k now db.
        (case on_list now db k of
           (xs, Some er) \<Rightarrow> (([], Some er), db)
         | ([], None) \<Rightarrow> (([], Some (ExtError EMPTY_QUEUE)), db)
         | (x # xs, None) \<Rightarrow> ((x, None), put now k (RList xs) db)),
      cl_LLen = \<lambda>k now db. (let (xs, er) = on_list now db k in ((int (length xs), er), db)),
      cl_Scan = \<lambda>pat now db.
        ((None, filter (\<lambda>k. redis_glob pat k \<and> db_at now db k \<noteq> None) (map fst db), None), db),
      cl_SetNX = \<lambda>k v life now db.
        (if db_at now db k = None
         then (None, AList.update k (RString v, if life \<le> 0 then None else Some (now + life)) db)
         else (None, db)),
      cl_Get = ref_get,
      cl_Set = \<lambda>k v life now db.
        (None, AList.update k (RString v, if life \<le> 0 then None else Some (now + life)) db)\<rparr>"

definition ref_inv :: "redis_db \<Rightarrow> bool" where
  "ref_inv db \<longleftrightarrow> (\<forall>k xs t. map_of db k = Some (RSet xs, t) \<longrightarrow> distinct xs)"

definition ref_members :: "redis_db \<Rightarrow> string \<Rightarrow> string set" where
  "ref_members db k = (case map_of db k of Some (RSet xs, _) \<Rightarrow> set xs | _ \<Rightarrow> {})"

definition ref_alive :: "time \<Rightarrow> redis_db \<Rightarrow> string \<Rightarrow> bool" where
  "ref_alive now db k = (case map_of db k of Some (_, Some t) \<Rightarrow> now < t | _ \<Rightarrow> True)"

definition ref_strv :: "time \<Rightarrow> redis_db \<Rightarrow> string \<Rightarrow> string option" where
  "ref_strv now db k = (case db_at now db k of Some (RString v, _) \<Rightarrow> Some v | _ \<Rightarrow> None)"

definition ref_absent :: "time \<Rightarrow> redis_db \<Rightarrow> string \<Rightarrow> bool" where
  "ref_absent now db k \<longleftrightarrow> db_at now db k = None"

lemma db_at_alive: "ref_alive now db k \<Longrightarrow> db_at now db k = map_of db k"
  by (auto simp: ref_alive_def db_at_def split: option.splits prod.splits)

lemma db_at_Some: "db_at now db k = Some x \<Longrightarrow> map_of db k = Some x"
  by (auto simp: db_at_def split: option.splits prod.splits if_splits)

lemma on_set_alive:
  "ref_alive now db k \<Longrightarrow> on_set now db k = (xs, None) \<Longrightarrow> set xs = ref_members db k"
  by (auto simp: on_set_def db_at_alive ref_members_def split: option.splits prod.splits
      redis_value.splits)

lemma ref_invD: "ref_inv db \<Longrightarrow> map_of db k = Some (RSet xs, t) \<Longrightarrow> distinct xs"
  unfolding ref_inv_def by blast

lemma ref_inv_update:
  assumes "ref_inv db" and "\<And>xs. v = RSet xs \<Longrightarrow> distinct xs"
    and "map_of db' = (map_of db)(k \<mapsto> (v, t))"
  shows "ref_inv db'"
  unfolding ref_inv_def
proof (intro allI impI)
  fix k' xs t'
  assume "map_of db' k' = Some (RSet xs, t')"
  with assms show "distinct xs"
    by (cases "k' = k") (auto dest: ref_invD)
qed

lemma on_set_distinct: "ref_inv db \<Longrightarrow> on_set now db k = (xs, er) \<Longrightarrow> distinct xs"
  by (cases "db_at now db k")
    (auto simp: on_set_def split: redis_value.splits dest: ref_invD [OF _ db_at_Some])

lemma put_alive: "ref_alive u db k' \<Longrightarrow> ref_alive u (put now k v db) k'"
  by (cases "db_at now db k") (auto simp: put_def ref_alive_def dest!: db_at_Some)

lemma put_members:
  "ref_members (put now k v db) k' =
     (if k' = k then (case v of RSet xs \<Rightarrow> set xs | _ \<Rightarrow> {}) else ref_members db k')"
  by (simp add: put_def ref_members_def split: redis_value.split)

lemma put_inv: "ref_inv db \<Longrightarrow> distinct xs \<Longrightarrow> ref_inv (put now k (RSet xs) db)"
  by (rule ref_inv_update [of db "RSet xs"]) (simp_all add: put_def)

interpretation reference: redis_client reference_client ref_inv ref_members ref_alive ref_strv ref_absent
proof unfold_locales
  fix s k e now n er s' err b t v life u and xs :: "string list"
  show "finite (ref_members s k)"
    by (simp add: ref_members_def split: option.splits prod.splits redis_value.splits)
  show "ref_strv now s k = Some v \<Longrightarrow> \<not> ref_absent now s k"
    by (cases "db_at now s k") (simp_all add: ref_strv_def ref_absent_def)
  assume i: "ref_inv s"
  { assume "cl_SAdd reference_client k e now s = ((n, er), s')"
    then have "s' = s \<or> (\<exists>xs. on_set now s k = (xs, None) \<and> e \<notin> set xs \<and> s' = put now k (RSet (e # xs)) s)"
      by (auto simp: reference_client_def split: prod.splits option.splits if_splits)
    then show "ref_inv s' \<and> (\<forall>k'. k' \<noteq> k \<longrightarrow> ref_members s' k' = ref_members s k') \<and>
        (\<forall>u k'. ref_alive u s k' \<longrightarrow> ref_alive u s' k')"
      using i on_set_distinct [OF i] by (auto simp: put_alive put_members intro!: put_inv) }
  show "b = (e \<in> ref_members s k)" if "ref_alive now s k"
    "cl_SIsMember reference_client k e now s = ((b, None), s')"
    using that on_set_alive [OF that(1)] by (auto simp: reference_client_def split: prod.splits)
  show "set xs = ref_members s k" if "ref_alive now s k"
    "cl_SMembers reference_client k now s = ((xs, None), s')"
    using that on_set_alive [OF that(1)] by (auto simp: reference_client_def)
  show "set xs = ref_members s k" if "ref_alive now s k"
    "cl_SScan reference_client k now s = ((None, xs, None), s')"
    using that on_set_alive [OF that(1)] by (auto simp: reference_client_def split: prod.splits)
  show "n = int (card (ref_members s k))" if "ref_alive now s k"
    "cl_SCard reference_client k now s = ((n, None), s')"
  proof -
    from that(2) obtain ys where "on_set now s k = (ys, None)" "n = int (length ys)"
      by (auto simp: reference_client_def split: prod.splits)
    then show ?thesis
      using on_set_alive [OF that(1)] on_set_distinct [OF i] distinct_card by metis
  qed
  show "n = (if e \<in> ref_members s k then 0 else 1) \<and> ref_members s' k = insert e (ref_members s k)"
    if "ref_alive now s k" "cl_SAdd reference_client k e now s = ((n, None), s')"
  proof -
    from that(2) obtain ys where ys: "on_set now s k = (ys, None)"
      and r: "n = (if e \<in> set ys then 0 else 1)" "s' = (if e \<in> set ys then s else put now k (RSet (e # ys)) s)"
      by (auto simp: reference_client_def split: prod.splits option.splits if_splits)
    show ?thesis
      using on_set_alive [OF that(1) ys] r by (auto simp: put_members insert_absorb)
  qed
  show "ref_members s' k = ref_members s k \<or> ref_members s' k = insert e (ref_members s k)"
    if "ref_alive now s k" "cl_SAdd reference_client k e now s = ((n, Some err), s')"
    using that by (auto simp: reference_client_def split: prod.splits option.splits if_splits)
  show "(now < t \<longrightarrow> ref_inv s' \<and> ref_members s' = ref_members s \<and>
        (\<forall>u<t. ref_alive u s k \<longrightarrow> ref_alive u s' k)) \<and>
      (\<forall>u k'. k' \<noteq> k \<longrightarrow> ref_alive u s k' \<longrightarrow> ref_alive u s' k')"
    if ex: "cl_ExpireAt reference_client k t now s = (er, s')"
  proof (cases "db_at now s k")
    case None
    then have "s' = s" using ex by (simp add: reference_client_def)
    then show ?thesis using i by blast
  next
    case (Some x)
    then obtain v t' where v: "map_of s k = Some (v, t')" "s' = AList.update k (v, Some t) s"
      using ex db_at_Some [OF Some] by (cases x) (auto simp: reference_client_def)
    then have "ref_inv s'"
      using i by (intro ref_inv_update [of s v s' k "Some t"]) (auto dest: ref_invD)
    with v show ?thesis by (auto simp: ref_members_def ref_alive_def fun_eq_iff)
  qed
  show "ref_inv s' \<and> (\<forall>u. er = None \<and> now \<le> u \<and> u < now + life \<and> ref_absent now s k \<longrightarrow> ref_strv u s' k = Some v) \<and>
      (\<forall>u k' w. now \<le> u \<and> (k' \<noteq> k \<or> \<not> ref_absent now s k) \<and> ref_strv u s k' = Some w \<longrightarrow> ref_strv u s' k' = Some w)"
    if "cl_SetNX reference_client k v life now s = (er, s')" "0 < life" "life mod Millisecond = 0"
    using that i ref_inv_update [OF i, of "RString v"]
    by (auto simp: reference_client_def ref_absent_def ref_strv_def db_at_def split: if_splits)
  show "ref_inv s' \<and> (\<forall>v. r = (v, None) \<longrightarrow> ref_strv now s k = Some v) \<and> (\<forall>u k'. ref_strv u s' k' = ref_strv u s k')"
    if "cl_Get reference_client k now s = (r, s')" for r
    using that i
    by (auto simp: reference_client_def ref_get_def ref_strv_def
        split: option.splits prod.splits redis_value.splits)
qed

text \<open>The lists of the reference server, on states where no list was given an expiration time.\<close>

definition ref_qinv :: "redis_db \<Rightarrow> bool" where
  "ref_qinv db \<longleftrightarrow> (\<forall>k xs t. map_of db k = Some (RList xs, t) \<longrightarrow> t = None)"

definition ref_items :: "redis_db \<Rightarrow> string \<Rightarrow> string list" where
  "ref_items db k = (case map_of db k of Some (RList xs, _) \<Rightarrow> xs | _ \<Rightarrow> [])"

lemma ref_qinvD: "ref_qinv db \<Longrightarrow> map_of db k = Some (RList xs, t) \<Longrightarrow> t = None"
  unfolding ref_qinv_def by blast

lemma on_list_ok:
  assumes "ref_qinv db" and "on_list now db k = (xs, None)"
  shows "xs = ref_items db k"
    and "ref_qinv (put now k (RList ys) db)"
    and "ref_items (put now k (RList ys) db) = (ref_items db)(k := ys)"
proof -
  have l: "db_at now db k = Some (RList zs, t) \<Longrightarrow> t = None" for zs t
    using ref_qinvD [OF assms(1) db_at_Some] .
  consider "db_at now db k = None" "xs = []" | "db_at now db k = Some (RList xs, None)"
    using assms(2) l
    by (auto simp: on_list_def split: option.splits prod.splits redis_value.splits)
  note c = this
  then show "xs = ref_items db k"
  proof cases
    case 1
    then have "\<nexists>zs. map_of db k = Some (RList zs, None)"
      by (auto simp: db_at_def split: option.splits prod.splits)
    with 1 show ?thesis
      using ref_qinvD [OF assms(1), of k]
      by (auto simp: ref_items_def split: option.splits prod.splits redis_value.splits)
  qed (auto simp: ref_items_def dest: db_at_Some)
  have p: "map_of (put now k (RList ys) db) = (map_of db)(k \<mapsto> (RList ys, None))"
    using c by cases (auto simp: put_def)
  show "ref_qinv (put now k (RList ys) db)"
    unfolding ref_qinv_def p using ref_qinvD [OF assms(1)] by (metis Pair_inject fun_upd_apply option.inject)
  show "ref_items (put now k (RList ys) db) = (ref_items db)(k := ys)"
    by (simp add: fun_eq_iff ref_items_def p)
qed

lemma ref_list_change_ok:
  assumes "ref_qinv db" and "ref_list_change f k now db = ((xs, None), db')"
  shows "xs = ref_items db k \<and> ref_qinv db' \<and> ref_items db' = (ref_items db)(k := f xs)"
proof -
  from assms(2) have o: "on_list now db k = (xs, None)" "db' = put now k (RList (f xs)) db"
    by (auto simp: ref_list_change_def split: prod.splits option.splits)
  from on_list_ok [OF assms(1) o(1)] o(2) show ?thesis by simp
qed

interpretation reference_q: redis_queue reference_client ref_qinv ref_items
proof unfold_locales
  fix s k v now n s' d timeout
  assume q: "ref_qinv s"
  show "ref_qinv s' \<and> ref_items s' = (ref_items s)(k := ref_items s k @ [v]) \<and>
      n = int (length (ref_items s k)) + 1"
    if "cl_RPush reference_client k v now s = ((n, None), s')"
  proof -
    from that obtain xs where "ref_list_change (\<lambda>xs. xs @ [v]) k now s = ((xs, None), s')"
      "n = int (length xs) + 1"
      by (auto simp: reference_client_def Let_def split: prod.splits)
    with ref_list_change_ok [OF q this(1)] show ?thesis by simp
  qed
  show "ref_qinv s' \<and> ref_items s' = (ref_items s)(k := remove1 v (ref_items s k))"
    if "cl_LRem reference_client k 1 v now s = (None, s')"
  proof -
    from that obtain xs where "ref_list_change (remove1 v) k now s = ((xs, None), s')"
      by (auto simp: reference_client_def split: prod.splits)
    from ref_list_change_ok [OF q this] show ?thesis by simp
  qed
  show "ref_qinv s' \<and> ref_items s k = v # ref_items s' k \<and> (\<forall>k'. k' \<noteq> k \<longrightarrow> ref_items s' k' = ref_items s k')"
    if "cl_LPop reference_client k now s = ((v, None), s')"
  proof -
    from that obtain xs where o: "on_list now s k = (v # xs, None)" "s' = put now k (RList xs) s"
      by (auto simp: reference_client_def split: prod.splits option.splits list.splits)
    from on_list_ok [OF q o(1)] o(2) show ?thesis by (auto simp: fun_upd_other)
  qed
  show "ref_qinv s' \<and> ref_items s k = ref_items s' k @ [v] \<and> ref_items s' d = v # ref_items s d"
    if "cl_BRPopLPush reference_client k d timeout now s = ((v, None), s')" "d \<noteq> k"
  proof -
    from that(1) obtain xs ys where o: "on_list now s k = (xs, None)" "xs \<noteq> []" "v = last xs"
      "ref_list_change (\<lambda>ys. v # ys) d now (put now k (RList (butlast xs)) s) = ((ys, None), s')"
      by (auto simp: reference_client_def split: prod.splits option.splits if_splits)
    note a = on_list_ok(1) [OF q o(1)] on_list_ok(2,3) [OF q o(1), of "butlast xs"]
    from ref_list_change_ok [OF a(2) o(4)] a(1,3) o(2,3) that(2) show ?thesis by auto
  qed
qed

definition ref_live :: "time \<Rightarrow> redis_db \<Rightarrow> string \<Rightarrow> string set" where
  "ref_live now db k = set (fst (on_set now db k))"

interpretation reference_reads: reading_cache "RedisCache_ops js reference_client" ref_inv "ref_live now" now
  by unfold_locales
    (auto simp: RedisCache_ops_def Redis_SetList_def Redis_SetToChan_def scan_to_chan_def reference_client_def
      ref_live_def Let_def split: prod.splits option.splits)

subsection \<open>Properties\<close>

text \<open>
  C23. With a client that keeps the documented behaviour of \<^verbatim>\<open>SETNX\<close> and \<^verbatim>\<open>GET\<close>, a \<^verbatim>\<open>TrySet\<close> on a free key that
  returns no error returns its own value; and in any sequence of calls of \<^verbatim>\<open>TrySet\<close> that follows,
  on this and on other keys, within the life of that value and at times that do not decrease, every
  call on the key that returns no error returns the value set first, also after calls that failed:
  at most one value is ever seen. Lives are positive and whole milliseconds.
\<close>

theorem redis_try_set_first_wins:
  assumes "redis_client cl I members alive strv absent" and "I s" and "absent now s k"
    and "0 < life" and "life mod Millisecond = 0" and "Redis_TrySet cl k v life now s = ((x, None), s1)"
    and "sorted (map call_time calls)"
    and "\<forall>c \<in> set calls. now \<le> call_time c \<and> call_time c < now + life \<and> 0 < call_life c \<and> call_life c mod Millisecond = 0"
    and "try_sets cl calls s1 = (rs, s2)"
  shows "x = v \<and> (\<forall>(c, r) \<in> set (zip calls rs). fst c = k \<longrightarrow> snd r = None \<longrightarrow> fst r = v)"
proof
  note f = redis_client.try_set_first [OF assms(1,2,4,5,3,6)]
  then show "x = v" by simp
  show "\<forall>(c, r) \<in> set (zip calls rs). fst c = k \<longrightarrow> snd r = None \<longrightarrow> fst r = v"
    using f by (intro redis_client.try_sets_taken [OF assms(1) _ _ assms(7-9)]) simp_all
qed

definition lock_calls :: "(string \<times> string \<times> duration \<times> time) list" where
  "lock_calls = [(''lock'', ''you'', Second, 9), (''other'', ''you'', Second, 9), (''lock'', ''them'', Second, 10)]"

theorem redis_try_set_first_wins_witness:
  "fst (try_sets reference_client lock_calls (snd (Redis_TrySet reference_client ''lock'' ''me'' Second 0 []))) =
     [(''me'', None), (''you'', None), (''me'', None)]"
proof -
  let ?s = "snd (Redis_TrySet reference_client ''lock'' ''me'' Second 0 [])"
  have r: "Redis_TrySet reference_client ''lock'' ''me'' Second 0 [] = ((''me'', None), ?s)"
    by (simp add: Redis_TrySet_def reference_client_def ref_get_def db_at_def Second_def)
  obtain x y z s2 where t: "try_sets reference_client lock_calls ?s = ([(x, None), (y, None), (z, None)], s2)" "y = ''you''"
    by (simp add: lock_calls_def Redis_TrySet_def reference_client_def ref_get_def db_at_def Second_def)
  have "ref_inv []" "ref_absent 0 [] ''lock''" by (simp_all add: ref_inv_def ref_absent_def db_at_def)
  from redis_try_set_first_wins [OF reference.redis_client_axioms this _ _ r _ _ t(1)]
  have "x = ''me'' \<and> z = ''me''"
    by (simp add: lock_calls_def call_time_def call_life_def Second_def Millisecond_def)
  with t show ?thesis by simp
qed

text \<open>
  On Redis, \<^verbatim>\<open>Pop\<close> takes the entry queued first while \<^verbatim>\<open>BlockingPopCopy\<close> takes the entry queued
  last, and copies it to the front of the destination.
\<close>

theorem redis_queue_order:
  assumes "redis_queue cl qinv items" and "qinv s" and "items s k = []"
    and "Redis_Queue cl k a t0 s = ((n, None), s1)" and "Redis_Queue cl k b t1 s1 = ((m, None), s2)"
  shows "(\<forall>v s3. Redis_Pop cl k t2 s2 = ((v, None), s3) \<longrightarrow> v = a \<and> items s3 k = [b]) \<and>
    (\<forall>v s3 d timeout. d \<noteq> k \<and> Redis_BlockingPopCopy cl k d timeout t2 s2 = ((v, None), s3) \<longrightarrow>
      v = b \<and> items s3 k = [a] \<and> items s3 d = b # items s d)"
  using redis_queue.queue_then_pop [OF assms(1,2,4,5,3)]
    redis_queue.queue_then_blocking_pop [OF assms(1,2,4,5,3)] by blast

definition ref_after :: redis_db where
  "ref_after = snd (Redis_Queue reference_client ''q'' ''two'' 0
     (snd (Redis_Queue reference_client ''q'' ''one'' 0 [])))"

theorem redis_queue_order_witness:
  "fst (Redis_Pop reference_client ''q'' 0 ref_after) = (''one'', None) \<and>
   fst (Redis_BlockingPopCopy reference_client ''q'' ''d'' 1 0 ref_after) = (''two'', None)"
proof -
  let ?s1 = "snd (Redis_Queue reference_client ''q'' ''one'' 0 [])"
  have q: "Redis_Queue reference_client ''q'' ''one'' 0 [] = ((1, None), ?s1)"
    "Redis_Queue reference_client ''q'' ''two'' 0 ?s1 = ((2, None), ref_after)"
    "ref_qinv []" "ref_items [] ''q'' = []"
    by (simp_all add: Redis_Queue_def reference_client_def ref_list_change_def on_list_def db_at_def
        put_def ref_after_def ref_qinv_def ref_items_def)
  obtain v s3 w s4 where
    p: "Redis_Pop reference_client ''q'' 0 ref_after = ((v, None), s3)"
    and b: "Redis_BlockingPopCopy reference_client ''q'' ''d'' 1 0 ref_after = ((w, None), s4)"
    by (simp add: Redis_Queue_def reference_client_def ref_list_change_def on_list_def db_at_def
        put_def ref_after_def Redis_Pop_def Redis_BlockingPopCopy_def)
  note o = redis_queue_order [OF reference_q.redis_queue_axioms q(3,4,1,2), of 0]
  have "v = ''one''" using conjunct1 [OF o, rule_format, OF p] by (rule conjunct1)
  moreover have "w = ''two''"
    using conjunct2 [OF o, rule_format, of "''d''", OF conjI, OF _ b] by simp
  ultimately have "v = ''one''" "w = ''two''" by simp_all
  with p b show ?thesis by simp
qed

end
