(* ===== verification/Known_Certificates.thy ===== *)
theory Known_Certificates
  imports Redis_Cache
begin

text \<open>
  \<^verbatim>\<open>storage/knowncertificates.go\<close>: the set of serial numbers known for one issuer and
  expiration date, kept in the remote cache under \<^verbatim>\<open>serials::<date>::<issuer>\<close>. The cache is the
  argument \<open>rc\<close> with its state threaded through, so that the same methods run on the mock and
  on Redis.

  The lemmas of the context \<open>set_cache\<close> hold for every cache that keeps the contract: a serial
  number is reported unknown once, and what \<^verbatim>\<open>Known\<close> returns is the set of what was inserted,
  without duplicates. The properties state this for the mock, where no call can fail, and for
  Redis with a client that keeps the documented behaviour of its commands.
\<close>

definition kSerials :: string where "kSerials = ''serials''"

record KnownCertificates =
  kc_expDate :: ExpDate
  kc_issuer :: Issuer
  expirySet :: bool

definition NewKnownCertificates :: "ExpDate \<Rightarrow> Issuer \<Rightarrow> KnownCertificates" where
  "NewKnownCertificates aExpDate aIssuer =
     \<lparr>kc_expDate = aExpDate, kc_issuer = aIssuer, expirySet = False\<rparr>"

definition kc_id :: "KnownCertificates \<Rightarrow> string list \<Rightarrow> string" where
  "kc_id kc params = ExpDate_ID (kc_expDate kc) @ concat params @ ''::'' @ Issuer_ID (kc_issuer kc)"

definition serialId :: "KnownCertificates \<Rightarrow> string list \<Rightarrow> string" where
  "serialId kc params = kSerials @ ''::'' @ kc_id kc params"

text \<open>The error of \<^verbatim>\<open>ExpireAt\<close> is only logged.\<close>

definition setExpiryFlag :: "'c RemoteCache \<Rightarrow> KnownCertificates \<Rightarrow> time \<Rightarrow> 'c \<Rightarrow> 'c run" where
  "setExpiryFlag rc kc now c =
     run_bind (rc_ExpireAt rc (serialId kc []) (ExpireTime (kc_expDate kc)) now c)
       (\<lambda>(err, c1). Done c1)"

definition WasUnknown ::
  "'c RemoteCache \<Rightarrow> KnownCertificates \<Rightarrow> Serial \<Rightarrow> time \<Rightarrow> 'c
    \<Rightarrow> (bool res \<times> KnownCertificates \<times> 'c) run" where
  "WasUnknown rc kc aSerial now c =
     run_bind (rc_SetInsert rc (serialId kc []) (BinaryString aSerial) now c)
       (\<lambda>((result, err), c1).
          case err of
            Some e \<Rightarrow> Done ((False, Some e), kc, c1)
          | None \<Rightarrow>
              (if \<not> expirySet kc
               then run_bind (setExpiryFlag rc kc now c1)
                      (\<lambda>c2. Done ((result, None), kc\<lparr>expirySet := True\<rparr>, c2))
               else Done ((result, None), kc, c1)))"

text \<open>An error of \<^verbatim>\<open>SetCardinality\<close> is only logged: the count next to it is returned.\<close>

definition Count :: "'c RemoteCache \<Rightarrow> KnownCertificates \<Rightarrow> time \<Rightarrow> 'c \<Rightarrow> (int \<times> 'c) run" where
  "Count rc kc now c =
     run_bind (rc_SetCardinality rc (serialId kc []) now c)
       (\<lambda>((count, err), c1). Done (count, c1))"

text \<open>
  The strings sent are collected in a map, whose keys are then read in some order. An error of
  \<^verbatim>\<open>SetToChan\<close> ends the process from the goroutine that runs it.
\<close>

definition Known :: "'c RemoteCache \<Rightarrow> KnownCertificates \<Rightarrow> time \<Rightarrow> 'c \<Rightarrow> (Serial list \<times> 'c) run" where
  "Known rc kc now c =
     run_bind (rc_SetToChan rc (serialId kc []) now c)
       (\<lambda>((strs, err), c1).
          case err of
            Some e \<Rightarrow> Fatal (''Error obtaining list of known certificates: '' @ err_text e)
          | None \<Rightarrow>
              Done (List.map_filter
                      (\<lambda>str. case NewSerialFromBinaryString str of Inl e \<Rightarrow> None | Inr bs \<Rightarrow> Some bs)
                      (remdups strs), c1))"

subsection \<open>Sequences of calls\<close>

text \<open>Consecutive calls of \<^verbatim>\<open>WasUnknown\<close>, each at its own time.\<close>

fun was_unknown_run ::
  "'c RemoteCache \<Rightarrow> KnownCertificates \<Rightarrow> (time \<times> Serial) list \<Rightarrow> 'c
    \<Rightarrow> (bool res list \<times> KnownCertificates \<times> 'c) run" where
  "was_unknown_run rc kc [] c = Done ([], kc, c)"
| "was_unknown_run rc kc ((now, s) # calls) c =
     run_bind (WasUnknown rc kc s now c)
       (\<lambda>(r, kc1, c1). run_bind (was_unknown_run rc kc1 calls c1)
          (\<lambda>(rs, kc2, c2). Done (r # rs, kc2, c2)))"

text \<open>The answers a set would give: whether each element is seen for the first time.\<close>

fun first_seen :: "'a set \<Rightarrow> 'a list \<Rightarrow> bool list" where
  "first_seen A [] = []"
| "first_seen A (x # xs) = (x \<notin> A) # first_seen (insert x A) xs"

definition serials_of :: "string set \<Rightarrow> Serial set" where
  "serials_of strs = {s. BinaryString s \<in> strs}"

lemma BinaryString_inject [simp]: "BinaryString s = BinaryString t \<longleftrightarrow> s = t"
  by (cases s; cases t) (simp add: BinaryString_def)

lemma BinaryString_surj: "BinaryString (Serial (bytes_of_string str)) = str"
  by (simp add: BinaryString_def)

lemma serials_of_insert [simp]:
  "serials_of (insert (BinaryString s) strs) = insert s (serials_of strs)"
  by (auto simp: serials_of_def)

lemma mem_serials_of [simp]: "s \<in> serials_of strs \<longleftrightarrow> BinaryString s \<in> strs"
  by (simp add: serials_of_def)

lemma known_decode:
  "List.map_filter (\<lambda>str. case NewSerialFromBinaryString str of Inl e \<Rightarrow> None | Inr bs \<Rightarrow> Some bs) strs
     = map (\<lambda>str. Serial (bytes_of_string str)) strs"
  by (simp add: NewSerialFromBinaryString_def NewSerialFromBytes_def List.map_filter_def)

lemma bytes_of_string_inject [simp]: "bytes_of_string a = bytes_of_string b \<longleftrightarrow> a = b"
  by (metis string_bytes_inverse)

lemma set_known_decode: "(\<lambda>str. Serial (bytes_of_string str)) ` strs = serials_of strs"
proof -
  have "s = Serial (bytes_of_string (BinaryString s))" for s
    by (cases s) (simp add: BinaryString_def)
  then show ?thesis by (force simp: serials_of_def BinaryString_surj)
qed

lemma serialId_expirySet [simp]: "serialId (kc\<lparr>expirySet := b\<rparr>) ps = serialId kc ps"
  by (simp add: serialId_def kc_id_def)

text \<open>
  The key of \<open>kc\<close> lives until \<open>t\<close> at least: no expiration time before \<open>t\<close> is in force.
\<close>

definition live_until ::
  "(time \<Rightarrow> 'c \<Rightarrow> string \<Rightarrow> bool) \<Rightarrow> KnownCertificates \<Rightarrow> time \<Rightarrow> 'c \<Rightarrow> bool" where
  "live_until alive kc t c \<longleftrightarrow> (\<forall>u < t. alive u c (serialId kc []))"

context set_cache
begin

lemma WasUnknown_ok:
  assumes "inv c" and "live_until alive kc (ExpireTime (kc_expDate kc)) c"
    and "now < ExpireTime (kc_expDate kc)"
    and "WasUnknown rc kc s now c = Done ((b, None), kc', c')"
  shows "b = (BinaryString s \<notin> members c (serialId kc []))"
    and "members c' (serialId kc []) = insert (BinaryString s) (members c (serialId kc []))"
    and "k' \<noteq> serialId kc [] \<Longrightarrow> members c' k' = members c k'"
    and "inv c'" and "live_until alive kc (ExpireTime (kc_expDate kc)) c'"
    and "kc' = kc\<lparr>expirySet := True\<rparr>"
proof -
  let ?k = "serialId kc []"
  let ?t = "ExpireTime (kc_expDate kc)"
  obtain c1 where c1: "rc_SetInsert rc ?k (BinaryString s) now c = Done ((b, None), c1)"
    and rest: "expirySet kc \<and> kc' = kc \<and> c' = c1 \<or>
      \<not> expirySet kc \<and> kc' = kc\<lparr>expirySet := True\<rparr> \<and> (\<exists>er. rc_ExpireAt rc ?k ?t now c1 = Done (er, c'))"
    using assms(4)
    by (auto simp: WasUnknown_def run_bind_Done setExpiryFlag_def
        split: option.splits if_splits prod.splits)
  have al: "alive now c ?k" using assms(2,3) by (simp add: live_until_def)
  note ins = insert_result [OF assms(1) al c1] insert_inv [OF assms(1) c1]
  have liv1: "live_until alive kc ?t c1"
    using assms(2) insert_alive [OF assms(1) c1] by (simp add: live_until_def)
  have "inv c' \<and> members c' = members c1 \<and> live_until alive kc ?t c'"
    using rest ins(2) liv1 expire_at [OF ins(2) _ assms(3)] by (force simp: live_until_def)
  with ins insert_frame [OF assms(1) c1]
  show "b = (BinaryString s \<notin> members c ?k)" "members c' ?k = insert (BinaryString s) (members c ?k)"
    "k' \<noteq> ?k \<Longrightarrow> members c' k' = members c k'" "inv c'" "live_until alive kc ?t c'"
    by simp_all
  show "kc' = kc\<lparr>expirySet := True\<rparr>" using rest by (cases kc) auto
qed

lemma Known_ok:
  assumes "inv c" and "alive now c (serialId kc [])" and "Known rc kc now c = Done (xs, c')"
  shows "set xs = serials_of (members c (serialId kc []))" and "distinct xs"
    and "length xs = card (members c (serialId kc []))"
proof -
  obtain strs where strs: "rc_SetToChan rc (serialId kc []) now c = Done ((strs, None), c')"
    and xs: "xs = map (\<lambda>str. Serial (bytes_of_string str)) (remdups strs)"
    using assms(3) by (auto simp: Known_def run_bind_Done known_decode split: option.splits)
  note s = to_chan_result [OF assms(1,2) strs]
  show "set xs = serials_of (members c (serialId kc []))" by (simp add: xs s set_known_decode)
  show "distinct xs" unfolding xs by (simp add: distinct_map inj_on_def)
  show "length xs = card (members c (serialId kc []))" by (simp add: xs s length_remdups_card_conv)
qed

lemma was_unknown_run_ok:
  assumes "inv c" and "live_until alive kc (ExpireTime (kc_expDate kc)) c"
    and "\<forall>(now, s) \<in> set calls. now < ExpireTime (kc_expDate kc)"
    and "was_unknown_run rc kc calls c = Done (rs, kc', c')" and "\<forall>r \<in> set rs. snd r = None"
  shows "map fst rs = first_seen (serials_of (members c (serialId kc []))) (map snd calls) \<and>
    serials_of (members c' (serialId kc [])) = serials_of (members c (serialId kc [])) \<union> snd ` set calls \<and>
    inv c' \<and> live_until alive kc (ExpireTime (kc_expDate kc)) c' \<and> serialId kc' [] = serialId kc []"
  using assms
proof (induction calls arbitrary: kc c rs)
  case Nil
  then show ?case by simp
next
  case (Cons call calls)
  obtain now s where call: "call = (now, s)" by fastforce
  from Cons.prems(4,5) call obtain b kc1 c1 rs' where
    w: "WasUnknown rc kc s now c = Done ((b, None), kc1, c1)"
    and r: "was_unknown_run rc kc1 calls c1 = Done (rs', kc', c')" and rs: "rs = (b, None) # rs'"
    by (auto simp: run_bind_Done)
  note ok = WasUnknown_ok [OF Cons.prems(1,2) _ w]
  have now: "now < ExpireTime (kc_expDate kc)" using Cons.prems(3) call by simp
  have "live_until alive kc1 (ExpireTime (kc_expDate kc1)) c1"
    using ok(5) [OF now] ok(6) [OF now] by (simp add: live_until_def)
  with Cons.IH [of c1 kc1 rs'] ok(1,2,4,6) [OF now] Cons.prems(3,5) call r rs show ?case
    by (auto simp: live_until_def)
qed

end

context redis_client
begin

lemma redis_is_set_cache: "set_cache (RedisCache_ops js cl) inv members alive"
  by unfold_locales

end

subsection \<open>On the mock no call fails\<close>

lemma WasUnknown_mock_total:
  "\<exists>b kc' c'. WasUnknown (MockRemoteCache_ops js) kc s now c = Done ((b, None), kc', c')"
  by (auto simp: WasUnknown_def setExpiryFlag_def MockRemoteCache_ops_def Mock_SetInsert_def
      Mock_ExpireAt_def Let_def)

lemma was_unknown_run_mock_total:
  "\<exists>rs kc' c'. was_unknown_run (MockRemoteCache_ops js) kc calls c = Done (rs, kc', c') \<and>
     (\<forall>r \<in> set rs. snd r = None)"
proof (induction calls arbitrary: kc c)
  case (Cons call calls)
  obtain now s where "call = (now, s)" by fastforce
  moreover obtain b kc1 c1 where "WasUnknown (MockRemoteCache_ops js) kc s now c = Done ((b, None), kc1, c1)"
    using WasUnknown_mock_total by blast
  moreover obtain rs kc' c' where "was_unknown_run (MockRemoteCache_ops js) kc1 calls c1 = Done (rs, kc', c')"
    "\<forall>r \<in> set rs. snd r = None" using Cons.IH by blast
  ultimately show ?case by simp
qed simp

lemma Known_mock_total: "\<exists>xs c'. Known (MockRemoteCache_ops js) kc now c = Done (xs, c')"
  by (simp add: Known_def MockRemoteCache_ops_def Mock_SetToChan_def Let_def)

lemma Count_mock:
  "mock_inv c \<Longrightarrow> \<exists>c'. Count (MockRemoteCache_ops js) kc now c =
     Done (int (card (mock_members c (serialId kc []))), c')"
  using data_at_sorted [of c "serialId kc []"]
  by (auto simp: Count_def MockRemoteCache_ops_def Mock_SetCardinality_def mock_members_def
      strict_sorted_iff distinct_card)

subsection \<open>Properties\<close>

text \<open>
  C7. On the mock, before the expiration date and while no earlier expiration is in force, calls
  of \<^verbatim>\<open>WasUnknown\<close> all succeed, each answers true exactly when its serial number is seen for the
  first time, and afterwards \<^verbatim>\<open>Known\<close> returns every serial number known before or passed to a
  call, once each, however often the cache repeats its elements, and \<^verbatim>\<open>Count\<close> returns their
  number.
\<close>

theorem known_certificates_on_mock:
  assumes "mock_inv c" and "\<And>u. u < ExpireTime (kc_expDate kc) \<Longrightarrow> mock_alive u c (serialId kc [])"
    and "\<forall>(now, s) \<in> set calls. now < ExpireTime (kc_expDate kc)" and "u < ExpireTime (kc_expDate kc)"
  shows "\<exists>rs kc' c' xs c'' d.
    was_unknown_run (MockRemoteCache_ops js) kc calls c = Done (rs, kc', c') \<and>
    rs = map (\<lambda>b. (b, None)) (first_seen (serials_of (mock_members c (serialId kc []))) (map snd calls)) \<and>
    Known (MockRemoteCache_ops js) kc' u c' = Done (xs, c'') \<and> distinct xs \<and>
    set xs = serials_of (mock_members c (serialId kc [])) \<union> snd ` set calls \<and>
    Count (MockRemoteCache_ops js) kc' u c' = Done (int (length xs), d)"
proof -
  obtain rs kc' c' where r: "was_unknown_run (MockRemoteCache_ops js) kc calls c = Done (rs, kc', c')"
    and n: "\<forall>r \<in> set rs. snd r = None" using was_unknown_run_mock_total by blast
  have live: "live_until mock_alive kc (ExpireTime (kc_expDate kc)) c"
    using assms(2) by (simp add: live_until_def)
  note ok = mock.was_unknown_run_ok [OF assms(1) live assms(3) r n]
  obtain xs c'' where k: "Known (MockRemoteCache_ops js) kc' u c' = Done (xs, c'')"
    using Known_mock_total by blast
  have al: "mock_alive u c' (serialId kc' [])" using ok assms(4) by (simp add: live_until_def)
  note kn = mock.Known_ok [OF _ al k]
  have "rs = map (\<lambda>b. (b, None)) (map fst rs)" using n by (simp add: map_idI prod_eq_iff)
  with ok have "rs = map (\<lambda>b. (b, None)) (first_seen (serials_of (mock_members c (serialId kc []))) (map snd calls))"
    by metis
  moreover have "set xs = serials_of (mock_members c (serialId kc [])) \<union> snd ` set calls"
    using ok kn(1) by simp
  moreover obtain d where "Count (MockRemoteCache_ops js) kc' u c' = Done (int (length xs), d)"
    using Count_mock [of c' js kc' u] kn(3) ok by auto
  ultimately show ?thesis using r k kn(2) ok by auto
qed

definition sample_kc :: KnownCertificates where
  "sample_kc = NewKnownCertificates (NewExpDateFromTime 63700000000000000000) (NewIssuerFromString ''ca'')"

lemma sample_kc_expires: "u < 1000 \<Longrightarrow> u < ExpireTime (kc_expDate sample_kc)"
  by (simp add: sample_kc_def NewKnownCertificates_def ExpireTime_def Hour_def)

lemma sample_kc_new: "\<not> expirySet sample_kc"
  by (simp add: sample_kc_def NewKnownCertificates_def)

theorem known_certificates_on_mock_witness:
  "\<exists>kc' c' xs c''. was_unknown_run (MockRemoteCache_ops sample_codec) sample_kc
      [(0, Serial [1]), (1, Serial [2]), (2, Serial [1])] NewMockRemoteCache
      = Done ([(True, None), (True, None), (False, None)], kc', c') \<and>
    Known (MockRemoteCache_ops sample_codec) kc' 3 c' = Done (xs, c'') \<and> set xs = {Serial [1], Serial [2]}"
proof -
  have "mock_members NewMockRemoteCache k = {}" "mock_alive u NewMockRemoteCache k" for u k
    by (simp_all add: mock_members_def data_at_def NewMockRemoteCache_def mock_alive_def)
  with known_certificates_on_mock [OF NewMockRemoteCache_inv, of sample_kc
      "[(0, Serial [1]), (1, Serial [2]), (2, Serial [1])]" 3 sample_codec]
  show ?thesis by (auto simp: sample_kc_expires serials_of_def insert_commute)
qed

text \<open>
  C8. The same on Redis, for every client that keeps the documented behaviour of its commands and
  for every sequence of calls that returned without an error: no serial number is reported
  unknown twice, none that was passed to a call is missing from \<^verbatim>\<open>Known\<close>, none is repeated.
\<close>

theorem known_certificates_on_redis:
  assumes "redis_client cl I members alive strv absent" and "I s"
    and "\<And>u. u < ExpireTime (kc_expDate kc) \<Longrightarrow> alive u s (serialId kc [])"
    and "\<forall>(now, x) \<in> set calls. now < ExpireTime (kc_expDate kc)" and "u < ExpireTime (kc_expDate kc)"
    and "was_unknown_run (RedisCache_ops js cl) kc calls s = Done (rs, kc', s')"
    and "\<forall>r \<in> set rs. snd r = None" and "Known (RedisCache_ops js cl) kc' u s' = Done (xs, s'')"
  shows "map fst rs = first_seen (serials_of (members s (serialId kc []))) (map snd calls) \<and>
    distinct xs \<and> set xs = serials_of (members s (serialId kc [])) \<union> snd ` set calls"
proof -
  note sc = redis_client.redis_is_set_cache [OF assms(1), of js]
  have live: "live_until alive kc (ExpireTime (kc_expDate kc)) s"
    using assms(3) by (simp add: live_until_def)
  note ok = set_cache.was_unknown_run_ok [OF sc assms(2) live assms(4,6,7)]
  have "alive u s' (serialId kc' [])" using ok assms(5) by (simp add: live_until_def)
  from set_cache.Known_ok [OF sc _ this assms(8)] ok show ?thesis by simp
qed

theorem known_certificates_on_redis_witness:
  "\<exists>rs kc' s' xs s''. was_unknown_run (RedisCache_ops sample_codec reference_client) sample_kc
      [(0, Serial [1]), (1, Serial [1])] [] = Done (rs, kc', s') \<and>
    Known (RedisCache_ops sample_codec reference_client) kc' 3 s' = Done (xs, s'') \<and>
    map fst rs = [True, False] \<and> set xs = {Serial [1]}"
proof -
  let ?ops = "RedisCache_ops sample_codec reference_client"
  let ?calls = "[(0, Serial [1]), (1, Serial [1])] :: (time \<times> Serial) list"
  note defs = WasUnknown_def setExpiryFlag_def RedisCache_ops_def Redis_SetInsert_def
    Redis_ExpireAt_def reference_client_def on_set_def db_at_def put_def Known_def
    Redis_SetToChan_def scan_to_chan_def
  have ex: "0 < ExpireTime (kc_expDate sample_kc)" "1 < ExpireTime (kc_expDate sample_kc)"
    "3 < ExpireTime (kc_expDate sample_kc)" by (simp_all add: sample_kc_expires)
  obtain rs kc' s' xs s'' where r: "was_unknown_run ?ops sample_kc ?calls [] = Done (rs, kc', s')"
    and n: "\<forall>r \<in> set rs. snd r = None" and k: "Known ?ops kc' 3 s' = Done (xs, s'')"
    using ex sample_kc_new by (simp add: defs)
  have h: "ref_inv []" "ref_alive u [] (serialId sample_kc [])" for u
    by (simp_all add: ref_inv_def ref_alive_def)
  have c: "\<forall>(now, x) \<in> set ?calls. now < ExpireTime (kc_expDate sample_kc)" using ex by simp
  have e: "serials_of (ref_members [] (serialId sample_kc [])) = {}"
    by (simp add: serials_of_def ref_members_def)
  have "first_seen {} (map snd ?calls) = [True, False]" "{} \<union> snd ` set ?calls = {Serial [1]}"
    by simp_all
  with known_certificates_on_redis [OF reference.redis_client_axioms h c ex(3) r n k]
  have f: "map fst rs = [True, False] \<and> set xs = {Serial [1]}" unfolding e by metis
  show ?thesis by (rule exI)+ (rule conjI [OF r conjI [OF k f]])
qed

end
