(* ===== verification/Issuer_Metadata.thy ===== *)
theory Issuer_Metadata
  imports Known_Certificates
begin

text \<open>
  \<^verbatim>\<open>storage/issuermetadata.go\<close>: the distinguished names and CRL distribution points seen for
  an issuer, kept in the remote cache under \<^verbatim>\<open>issuer::<id>\<close> and \<^verbatim>\<open>crl::<id>\<close>, with local sets
  that save repeated insertions. \<^verbatim>\<open>url.Parse\<close> is the argument \<open>up\<close>: of the URL it returns, the
  code uses the scheme and the text of \<^verbatim>\<open>String()\<close>. The read-write mutex guards the local sets
  only; the model runs one call at a time.

  The invariant \<open>meta_inv\<close> says that what the local sets call known is in the cache. On the
  mock it is kept, and one call records every http and https distribution point of the
  certificate and its issuer name. After a failed insertion it is broken, because the local
  set is extended before the insertion is tried: \<open>accumulate_never_retries\<close>.
\<close>

record url =
  Scheme :: string
  url_Host :: string
  url_Path :: string
  url_String :: string

type_synonym url_Parse = "string \<Rightarrow> go_error + url"

definition kIssuers :: string where "kIssuers = ''issuer''"
definition kCrls :: string where "kCrls = ''crl''"

record IssuerMetadata =
  im_issuer :: Issuer
  knownCrlDPs :: "string set"
  knownIssuerDNs :: "string set"
  knownExpDates :: "string set"

definition NewIssuerMetadata :: "Issuer \<Rightarrow> IssuerMetadata" where
  "NewIssuerMetadata aIssuer =
     \<lparr>im_issuer = aIssuer, knownCrlDPs = {}, knownIssuerDNs = {}, knownExpDates = {}\<rparr>"

definition im_id :: "IssuerMetadata \<Rightarrow> string" where
  "im_id im = Issuer_ID (im_issuer im)"

definition crlId :: "IssuerMetadata \<Rightarrow> string" where
  "crlId im = kCrls @ ''::'' @ im_id im"

definition issuersId :: "IssuerMetadata \<Rightarrow> string" where
  "issuersId im = kIssuers @ ''::'' @ im_id im"

definition addCRL ::
  "url_Parse \<Rightarrow> 'c RemoteCache \<Rightarrow> IssuerMetadata \<Rightarrow> string \<Rightarrow> time \<Rightarrow> 'c
    \<Rightarrow> (go_error option \<times> 'c) run" where
  "addCRL up rc im aCRL now c =
     (case up (strings_TrimSpace aCRL) of
        Inl err \<Rightarrow> Done (None, c)
      | Inr url \<Rightarrow>
          (if Scheme url = ''ldap'' \<or> Scheme url = ''ldaps'' then Done (None, c)
           else if Scheme url \<noteq> ''http'' \<and> Scheme url \<noteq> ''https'' then Done (None, c)
           else
             run_bind (rc_SetInsert rc (crlId im) (url_String url) now c)
               (\<lambda>((result, err), c1). Done (err, c1))))"

definition addIssuerDN ::
  "'c RemoteCache \<Rightarrow> IssuerMetadata \<Rightarrow> string \<Rightarrow> time \<Rightarrow> 'c \<Rightarrow> (go_error option \<times> 'c) run" where
  "addIssuerDN rc im aIssuerDN now c =
     run_bind (rc_SetInsert rc (issuersId im) aIssuerDN now c)
       (\<lambda>((result, err), c1). Done (err, c1))"

text \<open>The loop over the distribution points, up to the first error.\<close>

fun accumulate_dps ::
  "url_Parse \<Rightarrow> 'c RemoteCache \<Rightarrow> IssuerMetadata \<Rightarrow> string list \<Rightarrow> time \<Rightarrow> 'c
    \<Rightarrow> (go_error option \<times> IssuerMetadata \<times> 'c) run" where
  "accumulate_dps up rc im [] now c = Done (None, im, c)"
| "accumulate_dps up rc im (dp # dps) now c =
     (if dp \<in> knownCrlDPs im then accumulate_dps up rc im dps now c
      else
        (let im1 = im\<lparr>knownCrlDPs := insert dp (knownCrlDPs im)\<rparr>
         in run_bind (addCRL up rc im1 dp now c)
              (\<lambda>(err, c1).
                 case err of
                   Some e \<Rightarrow>
                     Done (Some (Errorf (''Could not accumulate DP '' @ im_id im1 @ '': '' @ err_text e)),
                           im1, c1)
                 | None \<Rightarrow> accumulate_dps up rc im1 dps now c1)))"

definition Accumulate ::
  "url_Parse \<Rightarrow> 'c RemoteCache \<Rightarrow> IssuerMetadata \<Rightarrow> Certificate \<Rightarrow> time \<Rightarrow> 'c
    \<Rightarrow> (bool res \<times> IssuerMetadata \<times> 'c) run" where
  "Accumulate up rc im aCert now c =
     (let expDate = NewExpDateFromTime (NotAfter aCert);
          dn = cert_Issuer aCert;
          seenExpDateBefore = (ExpDate_ID expDate \<in> knownExpDates im);
          seenIssuerDn = (dn \<in> knownIssuerDNs im);
          im1 = (if \<not> seenExpDateBefore
                 then im\<lparr>knownExpDates := insert (ExpDate_ID expDate) (knownExpDates im)\<rparr> else im)
      in run_bind (accumulate_dps up rc im1 (CRLDistributionPoints aCert) now c)
           (\<lambda>(err, im2, c2).
              case err of
                Some e \<Rightarrow> Done ((seenExpDateBefore, Some e), im2, c2)
              | None \<Rightarrow>
                  (if \<not> seenIssuerDn then
                     (let im3 = im2\<lparr>knownIssuerDNs := insert dn (knownIssuerDNs im2)\<rparr>
                      in run_bind (addIssuerDN rc im3 dn now c2)
                           (\<lambda>(err, c3). Done ((seenExpDateBefore, err), im3, c3)))
                   else Done ((seenExpDateBefore, None), im2, c2))))"

definition Issuers ::
  "'c RemoteCache \<Rightarrow> IssuerMetadata \<Rightarrow> time \<Rightarrow> 'c \<Rightarrow> (string list \<times> 'c) run" where
  "Issuers rc im now c =
     run_bind (rc_SetList rc (issuersId im) now c)
       (\<lambda>((strList, err), c1).
          case err of
            Some e \<Rightarrow> Fatal (''Error obtaining list of issuers: '' @ err_text e)
          | None \<Rightarrow> Done (strList, c1))"

definition CRLs ::
  "'c RemoteCache \<Rightarrow> IssuerMetadata \<Rightarrow> time \<Rightarrow> 'c \<Rightarrow> (string list \<times> 'c) run" where
  "CRLs rc im now c =
     run_bind (rc_SetList rc (crlId im) now c)
       (\<lambda>((strList, err), c1).
          case err of
            Some e \<Rightarrow> Fatal (''Error obtaining list of CRLs: '' @ err_text e)
          | None \<Rightarrow> Done (strList, c1))"

subsection \<open>What is recorded\<close>

text \<open>The URLs of distribution points that are kept: those that parse and are http or https.\<close>

definition http_url :: "url_Parse \<Rightarrow> string \<Rightarrow> string option" where
  "http_url up dp =
     (case up (strings_TrimSpace dp) of
        Inl err \<Rightarrow> None
      | Inr u \<Rightarrow> (if Scheme u = ''http'' \<or> Scheme u = ''https'' then Some (url_String u) else None))"

definition http_urls :: "url_Parse \<Rightarrow> string set \<Rightarrow> string set" where
  "http_urls up dps = {u. \<exists>dp \<in> dps. http_url up dp = Some u}"

lemma http_urls_Un: "http_urls up (A \<union> B) = http_urls up A \<union> http_urls up B"
  by (auto simp: http_urls_def)

lemma http_urls_insert: "http_urls up (insert dp A) = http_urls up {dp} \<union> http_urls up A"
  by (auto simp: http_urls_def)

lemma addCRL_cases:
  "addCRL up rc im dp now c =
     (case http_url up dp of
        None \<Rightarrow> Done (None, c)
      | Some u \<Rightarrow> run_bind (rc_SetInsert rc (crlId im) u now c) (\<lambda>((result, err), c1). Done (err, c1)))"
  by (auto simp: addCRL_def http_url_def split: sum.split)

lemma im_keys_simps [simp]:
  "crlId (im\<lparr>knownCrlDPs := d\<rparr>) = crlId im" "crlId (im\<lparr>knownIssuerDNs := n\<rparr>) = crlId im"
  "crlId (im\<lparr>knownExpDates := e\<rparr>) = crlId im"
  "issuersId (im\<lparr>knownCrlDPs := d\<rparr>) = issuersId im"
  "issuersId (im\<lparr>knownIssuerDNs := n\<rparr>) = issuersId im"
  "issuersId (im\<lparr>knownExpDates := e\<rparr>) = issuersId im"
  by (simp_all add: crlId_def issuersId_def im_id_def)

lemma crl_key_neq: "crlId im \<noteq> issuersId im'"
  by (simp add: crlId_def issuersId_def kCrls_def kIssuers_def)

text \<open>The local sets never run ahead of the cache.\<close>

definition meta_inv ::
  "url_Parse \<Rightarrow> ('c \<Rightarrow> string \<Rightarrow> string set) \<Rightarrow> IssuerMetadata \<Rightarrow> 'c \<Rightarrow> bool" where
  "meta_inv up members im c \<longleftrightarrow>
     http_urls up (knownCrlDPs im) \<subseteq> members c (crlId im) \<and>
     knownIssuerDNs im \<subseteq> members c (issuersId im)"

context set_cache
begin

text \<open>The frame of a run of insertions: times at which keys are alive stay so.\<close>

lemma addCRL_ok:
  assumes "inv c" "alive now c (crlId im)" "addCRL up rc im dp now c = Done (None, c')"
  shows "inv c'" and "alive u c k \<Longrightarrow> alive u c' k"
    and "members c' (crlId im) = members c (crlId im) \<union> http_urls up {dp}"
    and "k \<noteq> crlId im \<Longrightarrow> members c' k = members c k"
proof -
  have "inv c' \<and> (alive u c k \<longrightarrow> alive u c' k) \<and>
    members c' (crlId im) = members c (crlId im) \<union> http_urls up {dp} \<and>
    (k \<noteq> crlId im \<longrightarrow> members c' k = members c k)"
  proof (cases "http_url up dp")
    case None
    with assms show ?thesis by (simp add: addCRL_cases http_urls_def)
  next
    case (Some x)
    with assms(3) obtain b where i: "rc_SetInsert rc (crlId im) x now c = Done ((b, None), c')"
      by (auto simp: addCRL_cases run_bind_Done)
    show ?thesis
      using insert_inv [OF assms(1) i] insert_result [OF assms(1,2) i] insert_frame [OF assms(1) i]
        insert_alive [OF assms(1) i] Some by (auto simp: http_urls_def)
  qed
  then show "inv c'" "alive u c k \<Longrightarrow> alive u c' k"
    "members c' (crlId im) = members c (crlId im) \<union> http_urls up {dp}"
    "k \<noteq> crlId im \<Longrightarrow> members c' k = members c k" by blast+
qed

lemma accumulate_dps_ok:
  assumes "inv c" "alive now c (crlId im)" "http_urls up (knownCrlDPs im) \<subseteq> members c (crlId im)"
    and "accumulate_dps up rc im dps now c = Done (None, im', c')"
  shows "inv c' \<and> (alive u c k \<longrightarrow> alive u c' k) \<and>
    im' = im\<lparr>knownCrlDPs := knownCrlDPs im \<union> set dps\<rparr> \<and>
    members c' (crlId im) = members c (crlId im) \<union> http_urls up (set dps) \<and>
    (k \<noteq> crlId im \<longrightarrow> members c' k = members c k)"
  using assms
proof (induction dps arbitrary: im c)
  case Nil
  then show ?case by (simp add: http_urls_def)
next
  case (Cons dp dps)
  show ?case
  proof (cases "dp \<in> knownCrlDPs im")
    case True
    then have "http_urls up {dp} \<subseteq> members c (crlId im)"
      using Cons.prems(3) by (auto simp: http_urls_def)
    moreover have "knownCrlDPs im \<union> set (dp # dps) = knownCrlDPs im \<union> set dps" using True by auto
    moreover have "accumulate_dps up rc im dps now c = Done (None, im', c')"
      using True Cons.prems(4) by simp
    note Cons.IH [OF Cons.prems(1-3) this]
    ultimately show ?thesis
      unfolding list.set http_urls_insert [of up dp "set dps"] by (metis Un_assoc Un_absorb2)
  next
    case False
    let ?im = "im\<lparr>knownCrlDPs := insert dp (knownCrlDPs im)\<rparr>"
    from False Cons.prems(4) obtain c1 where a: "addCRL up rc ?im dp now c = Done (None, c1)"
      and r: "accumulate_dps up rc ?im dps now c1 = Done (None, im', c')"
      by (auto simp: Let_def run_bind_Done split: option.splits)
    note ok = addCRL_ok [of c now ?im, OF Cons.prems(1) _ a, simplified, OF Cons.prems(2)]
    have "http_urls up (knownCrlDPs ?im) \<subseteq> members c1 (crlId ?im)"
      using ok(3) Cons.prems(3) http_urls_insert [of up dp "knownCrlDPs im"] by auto
    from Cons.IH [OF ok(1) _ this r] ok Cons.prems(2) show ?thesis
      using http_urls_insert [of up dp "set dps"] by (simp add: Un_assoc)
  qed
qed

lemma Accumulate_ok:
  assumes "inv c" "alive now c (crlId im)" "alive now c (issuersId im)" "meta_inv up members im c"
    and "Accumulate up rc im cert now c = Done ((seen, None), im', c')"
  shows "seen = (ExpDate_ID (NewExpDateFromTime (NotAfter cert)) \<in> knownExpDates im) \<and> inv c' \<and>
    meta_inv up members im' c' \<and> im_issuer im' = im_issuer im \<and>
    ExpDate_ID (NewExpDateFromTime (NotAfter cert)) \<in> knownExpDates im' \<and>
    members c' (crlId im) = members c (crlId im) \<union> http_urls up (set (CRLDistributionPoints cert)) \<and>
    members c' (issuersId im) = insert (cert_Issuer cert) (members c (issuersId im)) \<and>
    (k \<noteq> crlId im \<and> k \<noteq> issuersId im \<longrightarrow> members c' k = members c k) \<and>
    (alive u c k \<longrightarrow> alive u c' k)"
proof -
  let ?e = "ExpDate_ID (NewExpDateFromTime (NotAfter cert))" and ?dn = "cert_Issuer cert"
  define im1 where "im1 = im\<lparr>knownExpDates := insert ?e (knownExpDates im)\<rparr>"
  have im1: "im1 = (if ?e \<notin> knownExpDates im then im\<lparr>knownExpDates := insert ?e (knownExpDates im)\<rparr> else im)"
    by (simp add: im1_def insert_absorb)
  from assms(5) obtain im2 c2 where d: "accumulate_dps up rc im1 (CRLDistributionPoints cert) now c = Done (None, im2, c2)"
    and s: "seen = (?e \<in> knownExpDates im)"
    and rest: "?dn \<in> knownIssuerDNs im \<and> im' = im2 \<and> c' = c2 \<or>
      ?dn \<notin> knownIssuerDNs im \<and> im' = im2\<lparr>knownIssuerDNs := insert ?dn (knownIssuerDNs im2)\<rparr> \<and>
        (\<exists>b. rc_SetInsert rc (issuersId im') ?dn now c2 = Done ((b, None), c'))"
    unfolding Accumulate_def Let_def im1 [symmetric]
    by (auto simp: run_bind_Done addIssuerDN_def split: option.splits if_splits)
  have m: "http_urls up (knownCrlDPs im1) \<subseteq> members c (crlId im1)"
    using assms(4) by (simp add: meta_inv_def im1_def)
  note ok = accumulate_dps_ok [OF assms(1) _ m d]
  have keys: "crlId im1 = crlId im" "issuersId im1 = issuersId im" by (simp_all add: im1_def)
  have a2: "alive now c2 (issuersId im)" and i2: "inv c2"
    and c2: "members c2 (crlId im) = members c (crlId im) \<union> http_urls up (set (CRLDistributionPoints cert))"
      "\<And>k. k \<noteq> crlId im \<Longrightarrow> members c2 k = members c k" "\<And>u k. alive u c k \<Longrightarrow> alive u c2 k"
    and im2: "im2 = im1\<lparr>knownCrlDPs := knownCrlDPs im1 \<union> set (CRLDistributionPoints cert)\<rparr>"
    using ok assms(2,3) by (simp_all add: keys)
  have k': "crlId im' = crlId im" "issuersId im' = issuersId im"
    using rest keys by (auto simp: im2)
  have ins: "inv c' \<and> members c' (issuersId im) = insert ?dn (members c (issuersId im)) \<and>
      (k \<noteq> issuersId im \<longrightarrow> members c' k = members c2 k) \<and> (alive u c2 k \<longrightarrow> alive u c' k)" for k u
    using rest
  proof (elim disjE conjE exE)
    assume "?dn \<in> knownIssuerDNs im" "c' = c2"
    then show ?thesis
      using i2 assms(4) c2(2) [of "issuersId im"] crl_key_neq [of im im]
      by (auto simp: meta_inv_def insert_absorb)
  next
    fix b
    assume "rc_SetInsert rc (issuersId im') ?dn now c2 = Done ((b, None), c')"
    then have i: "rc_SetInsert rc (issuersId im) ?dn now c2 = Done ((b, None), c')"
      by (simp add: k')
    show ?thesis
      using insert_inv [OF i2 i] insert_result [OF i2 a2 i] insert_frame [OF i2 i]
        insert_alive [OF i2 i] c2(2) [of "issuersId im"] crl_key_neq [of im im] by auto
  qed
  have "members c' (crlId im) = members c2 (crlId im)" using ins [of "crlId im"] crl_key_neq by simp
  moreover have "knownCrlDPs im' = knownCrlDPs im \<union> set (CRLDistributionPoints cert)"
    "knownIssuerDNs im' \<subseteq> insert ?dn (knownIssuerDNs im)" "im_issuer im' = im_issuer im"
    "?e \<in> knownExpDates im'"
    using rest by (auto simp: im2 im1_def)
  ultimately show ?thesis
    using s ins c2 assms(4) unfolding meta_inv_def k'
    by (auto simp: http_urls_Un)
qed

end

subsection \<open>Calls that change nothing, and the mock\<close>

lemma accumulate_dps_known:
  "set dps \<subseteq> knownCrlDPs im \<Longrightarrow> accumulate_dps up rc im dps now c = Done (None, im, c)"
  by (induction dps) auto

lemma Accumulate_known:
  assumes "set (CRLDistributionPoints cert) \<subseteq> knownCrlDPs im" "cert_Issuer cert \<in> knownIssuerDNs im"
    and "ExpDate_ID (NewExpDateFromTime (NotAfter cert)) \<in> knownExpDates im"
  shows "Accumulate up rc im cert now c = Done ((True, None), im, c)"
  using assms by (simp add: Accumulate_def Let_def accumulate_dps_known)

lemma accumulate_dps_knows:
  "accumulate_dps up rc im dps now c = Done (None, im', c') \<Longrightarrow>
   knownCrlDPs im \<union> set dps = knownCrlDPs im' \<and> knownIssuerDNs im' = knownIssuerDNs im \<and>
   knownExpDates im' = knownExpDates im"
proof (induction dps arbitrary: im c)
  case (Cons dp dps)
  show ?case
  proof (cases "dp \<in> knownCrlDPs im")
    case True
    with Cons.IH [of im c] Cons.prems show ?thesis by auto
  next
    case False
    with Cons.prems Cons.IH show ?thesis
      by (fastforce simp: Let_def run_bind_Done split: option.splits)
  qed
qed simp

lemma Accumulate_knows:
  assumes "Accumulate up rc im cert now c = Done ((seen, None), im', c')"
  shows "Accumulate up rc im' cert now' d = Done ((True, None), im', d)"
proof -
  let ?e = "ExpDate_ID (NewExpDateFromTime (NotAfter cert))"
  define im1 where "im1 = (if ?e \<notin> knownExpDates im
    then im\<lparr>knownExpDates := insert ?e (knownExpDates im)\<rparr> else im)"
  have e: "?e \<in> knownExpDates im1" "knownIssuerDNs im1 = knownIssuerDNs im" by (auto simp: im1_def)
  from assms obtain im2 c2 where
    d: "accumulate_dps up rc im1 (CRLDistributionPoints cert) now c = Done (None, im2, c2)"
    and rest: "cert_Issuer cert \<in> knownIssuerDNs im \<and> im' = im2 \<or>
      im' = im2\<lparr>knownIssuerDNs := insert (cert_Issuer cert) (knownIssuerDNs im2)\<rparr>"
    unfolding Accumulate_def Let_def im1_def [symmetric]
    by (auto simp: run_bind_Done split: option.splits if_splits)
  show ?thesis
    by (rule Accumulate_known) (use rest accumulate_dps_knows [OF d] e in auto)
qed

lemma mock_insert_no_error:
  "\<exists>b c'. rc_SetInsert (MockRemoteCache_ops js) k e now c = Done ((b, None), c')"
  by (auto simp: MockRemoteCache_ops_def Mock_SetInsert_def Let_def)

lemma accumulate_dps_mock_total:
  "\<exists>im' c'. accumulate_dps up (MockRemoteCache_ops js) im dps now c = Done (None, im', c')"
proof (induction dps arbitrary: im c)
  case (Cons dp dps)
  let ?im = "im\<lparr>knownCrlDPs := insert dp (knownCrlDPs im)\<rparr>"
  obtain c1 where "addCRL up (MockRemoteCache_ops js) ?im dp now c = Done (None, c1)"
  proof (cases "http_url up dp")
    case None
    then show ?thesis using that by (simp add: addCRL_cases)
  next
    case (Some u)
    then show ?thesis
      using that mock_insert_no_error [of js "crlId ?im" u now c] by (auto simp: addCRL_cases)
  qed
  then show ?case using Cons.IH by (simp add: Let_def)
qed simp

lemma Accumulate_mock_total:
  "\<exists>seen im' c'. Accumulate up (MockRemoteCache_ops js) im cert now c = Done ((seen, None), im', c')"
proof -
  let ?e = "ExpDate_ID (NewExpDateFromTime (NotAfter cert))"
  define im1 where "im1 = (if ?e \<notin> knownExpDates im
    then im\<lparr>knownExpDates := insert ?e (knownExpDates im)\<rparr> else im)"
  obtain im2 c2 where d:
    "accumulate_dps up (MockRemoteCache_ops js) im1 (CRLDistributionPoints cert) now c = Done (None, im2, c2)"
    using accumulate_dps_mock_total by blast
  let ?im3 = "im2\<lparr>knownIssuerDNs := insert (cert_Issuer cert) (knownIssuerDNs im2)\<rparr>"
  obtain b c3 where
    "rc_SetInsert (MockRemoteCache_ops js) (issuersId ?im3) (cert_Issuer cert) now c2 = Done ((b, None), c3)"
    using mock_insert_no_error by blast
  with d show ?thesis
    unfolding Accumulate_def Let_def im1_def [symmetric] by (simp add: addIssuerDN_def)
qed

subsection \<open>Properties\<close>

text \<open>
  C9. On the mock, with local sets that do not run ahead of it, \<^verbatim>\<open>Accumulate\<close> succeeds: the CRL set
  of the issuer gains exactly the URLs of the certificate's distribution points that parse with
  scheme http or https, the name set gains the issuer's name, nothing else changes, the local
  sets still do not run ahead, and the answer says whether the expiration date had been seen.
  A second call with the same certificate answers true and changes nothing.
\<close>

theorem accumulate_on_mock:
  assumes "mock_inv c" and "meta_inv up mock_members im c"
    and "mock_alive now c (crlId im)" and "mock_alive now c (issuersId im)"
  shows "\<exists>im' c'. Accumulate up (MockRemoteCache_ops js) im cert now c =
      Done ((ExpDate_ID (NewExpDateFromTime (NotAfter cert)) \<in> knownExpDates im, None), im', c') \<and>
    mock_inv c' \<and> meta_inv up mock_members im' c' \<and>
    mock_members c' = (mock_members c)
      (crlId im := mock_members c (crlId im) \<union> http_urls up (set (CRLDistributionPoints cert)),
       issuersId im := insert (cert_Issuer cert) (mock_members c (issuersId im))) \<and>
    Accumulate up (MockRemoteCache_ops js) im' cert now' c' = Done ((True, None), im', c')"
proof -
  obtain seen im' c' where a: "Accumulate up (MockRemoteCache_ops js) im cert now c = Done ((seen, None), im', c')"
    using Accumulate_mock_total by blast
  note ok = mock.Accumulate_ok [OF assms(1,3,4,2) a]
  have "mock_members c' = (mock_members c)
      (crlId im := mock_members c (crlId im) \<union> http_urls up (set (CRLDistributionPoints cert)),
       issuersId im := insert (cert_Issuer cert) (mock_members c (issuersId im)))"
  proof
    fix k
    show "mock_members c' k = ((mock_members c)
      (crlId im := mock_members c (crlId im) \<union> http_urls up (set (CRLDistributionPoints cert)),
       issuersId im := insert (cert_Issuer cert) (mock_members c (issuersId im)))) k"
      using ok [of k 0] crl_key_neq [of im im] by simp
  qed
  then show ?thesis
    using a ok Accumulate_knows [OF a]
    by (intro exI [of _ im'] exI [of _ c'] conjI) simp_all
qed

definition sample_up :: url_Parse where
  "sample_up s = (if strings_HasPrefix s ''http:''
     then Inr \<lparr>Scheme = ''http'', url_Host = [], url_Path = [], url_String = s\<rparr>
     else Inl (StdError ''url.Error''))"

definition sample_leaf :: Certificate where
  "sample_leaf = (sample_cert [])\<lparr>CRLDistributionPoints := ['' http:/a'', ''ldap:/b''], cert_Issuer := ''CN=x''\<rparr>"

definition sample_im :: IssuerMetadata where
  "sample_im = NewIssuerMetadata (NewIssuerFromString ''ca'')"

theorem accumulate_on_mock_witness:
  "\<exists>im' c'. Accumulate sample_up (MockRemoteCache_ops sample_codec) sample_im sample_leaf 0 NewMockRemoteCache =
      Done ((False, None), im', c') \<and>
    mock_members c' ''crl::ca'' = {''http:/a''} \<and> mock_members c' ''issuer::ca'' = {''CN=x''}"
proof -
  have m: "mock_members NewMockRemoteCache k = {}" "mock_alive u NewMockRemoteCache k" for u k
    by (simp_all add: mock_members_def data_at_def NewMockRemoteCache_def mock_alive_def)
  have i: "meta_inv sample_up mock_members sample_im NewMockRemoteCache"
    by (simp add: meta_inv_def sample_im_def NewIssuerMetadata_def http_urls_def)
  have "http_url sample_up '' http:/a'' = Some ''http:/a''" "http_url sample_up ''ldap:/b'' = None"
    by code_simp+
  then have h: "http_urls sample_up (set (CRLDistributionPoints sample_leaf)) = {''http:/a''}"
    by (auto simp: http_urls_def sample_leaf_def)
  have k: "crlId sample_im = ''crl::ca''" "issuersId sample_im = ''issuer::ca''"
    "cert_Issuer sample_leaf = ''CN=x''" "knownExpDates sample_im = {}"
    by (simp_all add: crlId_def issuersId_def im_id_def sample_im_def NewIssuerMetadata_def kCrls_def
        kIssuers_def sample_leaf_def)
  obtain im' c' where "Accumulate sample_up (MockRemoteCache_ops sample_codec) sample_im sample_leaf 0 NewMockRemoteCache =
      Done ((False, None), im', c')"
    and "mock_members c' = (\<lambda>k. {})(''crl::ca'' := {''http:/a''}, ''issuer::ca'' := {''CN=x''})"
    using accumulate_on_mock [OF NewMockRemoteCache_inv i m(2) m(2), of sample_codec sample_leaf 0 0]
    unfolding k h m by auto
  then show ?thesis by simp
qed

text \<open>
  C39. A distribution point whose insertion failed is not tried again. Let the certificate have one
  distribution point, an HTTP URL not seen yet, and an issuer name seen before, over any cache whose
  insertion of that URL fails: \<^verbatim>\<open>Accumulate\<close> returns the error, but has put the distribution point into
  its local set, so that each later call for the same certificate, in whatever state the cache is then,
  succeeds without touching the cache.
\<close>

theorem accumulate_never_retries:
  assumes "CRLDistributionPoints cert = [dp]" and "dp \<notin> knownCrlDPs im" and "http_url up dp = Some u"
    and "cert_Issuer cert \<in> knownIssuerDNs im"
    and "rc_SetInsert rc (crlId im) u now c = Done ((b, Some e), c1)"
  shows "\<exists>seen msg im'. Accumulate up rc im cert now c = Done ((seen, Some (Errorf msg)), im', c1) \<and>
    (\<forall>now' d. Accumulate up rc im' cert now' d = Done ((True, None), im', d))"
proof -
  let ?e = "ExpDate_ID (NewExpDateFromTime (NotAfter cert))"
  define im1 where "im1 = (if ?e \<notin> knownExpDates im
    then im\<lparr>knownExpDates := insert ?e (knownExpDates im)\<rparr> else im)"
  have im1: "?e \<in> knownExpDates im1" "knownIssuerDNs im1 = knownIssuerDNs im"
    "knownCrlDPs im1 = knownCrlDPs im" "crlId im1 = crlId im" by (auto simp: im1_def)
  let ?im = "im1\<lparr>knownCrlDPs := insert dp (knownCrlDPs im1)\<rparr>"
  have "\<exists>msg. accumulate_dps up rc im1 [dp] now c = Done (Some (Errorf msg), ?im, c1)"
    using assms by (simp add: im1 addCRL_cases Let_def)
  then have "\<exists>seen msg. Accumulate up rc im cert now c = Done ((seen, Some (Errorf msg)), ?im, c1)"
    unfolding Accumulate_def Let_def im1_def [symmetric] using assms(1) by auto
  moreover have "Accumulate up rc ?im cert now' d = Done ((True, None), ?im, d)" for now' d
    by (rule Accumulate_known) (use assms im1 in simp_all)
  ultimately show ?thesis by blast
qed

definition down_client :: "redis_db redis_client_ops" where
  "down_client = reference_client\<lparr>cl_SAdd := \<lambda>k e now db. ((0, Some (ExtError ''i/o timeout'')), db)\<rparr>"

theorem accumulate_never_retries_witness:
  "\<exists>seen msg im'. Accumulate sample_up (RedisCache_ops sample_codec down_client)
      (sample_im\<lparr>knownIssuerDNs := {''CN=x''}\<rparr>) (sample_leaf\<lparr>CRLDistributionPoints := [''http:/a'']\<rparr>) 0 []
      = Done ((seen, Some (Errorf msg)), im', []) \<and>
    Accumulate sample_up (RedisCache_ops sample_codec down_client) im'
      (sample_leaf\<lparr>CRLDistributionPoints := [''http:/a'']\<rparr>) 1 [] = Done ((True, None), im', [])"
proof -
  let ?im = "sample_im\<lparr>knownIssuerDNs := {''CN=x''}\<rparr>"
    and ?cert = "sample_leaf\<lparr>CRLDistributionPoints := [''http:/a'']\<rparr>"
  have "http_url sample_up ''http:/a'' = Some ''http:/a''" by code_simp
  moreover have "rc_SetInsert (RedisCache_ops sample_codec down_client) (crlId ?im) ''http:/a'' 0 [] =
      Done ((False, Some (ExtError ''i/o timeout'')), [])"
    by (simp add: RedisCache_ops_def Redis_SetInsert_def down_client_def strings_HasPrefix_def)
  moreover have "CRLDistributionPoints ?cert = [''http:/a'']" "''http:/a'' \<notin> knownCrlDPs ?im"
    "cert_Issuer ?cert \<in> knownIssuerDNs ?im"
    by (simp_all add: sample_im_def NewIssuerMetadata_def sample_leaf_def)
  ultimately show ?thesis using accumulate_never_retries [of ?cert "''http:/a''" ?im sample_up] by metis
qed

end
