(* ===== verification/Crl_Types.thy ===== *)
theory Crl_Types
  imports Issuer_Metadata
begin

text \<open>
  \<^verbatim>\<open>types.go\<close> of the repository's root package: the maps and lists that pass between the stages of
  \<^verbatim>\<open>aggregate-crls\<close>, the merging of CRL maps, and the set of serial numbers that removes
  duplicates between the CRLs of an issuer. \<^verbatim>\<open>DecodeRawTBSCertList\<close> is not here: its decoder
  belongs to \<^verbatim>\<open>encoding/asn1\<close> with times.

  The lemmas show that merging is the union, issuer by issuer, and that a \<^verbatim>\<open>SerialSet\<close> is a set
  of serial numbers.
\<close>

type_synonym crl_set = "(string \<times> bool) list"
type_synonym IssuerCrlMap = "(string \<times> crl_set) list"

text \<open>\<^verbatim>\<open>self\<close> is a map and is changed in place: the result is its new value.\<close>

definition merge_crls :: "crl_set \<Rightarrow> crl_set \<Rightarrow> crl_set" where
  "merge_crls selfCrls crls = fold (\<lambda>(crl, _) m. AList.update crl True m) crls selfCrls"

definition IssuerCrlMap_Merge :: "IssuerCrlMap \<Rightarrow> IssuerCrlMap \<Rightarrow> IssuerCrlMap" where
  "IssuerCrlMap_Merge self other =
     fold (\<lambda>(issuer, crls) m.
         let selfCrls = (case map_of m issuer of None \<Rightarrow> [] | Some c \<Rightarrow> c)
         in AList.update issuer (merge_crls selfCrls crls) m)
       other self"

record IssuerRevocations =
  ir_Issuer :: Issuer
  RevokedSerials :: "Serial list"

definition IssuerRevocations_Merge ::
  "IssuerRevocations \<Rightarrow> IssuerRevocations \<Rightarrow> IssuerRevocations run" where
  "IssuerRevocations_Merge self other = Panic ''Not implemented''"

record IssuerCrlUrls =
  icu_Issuer :: Issuer
  Urls :: "url list"

record UrlPath =
  up_Url :: url
  up_Path :: string

record IssuerCrlUrlPaths =
  icp_Issuer :: Issuer
  IssuerDN :: string
  CrlUrlPaths :: "UrlPath list"

text \<open>The keys of the map \<^verbatim>\<open>setData\<close>, in the order of one of its iterations.\<close>

datatype SerialSet = SerialSet (setData: "string list")

definition NewSerialSet :: SerialSet where
  "NewSerialSet = SerialSet []"

definition SerialSet_Add :: "SerialSet \<Rightarrow> Serial \<Rightarrow> bool \<times> SerialSet" where
  "SerialSet_Add s sn =
     (let alreadyExisted = Serial_ID sn \<in> set (setData s)
      in (\<not> alreadyExisted,
          SerialSet (if alreadyExisted then setData s else setData s @ [Serial_ID sn])))"

text \<open>The error of the decoding is dropped; with it the zero value is appended.\<close>

definition SerialSet_List :: "SerialSet \<Rightarrow> Serial list" where
  "SerialSet_List s =
     map (\<lambda>idString. case NewSerialFromIDString idString of Inl e \<Rightarrow> Serial [] | Inr sn \<Rightarrow> sn) (setData s)"

subsection \<open>Lemmas: merging\<close>

definition crls_of :: "IssuerCrlMap \<Rightarrow> string \<Rightarrow> string set" where
  "crls_of m issuer = (case map_of m issuer of None \<Rightarrow> {} | Some c \<Rightarrow> keys c)"

lemma keys_merge_crls: "keys (merge_crls a b) = keys a \<union> keys b"
  unfolding merge_crls_def by (induction b arbitrary: a) (auto split: prod.splits)

lemma crls_of_update: "crls_of (AList.update i c m) i' = (if i' = i then keys c else crls_of m i')"
  by (simp add: crls_of_def)

lemma Merge_Cons:
  "IssuerCrlMap_Merge self ((issuer, crls) # other) =
     IssuerCrlMap_Merge (AList.update issuer
       (merge_crls (case map_of self issuer of None \<Rightarrow> [] | Some c \<Rightarrow> c) crls) self) other"
  by (simp add: IssuerCrlMap_Merge_def Let_def)

lemma Merge_keys: "keys (IssuerCrlMap_Merge self other) = keys self \<union> keys other"
proof (induction other arbitrary: self)
  case (Cons p other)
  then show ?case by (cases p) (auto simp: Merge_Cons)
qed (simp add: IssuerCrlMap_Merge_def)

lemma Merge_wf: "wf_map self \<Longrightarrow> wf_map (IssuerCrlMap_Merge self other)"
proof (induction other arbitrary: self)
  case (Cons p other)
  then show ?case by (cases p) (simp add: Merge_Cons wf_map_update)
qed (simp add: IssuerCrlMap_Merge_def)

lemma Merge_crls:
  "wf_map other \<Longrightarrow> crls_of (IssuerCrlMap_Merge self other) i = crls_of self i \<union> crls_of other i"
proof (induction other arbitrary: self)
  case (Cons p other)
  obtain issuer crls where p: "p = (issuer, crls)" by fastforce
  have "keys (case map_of self issuer of None \<Rightarrow> [] | Some c \<Rightarrow> c) = crls_of self issuer"
    by (simp add: crls_of_def split: option.split)
  moreover have "crls_of other issuer = {}"
    using Cons.prems p by (simp add: crls_of_def map_of_eq_None_iff [THEN iffD2])
  moreover have "crls_of (p # other) i = (if i = issuer then keys crls else crls_of other i)"
    by (simp add: p crls_of_def)
  ultimately show ?case
    using Cons.IH Cons.prems
    by (cases "i = issuer") (simp_all add: p Merge_Cons crls_of_update keys_merge_crls)
qed (simp add: IssuerCrlMap_Merge_def crls_of_def)

subsection \<open>Lemmas: sets of serial numbers\<close>

text \<open>The states calls of \<^verbatim>\<open>Add\<close> lead to: identifiers of serial numbers, none twice.\<close>

definition serial_set_inv :: "SerialSet \<Rightarrow> bool" where
  "serial_set_inv s \<longleftrightarrow> distinct (setData s) \<and> set (setData s) \<subseteq> range Serial_ID"

definition serial_set :: "SerialSet \<Rightarrow> Serial set" where
  "serial_set s = {sn. Serial_ID sn \<in> set (setData s)}"

lemma Serial_ID_inject [simp]: "Serial_ID a = Serial_ID b \<longleftrightarrow> a = b"
  by (metis serial_codecs(2) sum.inject(2))

lemma SerialSet_Add_ok:
  assumes "serial_set_inv s" and "SerialSet_Add s sn = (b, s')"
  shows "serial_set_inv s'" and "b = (sn \<notin> serial_set s)" and "serial_set s' = insert sn (serial_set s)"
  using assms by (auto simp: SerialSet_Add_def Let_def serial_set_inv_def serial_set_def split: if_splits)

lemma SerialSet_List_ok:
  assumes "serial_set_inv s"
  shows "distinct (SerialSet_List s)" and "set (SerialSet_List s) = serial_set s"
proof -
  let ?dec = "\<lambda>idString. case NewSerialFromIDString idString of Inl e \<Rightarrow> Serial [] | Inr sn \<Rightarrow> sn"
  have dec: "?dec (Serial_ID sn) = sn" for sn by simp
  obtain sns where sns: "setData s = map Serial_ID sns"
    using assms by (metis serial_set_inv_def ex_map_conv image_iff subset_iff)
  then have "SerialSet_List s = sns" by (simp add: SerialSet_List_def comp_def)
  moreover have "distinct sns" using assms sns by (simp add: serial_set_inv_def distinct_map)
  ultimately show "distinct (SerialSet_List s)" "set (SerialSet_List s) = serial_set s"
    using sns by (auto simp: serial_set_def)
qed

text \<open>A run of \<^verbatim>\<open>Add\<close> over a list, as the workers do it.\<close>

definition add_all :: "SerialSet \<Rightarrow> Serial list \<Rightarrow> SerialSet" where
  "add_all s sns = fold (\<lambda>sn s. snd (SerialSet_Add s sn)) sns s"

lemma add_all_ok:
  "serial_set_inv s \<Longrightarrow> serial_set_inv (add_all s sns) \<and> serial_set (add_all s sns) = serial_set s \<union> set sns"
proof (induction sns arbitrary: s)
  case (Cons sn sns)
  obtain b s' where a: "SerialSet_Add s sn = (b, s')" by fastforce
  from Cons.IH [of s'] SerialSet_Add_ok [OF Cons.prems a] a show ?case by (simp add: add_all_def)
qed (simp add: add_all_def)

lemma NewSerialSet_ok: "serial_set_inv NewSerialSet" "serial_set NewSerialSet = {}"
  by (simp_all add: serial_set_inv_def serial_set_def NewSerialSet_def)

subsection \<open>Properties\<close>

text \<open>
  C38. Merging a map of CRLs into another gives, for every issuer, the union of the CRLs of both;
  the issuers are those of both, none of them twice.
\<close>

theorem merge_is_union:
  assumes "wf_map self" and "wf_map other"
  shows "crls_of (IssuerCrlMap_Merge self other) i = crls_of self i \<union> crls_of other i \<and>
    keys (IssuerCrlMap_Merge self other) = keys self \<union> keys other \<and>
    wf_map (IssuerCrlMap_Merge self other)"
  using Merge_crls [OF assms(2)] Merge_keys Merge_wf [OF assms(1)] by blast

theorem merge_is_union_witness:
  "crls_of (IssuerCrlMap_Merge [(''a'', [(''u'', True)])] [(''a'', [(''v'', True)]), (''b'', [(''w'', True)])]) ''a''
     = {''u'', ''v''}"
proof -
  have "wf_map [(''a'', [(''u'', True)])]" "wf_map [(''a'', [(''v'', True)]), (''b'', [(''w'', True)])]" by simp_all
  from merge_is_union [OF this, of "''a''"] show ?thesis by (auto simp: crls_of_def)
qed

text \<open>
  A \<^verbatim>\<open>SerialSet\<close> is a set of serial numbers: adding a list of serial numbers to a new set and
  listing it returns each of them once, and \<^verbatim>\<open>Add\<close> answers whether the serial number was absent.
\<close>

theorem serial_set_lists_added:
  "distinct (SerialSet_List (add_all NewSerialSet sns)) \<and>
   set (SerialSet_List (add_all NewSerialSet sns)) = set sns \<and>
   fst (SerialSet_Add (add_all NewSerialSet sns) sn) = (sn \<notin> set sns)"
proof -
  note a = add_all_ok [OF NewSerialSet_ok(1), of sns]
  obtain b s' where "SerialSet_Add (add_all NewSerialSet sns) sn = (b, s')" by fastforce
  with SerialSet_Add_ok(2) [OF conjunct1 [OF a] this] a SerialSet_List_ok [OF conjunct1 [OF a]]
  show ?thesis by (simp add: NewSerialSet_ok)
qed

end
