(* ===== verification/Go_Csv.thy ===== *)
theory Go_Csv
  imports Crlite_Prelude
begin

text \<open>
  What the code uses of \<^verbatim>\<open>encoding/csv\<close>: \<^verbatim>\<open>Reader.Read\<close> with the default settings (comma, no
  comments, strict quotes, every record with as many fields as the first).

  The reader's state is the number of fields it expects (0 before the first record) and the input
  that is left, with the ends of lines made uniform. A record is read by a machine with one step
  per character; fields and the current field are collected in reverse.

  The lemmas show that a read consumes input, that every record has as many fields as the first,
  and that records written with quotes are read back.
\<close>

abbreviation csv_newline :: char where "csv_newline \<equiv> CHR 0x0A"
abbreviation csv_quote :: char where "csv_quote \<equiv> CHR 0x22"

text \<open>\<^verbatim>\<open>readLine\<close>: CR LF becomes LF, a CR at the end of the input is dropped.\<close>

fun csv_normalize :: "string \<Rightarrow> string" where
  "csv_normalize [] = []"
| "csv_normalize [c] = (if c = CHR 0x0D then [] else [c])"
| "csv_normalize (c # d # s) =
     (if c = CHR 0x0D \<and> d = csv_newline then csv_newline # csv_normalize s
      else c # csv_normalize (d # s))"

datatype csv_mode = FieldStart | Unquoted | Quoted | QuoteSeen

abbreviation ErrBareQuote :: go_error where "ErrBareQuote \<equiv> StdError ''bare quote in non-quoted-field''"
abbreviation ErrQuote :: go_error where "ErrQuote \<equiv> StdError ''extraneous or missing quote in quoted-field''"
abbreviation ErrFieldCount :: go_error where "ErrFieldCount \<equiv> StdError ''wrong number of fields''"
abbreviation io_EOF :: go_error where "io_EOF \<equiv> StdError ''EOF''"

text \<open>\<^verbatim>\<open>readRecord\<close> from the first character of a record on.\<close>

fun csv_fields :: "csv_mode \<Rightarrow> string list \<Rightarrow> string \<Rightarrow> string \<Rightarrow> (go_error + string list) \<times> string" where
  "csv_fields m fs cur [] =
     (if m = Quoted then (Inl ErrQuote, []) else (Inr (rev (rev cur # fs)), []))"
| "csv_fields m fs cur (c # s) =
     (case m of
        FieldStart \<Rightarrow>
          (if c = csv_quote then csv_fields Quoted fs [] s
           else if c = CHR '','' then csv_fields FieldStart ([] # fs) [] s
           else if c = csv_newline then (Inr (rev ([] # fs)), s)
           else csv_fields Unquoted fs [c] s)
      | Unquoted \<Rightarrow>
          (if c = csv_quote then (Inl ErrBareQuote, s)
           else if c = CHR '','' then csv_fields FieldStart (rev cur # fs) [] s
           else if c = csv_newline then (Inr (rev (rev cur # fs)), s)
           else csv_fields Unquoted fs (c # cur) s)
      | Quoted \<Rightarrow>
          (if c = csv_quote then csv_fields QuoteSeen fs cur s
           else csv_fields Quoted fs (c # cur) s)
      | QuoteSeen \<Rightarrow>
          (if c = csv_quote then csv_fields Quoted fs (c # cur) s
           else if c = CHR '','' then csv_fields FieldStart (rev cur # fs) [] s
           else if c = csv_newline then (Inr (rev (rev cur # fs)), s)
           else (Inl ErrQuote, s)))"

record csv_reader =
  FieldsPerRecord :: nat
  csv_input :: string

definition csv_NewReader :: "string \<Rightarrow> csv_reader" where
  "csv_NewReader s = \<lparr>FieldsPerRecord = 0, csv_input = csv_normalize s\<rparr>"

text \<open>Empty lines before a record are skipped.\<close>

definition csv_Read :: "csv_reader \<Rightarrow> (go_error + string list) \<times> csv_reader" where
  "csv_Read r =
     (let s = dropWhile (\<lambda>c. c = csv_newline) (csv_input r)
      in if s = [] then (Inl io_EOF, r\<lparr>csv_input := []\<rparr>)
         else
           (case csv_fields FieldStart [] [] s of
              (Inl e, s') \<Rightarrow> (Inl e, r\<lparr>csv_input := s'\<rparr>)
            | (Inr rec, s') \<Rightarrow>
                (if FieldsPerRecord r = 0 then (Inr rec, \<lparr>FieldsPerRecord = length rec, csv_input = s'\<rparr>)
                 else if length rec \<noteq> FieldsPerRecord r then (Inl ErrFieldCount, r\<lparr>csv_input := s'\<rparr>)
                 else (Inr rec, r\<lparr>csv_input := s'\<rparr>))))"

subsection \<open>Lemmas: reading\<close>

lemma csv_fields_rest: "csv_fields m fs cur s = (r, s') \<Longrightarrow> length s' \<le> length s"
  by (induction m fs cur s arbitrary: r s' rule: csv_fields.induct)
    (auto split: csv_mode.splits if_splits dest: le_SucI)

lemma csv_fields_consumes: "csv_fields m fs cur s = (r, s') \<Longrightarrow> s \<noteq> [] \<Longrightarrow> length s' < length s"
  by (cases s) (auto split: csv_mode.splits if_splits dest!: csv_fields_rest simp: less_Suc_eq_le)

lemma csv_fields_nonempty: "csv_fields m fs cur s = (Inr rec, s') \<Longrightarrow> length fs < length rec"
  by (induction m fs cur s arbitrary: rec s' rule: csv_fields.induct)
    (auto split: csv_mode.splits if_splits dest: Suc_lessD)

lemma csv_Read_consumes:
  assumes "csv_Read r = (Inr rec, r')"
  shows "length (csv_input r') < length (csv_input r)"
proof -
  let ?s = "dropWhile (\<lambda>c. c = csv_newline) (csv_input r)"
  have "length (csv_input r') < length ?s"
    using assms csv_fields_consumes [of FieldStart "[]" "[]" ?s]
    by (auto simp: csv_Read_def Let_def split: if_splits prod.splits sum.splits)
  then show ?thesis using length_dropWhile_le [of _ "csv_input r"] by (rule less_le_trans)
qed

lemma csv_Read_fields:
  assumes "csv_Read r = (Inr rec, r')"
  shows "rec \<noteq> []" "FieldsPerRecord r' = length rec" "FieldsPerRecord r \<noteq> 0 \<Longrightarrow> length rec = FieldsPerRecord r"
  using assms csv_fields_nonempty
  by (fastforce simp: csv_Read_def Let_def split: if_splits prod.splits sum.splits)+

text \<open>The records from a position of the input on, up to the end or the first error.\<close>

function csv_records :: "csv_reader \<Rightarrow> string list list \<times> go_error" where
  "csv_records r =
     (case csv_Read r of
        (Inl e, _) \<Rightarrow> ([], e)
      | (Inr rec, r') \<Rightarrow> (let (recs, e) = csv_records r' in (rec # recs, e)))"
  by pat_completeness auto
termination
  by (relation "measure (\<lambda>r. length (csv_input r))") (auto dest: csv_Read_consumes [OF sym])

declare csv_records.simps [simp del]

lemma csv_records_length:
  "FieldsPerRecord r \<noteq> 0 \<Longrightarrow> \<forall>rec \<in> set (fst (csv_records r)). length rec = FieldsPerRecord r"
proof (induction r rule: csv_records.induct)
  case (1 r)
  obtain x r' where x: "csv_Read r = (x, r')" by fastforce
  show ?case
  proof (cases x)
    case (Inl e)
    then show ?thesis by (simp add: csv_records.simps [of r] x)
  next
    case (Inr rec)
    with x have rd: "csv_Read r = (Inr rec, r')" by simp
    note f = csv_Read_fields [OF rd]
    have "FieldsPerRecord r' = FieldsPerRecord r" using f 1(2) by simp
    then show ?thesis using 1(1) [OF rd [symmetric] refl] 1(2) f Inr
      by (auto simp: csv_records.simps [of r] rd split: prod.splits)
  qed
qed

subsection \<open>Lemmas: writing and reading back\<close>

definition csv_quoted :: "string \<Rightarrow> string" where
  "csv_quoted f =
     csv_quote # concat (map (\<lambda>c. if c = csv_quote then [c, c] else [c]) f) @ [csv_quote]"

fun csv_line :: "string list \<Rightarrow> string" where
  "csv_line [] = []"
| "csv_line [f] = csv_quoted f @ [csv_newline]"
| "csv_line (f # fs) = csv_quoted f @ CHR '','' # csv_line fs"

lemma csv_fields_in_quotes:
  "csv_fields Quoted fs cur (concat (map (\<lambda>c. if c = csv_quote then [c, c] else [c]) f) @ csv_quote # s) =
   csv_fields QuoteSeen fs (rev f @ cur) s"
  by (induction f arbitrary: cur) auto

lemma csv_fields_line:
  "rec \<noteq> [] \<Longrightarrow> csv_fields FieldStart fs [] (csv_line rec @ s) = (Inr (rev fs @ rec), s)"
  by (induction rec arbitrary: fs rule: csv_line.induct)
    (simp_all add: csv_quoted_def csv_fields_in_quotes)

lemma csv_normalize_id: "CHR 0x0D \<notin> set s \<Longrightarrow> csv_normalize s = s"
  by (induction s rule: csv_normalize.induct) auto

lemma csv_line_start: "rec \<noteq> [] \<Longrightarrow> \<exists>s. csv_line rec = csv_quote # s"
  by (cases rec rule: csv_line.cases) (auto simp: csv_quoted_def)

lemma csv_Read_line:
  assumes "rec \<noteq> []" and "n = 0 \<or> n = length rec"
  shows "csv_Read \<lparr>FieldsPerRecord = n, csv_input = csv_line rec @ s\<rparr> =
    (Inr rec, \<lparr>FieldsPerRecord = length rec, csv_input = s\<rparr>)"
proof -
  obtain t where t: "csv_line rec = csv_quote # t" using csv_line_start [OF assms(1)] by blast
  have "dropWhile (\<lambda>c. c = csv_newline) (csv_line rec @ s) = csv_line rec @ s" by (simp add: t)
  then show ?thesis using assms csv_fields_line [OF assms(1), of "[]" s]
    by (auto simp: csv_Read_def t)
qed

lemma csv_records_written:
  "\<forall>rec \<in> set recs. length rec = n \<Longrightarrow> 0 < n \<Longrightarrow>
   csv_records \<lparr>FieldsPerRecord = n, csv_input = concat (map csv_line recs)\<rparr> = (recs, io_EOF)"
proof (induction recs)
  case Nil
  show ?case by (subst csv_records.simps) (simp add: csv_Read_def)
next
  case (Cons rec recs)
  then have "rec \<noteq> []" by auto
  with Cons show ?case by (subst csv_records.simps) (simp add: csv_Read_line)
qed

end
