(* ===== verification/Go_Pem.thy ===== *)
theory Go_Pem
  imports Go_Encoding Go_Time
begin

text \<open>
  \<^verbatim>\<open>encoding/pem\<close> as the repository writes it (\<^verbatim>\<open>pem.EncodeToMemory\<close>): the header lines sorted
  by key with \<^verbatim>\<open>Proc-Type\<close> first, an empty line after them, the body in base64 with the standard
  alphabet in lines of 64 characters; and the layout \<^verbatim>\<open>time.RFC3339\<close> for an instant in UTC.
\<close>

record pem_block =
  pem_Type :: string
  pem_Headers :: "(string \<times> string) list"
  pem_Bytes :: bytes

text \<open>\<^verbatim>\<open>base64.StdEncoding\<close> is the URL alphabet with its last two characters replaced.\<close>

definition b64_std :: "bytes \<Rightarrow> string" where
  "b64_std bs = map (\<lambda>c. if c = CHR ''-'' then CHR ''+'' else if c = CHR ''_'' then CHR ''/'' else c)
     (b64_EncodeToString bs)"

function pem_lines :: "string \<Rightarrow> string" where
  "pem_lines s = (if s = [] then [] else take 64 s @ [CHR 0x0A] @ pem_lines (drop 64 s))"
  by pat_completeness auto
termination
  by (relation "measure length") auto

declare pem_lines.simps [simp del]

definition header_line :: "string \<Rightarrow> string \<Rightarrow> string" where
  "header_line k v = k @ '': '' @ v @ [CHR 0x0A]"

definition header_value :: "(string \<times> string) list \<Rightarrow> string \<Rightarrow> string" where
  "header_value hs k = (case map_of hs k of None \<Rightarrow> [] | Some v \<Rightarrow> v)"

definition pem_headers :: "(string \<times> string) list \<Rightarrow> string" where
  "pem_headers hs =
     (if hs = [] then []
      else (if ''Proc-Type'' \<in> fst ` set hs
            then header_line ''Proc-Type'' (header_value hs ''Proc-Type'') else [])
           @ concat (map (\<lambda>k. header_line k (header_value hs k))
               (sort (filter (\<lambda>k. k \<noteq> ''Proc-Type'') (map fst hs))))
           @ [CHR 0x0A])"

text \<open>A header key with a colon makes \<^verbatim>\<open>EncodeToMemory\<close> return nil.\<close>

definition pem_EncodeToMemory :: "pem_block \<Rightarrow> bytes" where
  "pem_EncodeToMemory b =
     (if \<exists>h \<in> set (pem_Headers b). fst h \<noteq> ''Proc-Type'' \<and> strings_Contains (fst h) '':'' then []
      else bytes_of_string
        (''-----BEGIN '' @ pem_Type b @ ''-----'' @ [CHR 0x0A] @ pem_headers (pem_Headers b)
         @ pem_lines (b64_std (pem_Bytes b)) @ ''-----END '' @ pem_Type b @ ''-----'' @ [CHR 0x0A]))"

definition format_rfc3339 :: "time \<Rightarrow> string" where
  "format_rfc3339 t =
     (let sec = t div Second mod 86400
      in format_date t @ ''T'' @ appendInt (sec div 3600) 2 @ '':'' @ appendInt (sec div 60 mod 60) 2
         @ '':'' @ appendInt (sec mod 60) 2 @ ''Z'')"

end
