(* ===== verification/Root_Program.thy ===== *)
theory Root_Program
  imports Downloader Crl_Types Go_Csv Go_Pem
begin

text \<open>
  \<^verbatim>\<open>rootprogram/issuers.go\<close>: the issuers of the Mozilla root program, read from the CCADB report
  (a CSV file with a column of PEM certificates), their enrolment in CRLite, and the list of
  enrolled issuers that is saved for the next stage.

  \<^verbatim>\<open>MozIssuers\<close> is a record; its map from issuer identifiers to the certificates with that key is an
  association list. Methods run one at a time, as the mutex has it. \<^verbatim>\<open>pem.Decode\<close> and
  \<^verbatim>\<open>x509.ParseCertificate\<close> are the argument \<open>lib\<close>, the JSON of the saved list is an argument, files
  and downloads are those of \<open>Downloader\<close>.

  The invariant \<open>moz_inv\<close> says that every issuer of the map has a certificate; it holds in every
  reachable state, and with it no lookup panics. The properties give the map that a report leads
  to, the effect of enrolment, and that a saved list is loaded back.
\<close>

record x509_lib =
  pem_Decode :: "bytes \<Rightarrow> pem_block option \<times> bytes"
  x509_ParseCertificate :: "bytes \<Rightarrow> go_error + Certificate"

definition kMozCCADBReport :: string where
  "kMozCCADBReport = ''https://ccadb-public.secure.force.com/mozilla/MozillaIntermediateCertsCSVReport''"

text \<open>A nil certificate is \<open>None\<close>: only \<^verbatim>\<open>NewTestIssuerFromSubjectString\<close> makes one.\<close>

record issuerCert =
  ic_cert :: "Certificate option"
  subjectDN :: string
  pemInfo :: string

record IssuerData =
  certs :: "issuerCert list"
  enrolled :: bool

record EnrolledIssuer =
  PubKeyHash :: string
  Whitelist :: bool
  SubjectDN :: string
  Subject :: string
  Pem :: string
  Enrolled :: bool

record MozIssuers =
  issuerMap :: "(string \<times> IssuerData) list"
  DiskPath :: string
  ReportUrl :: string
  modTime :: time

definition NewMozillaIssuers :: "string \<Rightarrow> MozIssuers" where
  "NewMozillaIssuers tempDir =
     \<lparr>issuerMap = [], DiskPath = tempDir @ ''/mozilla_issuers.csv'', ReportUrl = kMozCCADBReport, modTime = 0\<rparr>"

subsection \<open>The map of issuers\<close>

text \<open>\<^verbatim>\<open>certs[0]\<close>\<close>

definition first_cert :: "IssuerData \<Rightarrow> issuerCert run" where
  "first_cert d = (case certs d of [] \<Rightarrow> Panic ''index out of range'' | ic # _ \<Rightarrow> Done ic)"

text \<open>\<^verbatim>\<open>cert.RawSubjectPublicKeyInfo\<close> of a pointer\<close>

definition cert_spki :: "Certificate option \<Rightarrow> bytes run" where
  "cert_spki c = (case c of None \<Rightarrow> Panic ''nil pointer dereference'' | Some c \<Rightarrow> Done (RawSubjectPublicKeyInfo c))"

fun run_list :: "'a run list \<Rightarrow> 'a list run" where
  "run_list [] = Done []"
| "run_list (r # rs) = run_bind r (\<lambda>x. run_bind (run_list rs) (\<lambda>xs. Done (x # xs)))"

definition GetIssuers :: "MozIssuers \<Rightarrow> Issuer list run" where
  "GetIssuers mi =
     run_list (map (\<lambda>(_, v). run_bind (first_cert v) (\<lambda>ic. run_bind (cert_spki (ic_cert ic))
       (\<lambda>k. Done \<lparr>issuer_id = None, issuer_spki = SPKI k\<rparr>))) (issuerMap mi))"

definition Enroll :: "Issuer \<Rightarrow> MozIssuers \<Rightarrow> MozIssuers" where
  "Enroll aIssuer mi =
     (case map_of (issuerMap mi) (Issuer_ID aIssuer) of
        None \<Rightarrow> mi
      | Some data \<Rightarrow>
          mi\<lparr>issuerMap := AList.update (Issuer_ID aIssuer) (data\<lparr>enrolled := True\<rparr>) (issuerMap mi)\<rparr>)"

definition IsIssuerInProgram :: "MozIssuers \<Rightarrow> Issuer \<Rightarrow> bool" where
  "IsIssuerInProgram mi aIssuer \<longleftrightarrow> map_of (issuerMap mi) (Issuer_ID aIssuer) \<noteq> None"

definition IsIssuerEnrolled :: "MozIssuers \<Rightarrow> Issuer \<Rightarrow> bool" where
  "IsIssuerEnrolled mi aIssuer \<longleftrightarrow>
     (case map_of (issuerMap mi) (Issuer_ID aIssuer) of None \<Rightarrow> False | Some data \<Rightarrow> enrolled data)"

definition unknown_issuer :: "Issuer \<Rightarrow> go_error" where
  "unknown_issuer aIssuer = Errorf (''Unknown issuer: '' @ Issuer_ID aIssuer)"

definition GetCertificateForIssuer :: "MozIssuers \<Rightarrow> Issuer \<Rightarrow> (go_error + Certificate option) run" where
  "GetCertificateForIssuer mi aIssuer =
     (case map_of (issuerMap mi) (Issuer_ID aIssuer) of
        None \<Rightarrow> Done (Inl (unknown_issuer aIssuer))
      | Some entry \<Rightarrow> run_bind (first_cert entry) (\<lambda>ic. Done (Inr (ic_cert ic))))"

definition GetSubjectForIssuer :: "MozIssuers \<Rightarrow> Issuer \<Rightarrow> (go_error + string) run" where
  "GetSubjectForIssuer mi aIssuer =
     (case map_of (issuerMap mi) (Issuer_ID aIssuer) of
        None \<Rightarrow> Done (Inl (unknown_issuer aIssuer))
      | Some entry \<Rightarrow> run_bind (first_cert entry) (\<lambda>ic. Done (Inr (subjectDN ic))))"

definition DatasetAge :: "time \<Rightarrow> MozIssuers \<Rightarrow> duration" where
  "DatasetAge now mi = (if modTime mi = 0 then 0 else time_Sub now (modTime mi))"

definition InsertIssuerFromCertAndPem :: "Certificate \<Rightarrow> string \<Rightarrow> MozIssuers \<Rightarrow> Issuer \<times> MozIssuers" where
  "InsertIssuerFromCertAndPem aCert aPem mi =
     (let issuer = NewIssuer aCert;
          ic = \<lparr>ic_cert = Some aCert, subjectDN = cert_Subject aCert, pemInfo = aPem\<rparr>
      in case map_of (issuerMap mi) (Issuer_ID issuer) of
           Some v \<Rightarrow>
             (issuer, mi\<lparr>issuerMap := AList.update (Issuer_ID issuer) (v\<lparr>certs := certs v @ [ic]\<rparr>) (issuerMap mi)\<rparr>)
         | None \<Rightarrow>
             (issuer, mi\<lparr>issuerMap :=
                AList.update (Issuer_ID issuer) \<lparr>certs = [ic], enrolled = False\<rparr> (issuerMap mi)\<rparr>))"

definition NewTestIssuerFromSubjectString :: "string \<Rightarrow> MozIssuers \<Rightarrow> Issuer \<times> MozIssuers" where
  "NewTestIssuerFromSubjectString aSub mi =
     (let issuer = NewIssuerFromString aSub;
          ic = \<lparr>ic_cert = None, subjectDN = aSub, pemInfo = []\<rparr>
      in (issuer, mi\<lparr>issuerMap :=
            AList.update (Issuer_ID issuer) \<lparr>certs = [ic], enrolled = False\<rparr> (issuerMap mi)\<rparr>))"

subsection \<open>The CCADB report\<close>

definition decodeCertificateFromPem :: "x509_lib \<Rightarrow> string \<Rightarrow> go_error + Certificate" where
  "decodeCertificateFromPem lib aPem =
     (case pem_Decode lib (bytes_of_string aPem) of
        (None, rest) \<Rightarrow> Inl (Errorf ''Not a valid PEM'')
      | (Some block, rest) \<Rightarrow>
          (if length rest \<noteq> 0 then Inl (Errorf ''Extra PEM data'')
           else x509_ParseCertificate lib (pem_Bytes block)))"

text \<open>\<^verbatim>\<open>aColMap["PEM"]\<close>: 0 when there is no such column.\<close>

definition pem_column :: "(string \<times> nat) list \<Rightarrow> nat" where
  "pem_column aColMap = (case map_of aColMap ''PEM'' of None \<Rightarrow> 0 | Some i \<Rightarrow> i)"

definition row_pem :: "(string \<times> nat) list \<Rightarrow> string list \<Rightarrow> string run" where
  "row_pem aColMap aRow =
     (if pem_column aColMap < length aRow
      then Done (strings_Trim_char (aRow ! pem_column aColMap) (CHR 0x27))
      else Panic ''index out of range'')"

definition decodeCertificateFromRow ::
  "x509_lib \<Rightarrow> (string \<times> nat) list \<Rightarrow> string list \<Rightarrow> nat \<Rightarrow> (go_error + Certificate) run" where
  "decodeCertificateFromRow lib aColMap aRow aLineNum =
     run_bind (row_pem aColMap aRow) (\<lambda>p.
       case decodeCertificateFromPem lib p of
         Inl err \<Rightarrow> Done (Inl (Errorf (err_text err @ '' at line '' @ show_nat aLineNum)))
       | Inr cert \<Rightarrow> Done (Inr cert))"

definition column_map :: "string list \<Rightarrow> (string \<times> nat) list" where
  "column_map columns = fold (\<lambda>(index, attr) m. AList.update attr index m) (enumerate 0 columns) []"

text \<open>The loop ends at the first error of the reader, whatever it is.\<close>

function parse_rows ::
  "x509_lib \<Rightarrow> (string \<times> nat) list \<Rightarrow> nat \<Rightarrow> csv_reader \<Rightarrow> MozIssuers \<Rightarrow> (go_error option \<times> MozIssuers) run" where
  "parse_rows lib columnMap lineNum r mi =
     (case csv_Read r of
        (Inl _, _) \<Rightarrow> Done (None, mi)
      | (Inr row, r') \<Rightarrow>
          (case decodeCertificateFromRow lib columnMap row (lineNum + 1) of
             Panic s \<Rightarrow> Panic s
           | Fatal s \<Rightarrow> Fatal s
           | Done (Inl err) \<Rightarrow> Done (Some err, mi)
           | Done (Inr cert) \<Rightarrow>
               (case row_pem columnMap row of
                  Panic s \<Rightarrow> Panic s
                | Fatal s \<Rightarrow> Fatal s
                | Done p \<Rightarrow>
                    parse_rows lib columnMap
                      (lineNum + 1 + length (filter (\<lambda>c. c = csv_newline) (concat row)))
                      r' (snd (InsertIssuerFromCertAndPem cert p mi)))))"
  by pat_completeness auto
termination
  by (relation "measure (\<lambda>(_, _, _, r, _). length (csv_input r))") (auto dest: csv_Read_consumes [OF sym])

declare parse_rows.simps [simp del]

definition parseCCADB :: "x509_lib \<Rightarrow> string \<Rightarrow> MozIssuers \<Rightarrow> (go_error option \<times> MozIssuers) run" where
  "parseCCADB lib aStream mi =
     (case csv_Read (csv_NewReader aStream) of
        (Inl err, _) \<Rightarrow> Done (Some err, mi)
      | (Inr columns, r) \<Rightarrow> parse_rows lib (column_map columns) 1 r mi)"

subsection \<open>Loading and saving\<close>

text \<open>The file is read through the open descriptor; an error of the disk is the first read's.\<close>

definition LoadFromDisk ::
  "x509_lib \<Rightarrow> 'w os_ops \<Rightarrow> string \<Rightarrow> MozIssuers \<Rightarrow> 'w \<Rightarrow> (go_error option \<times> MozIssuers) run" where
  "LoadFromDisk lib os aPath mi w =
     (case os_Open os aPath w of
        Some err \<Rightarrow> Done (Some err, mi)
      | None \<Rightarrow>
          (case os_Stat os aPath w of
             Inl err \<Rightarrow> Done (Some err, mi)
           | Inr (_, mtime) \<Rightarrow>
               (case os_ReadFile os aPath w of
                  Inl err \<Rightarrow> Done (Some err, mi\<lparr>modTime := mtime\<rparr>)
                | Inr bs \<Rightarrow> parseCCADB lib (string_of_bytes bs) (mi\<lparr>modTime := mtime\<rparr>))))"

text \<open>\<^verbatim>\<open>verifier.IsValid\<close>: a panic would end the program; \<open>ccadb_never_panics\<close> excludes it.\<close>

definition verifier_IsValid :: "x509_lib \<Rightarrow> 'w os_ops \<Rightarrow> string \<Rightarrow> string \<Rightarrow> 'w \<Rightarrow> go_error option" where
  "verifier_IsValid lib os tempDir path w =
     (case LoadFromDisk lib os path (NewMozillaIssuers tempDir) w of
        Done (e, _) \<Rightarrow> e
      | Fatal s \<Rightarrow> Some (Errorf s)
      | Panic s \<Rightarrow> Some (Errorf s))"

definition identifier_ID :: string where
  "identifier_ID = ''Mozilla Issuers''"

text \<open>The auditor of this download only logs: its calls are dropped.\<close>

definition Load ::
  "url_Parse \<Rightarrow> x509_lib \<Rightarrow> 'w os_ops \<Rightarrow> string \<Rightarrow> MozIssuers \<Rightarrow> 'w \<Rightarrow> ((go_error option \<times> MozIssuers) \<times> 'w) run" where
  "Load up lib os tempDir mi w =
     (case up (ReportUrl mi) of
        Inl err \<Rightarrow> Fatal (''Couldn't parse CCADB URL of '' @ ReportUrl mi @ '': '' @ err_text err)
      | Inr dataUrl \<Rightarrow>
          (case DownloadAndVerifyFileSync os (verifier_IsValid lib os tempDir) identifier_ID
                  (url_String dataUrl) (DiskPath mi) 3 w of
             ((isAcceptable, err), _, w1) \<Rightarrow>
               (if \<not> isAcceptable then Done ((err, mi), w1)
                else run_bind (LoadFromDisk lib os (DiskPath mi) mi w1) (\<lambda>r. Done (r, w1)))))"

definition enrolled_entries :: "IssuerData \<Rightarrow> EnrolledIssuer list run" where
  "enrolled_entries val =
     run_list (map (\<lambda>cert. run_bind (cert_spki (ic_cert cert)) (\<lambda>k. Done
         \<lparr>PubKeyHash = b64_EncodeToString (sha256_Sum256 k), Whitelist = False,
          SubjectDN = b64_EncodeToString (bytes_of_string (subjectDN cert)),
          Subject = subjectDN cert, Pem = pemInfo cert, Enrolled = enrolled val\<rparr>)) (certs val))"

definition enrolled_list :: "MozIssuers \<Rightarrow> EnrolledIssuer list run" where
  "enrolled_list mi = run_bind (run_list (map (\<lambda>(_, val). enrolled_entries val) (issuerMap mi))) (\<lambda>ls. Done (concat ls))"

text \<open>
  \<open>enc\<close> is the JSON of the list. Its error is shadowed: the error returned is that of \<^verbatim>\<open>Close\<close>. The
  encoder writes the value and a newline.
\<close>

definition SaveIssuersList ::
  "(EnrolledIssuer list \<Rightarrow> go_error + bytes) \<Rightarrow> 'w os_ops \<Rightarrow> string \<Rightarrow> MozIssuers \<Rightarrow> 'w \<Rightarrow> (go_error option \<times> 'w) run" where
  "SaveIssuersList enc os filePath mi w =
     run_bind (enrolled_list mi) (\<lambda>issuers.
       case os_OpenFile os filePath O_TRUNC_CREATE_WRONLY w of
         (Some err, w1) \<Rightarrow> Done (Some err, w1)
       | (None, w1) \<Rightarrow>
           (let w2 = (case enc issuers of
                        Inl _ \<Rightarrow> w1
                      | Inr bs \<Rightarrow> snd (os_Write os filePath (bs @ [10]) w1))
            in Done (os_Close os filePath w2)))"

fun load_entries :: "x509_lib \<Rightarrow> EnrolledIssuer list \<Rightarrow> MozIssuers \<Rightarrow> go_error option \<times> MozIssuers" where
  "load_entries lib [] mi = (None, mi)"
| "load_entries lib (ei # list) mi =
     (case decodeCertificateFromPem lib (Pem ei) of
        Inl err \<Rightarrow> (Some err, mi)
      | Inr cert \<Rightarrow>
          (let (issuer, mi1) = InsertIssuerFromCertAndPem cert (Pem ei) mi
           in load_entries lib list (if Enrolled ei then Enroll issuer mi1 else mi1)))"

definition LoadEnrolledIssuers ::
  "x509_lib \<Rightarrow> (bytes \<Rightarrow> go_error + EnrolledIssuer list) \<Rightarrow> 'w os_ops \<Rightarrow> string \<Rightarrow> MozIssuers \<Rightarrow> 'w
    \<Rightarrow> go_error option \<times> MozIssuers" where
  "LoadEnrolledIssuers lib dec os filePath mi w =
     (case os_ReadFile os filePath w of
        Inl err \<Rightarrow> (Some err, mi)
      | Inr bs \<Rightarrow>
          (case dec bs of
             Inl err \<Rightarrow> (Some err, mi)
           | Inr list \<Rightarrow> load_entries lib list mi))"

subsection \<open>Lemmas: the map as a function\<close>

text \<open>The certificates and the enrolment an identifier stands for.\<close>

definition certs_at :: "MozIssuers \<Rightarrow> string \<Rightarrow> issuerCert list" where
  "certs_at mi k = (case map_of (issuerMap mi) k of None \<Rightarrow> [] | Some d \<Rightarrow> certs d)"

definition enrolled_at :: "MozIssuers \<Rightarrow> string \<Rightarrow> bool" where
  "enrolled_at mi k = (case map_of (issuerMap mi) k of None \<Rightarrow> False | Some d \<Rightarrow> enrolled d)"

definition cert_id :: "Certificate \<Rightarrow> string" where
  "cert_id c = Issuer_ID (NewIssuer c)"

definition mk_ic :: "Certificate \<Rightarrow> string \<Rightarrow> issuerCert" where
  "mk_ic c p = \<lparr>ic_cert = Some c, subjectDN = cert_Subject c, pemInfo = p\<rparr>"

lemma Insert_map:
  "map_of (issuerMap (snd (InsertIssuerFromCertAndPem c p mi))) =
     (map_of (issuerMap mi))(cert_id c \<mapsto> \<lparr>certs = certs_at mi (cert_id c) @ [mk_ic c p], enrolled = enrolled_at mi (cert_id c)\<rparr>)"
  by (auto simp: InsertIssuerFromCertAndPem_def Let_def certs_at_def enrolled_at_def cert_id_def mk_ic_def
      fun_eq_iff split: option.split)

lemma Insert_issuer [simp]: "fst (InsertIssuerFromCertAndPem c p mi) = NewIssuer c"
  by (simp add: InsertIssuerFromCertAndPem_def Let_def split: option.split)

lemma Insert_wf: "wf_map (issuerMap mi) \<Longrightarrow> wf_map (issuerMap (snd (InsertIssuerFromCertAndPem c p mi)))"
  by (simp add: InsertIssuerFromCertAndPem_def Let_def wf_map_update split: option.split)

lemma Insert_rest [simp]:
  "DiskPath (snd (InsertIssuerFromCertAndPem c p mi)) = DiskPath mi"
  "ReportUrl (snd (InsertIssuerFromCertAndPem c p mi)) = ReportUrl mi"
  "modTime (snd (InsertIssuerFromCertAndPem c p mi)) = modTime mi"
  by (simp_all add: InsertIssuerFromCertAndPem_def Let_def split: option.split)

lemma Insert_at:
  "certs_at (snd (InsertIssuerFromCertAndPem c p mi)) k = certs_at mi k @ (if k = cert_id c then [mk_ic c p] else [])"
  "enrolled_at (snd (InsertIssuerFromCertAndPem c p mi)) k = enrolled_at mi k"
  by (simp_all add: certs_at_def [of "snd _"] enrolled_at_def [of "snd _"] Insert_map) (simp_all add: certs_at_def enrolled_at_def)

lemma Enroll_map:
  "map_of (issuerMap (Enroll i mi)) =
     (case map_of (issuerMap mi) (Issuer_ID i) of None \<Rightarrow> map_of (issuerMap mi)
      | Some d \<Rightarrow> (map_of (issuerMap mi))(Issuer_ID i \<mapsto> d\<lparr>enrolled := True\<rparr>))"
  by (simp add: Enroll_def fun_eq_iff split: option.split)

definition insert_all :: "(Certificate \<times> string) list \<Rightarrow> MozIssuers \<Rightarrow> MozIssuers" where
  "insert_all cps mi = fold (\<lambda>(c, p) mi. snd (InsertIssuerFromCertAndPem c p mi)) cps mi"

lemma insert_all_simps [simp]:
  "insert_all [] mi = mi"
  "insert_all ((c, p) # cps) mi = insert_all cps (snd (InsertIssuerFromCertAndPem c p mi))"
  by (simp_all add: insert_all_def)

lemma insert_all_at:
  "certs_at (insert_all cps mi) k = certs_at mi k @ map (\<lambda>(c, p). mk_ic c p) (filter (\<lambda>(c, p). cert_id c = k) cps)"
  "enrolled_at (insert_all cps mi) k = enrolled_at mi k"
  by (induction cps arbitrary: mi) (auto simp: Insert_at)

subsection \<open>Lemmas: the report\<close>

lemma column_map_bound:
  "columns \<noteq> [] \<Longrightarrow> pem_column (column_map columns) < length columns"
proof -
  have "\<forall>kv \<in> set (fold (\<lambda>(index, attr) m. AList.update attr index m) ixs m). snd kv < n"
    if "\<forall>kv \<in> set m. snd kv < n" "\<forall>ia \<in> set ixs. fst ia < n" for ixs :: "(nat \<times> string) list" and m n
    using that
  proof (induction ixs arbitrary: m)
    case (Cons ia ixs)
    have "set (AList.update (snd ia) (fst ia) m) \<subseteq> insert (snd ia, fst ia) (set m)"
      by (induction m) auto
    then have "\<forall>kv \<in> set (AList.update (snd ia) (fst ia) m). snd kv < n" using Cons.prems by fastforce
    then show ?case using Cons.IH Cons.prems(2) by (simp add: case_prod_beta)
  qed simp
  from this [of "[]" "length columns" "enumerate 0 columns"]
  have "\<forall>kv \<in> set (column_map columns). snd kv < length columns"
    by (auto simp: column_map_def in_set_enumerate_eq)
  then show "columns \<noteq> [] \<Longrightarrow> ?thesis"
    by (force simp: pem_column_def split: option.split dest: map_of_SomeD)
qed

definition row_entry :: "x509_lib \<Rightarrow> nat \<Rightarrow> string list \<Rightarrow> (Certificate \<times> string) option" where
  "row_entry lib i row =
     (let p = strings_Trim_char (row ! i) (CHR 0x27)
      in case decodeCertificateFromPem lib p of Inl _ \<Rightarrow> None | Inr c \<Rightarrow> Some (c, p))"

definition good_entries :: "x509_lib \<Rightarrow> nat \<Rightarrow> string list list \<Rightarrow> (Certificate \<times> string) list" where
  "good_entries lib i rows = map (\<lambda>row. the (row_entry lib i row)) (takeWhile (\<lambda>row. row_entry lib i row \<noteq> None) rows)"

lemma parse_rows_result:
  assumes "pem_column col < FieldsPerRecord r"
  shows "\<exists>e. parse_rows lib col n r mi =
      Done (e, insert_all (good_entries lib (pem_column col) (fst (csv_records r))) mi) \<and>
    (e = None \<longleftrightarrow> (\<forall>row \<in> set (fst (csv_records r)). row_entry lib (pem_column col) row \<noteq> None))"
  using assms
proof (induction r arbitrary: n mi rule: csv_records.induct)
  case (1 r)
  obtain x r' where x: "csv_Read r = (x, r')" by fastforce
  show ?case
  proof (cases x)
    case (Inl e)
    then show ?thesis by (simp add: csv_records.simps [of r] parse_rows.simps [of _ _ _ r] x good_entries_def)
  next
    case (Inr row)
    with x have rd: "csv_Read r = (Inr row, r')" by simp
    note f = csv_Read_fields [OF rd]
    have w: "pem_column col < length row" "pem_column col < FieldsPerRecord r'" using f 1(2) by simp_all
    have recs: "fst (csv_records r) = row # fst (csv_records r')"
      by (simp add: csv_records.simps [of r] rd split: prod.split)
    have pem: "row_pem col row = Done (strings_Trim_char (row ! pem_column col) (CHR 0x27))"
      using w(1) by (simp add: row_pem_def)
    show ?thesis
    proof (cases "decodeCertificateFromPem lib (strings_Trim_char (row ! pem_column col) (CHR 0x27))")
      case (Inl err)
      then show ?thesis
        by (simp add: parse_rows.simps [of _ _ _ r] rd decodeCertificateFromRow_def pem recs row_entry_def
            good_entries_def)
    next
      case (Inr c)
      then show ?thesis
        using 1(1) [OF rd [symmetric] refl w(2)]
        by (simp add: parse_rows.simps [of _ _ _ r] rd decodeCertificateFromRow_def pem recs row_entry_def
            good_entries_def)
    qed
  qed
qed

lemma parseCCADB_result:
  assumes "csv_Read (csv_NewReader csv) = (Inr columns, r)"
  shows "\<exists>e. parseCCADB lib csv mi =
      Done (e, insert_all (good_entries lib (pem_column (column_map columns)) (fst (csv_records r))) mi) \<and>
    (e = None \<longleftrightarrow> (\<forall>row \<in> set (fst (csv_records r)). row_entry lib (pem_column (column_map columns)) row \<noteq> None))"
proof -
  have "pem_column (column_map columns) < FieldsPerRecord r"
    using csv_Read_fields [OF assms] column_map_bound by metis
  then show ?thesis unfolding parseCCADB_def assms using parse_rows_result by simp
qed

subsection \<open>Lemmas: the invariant\<close>

definition moz_inv :: "MozIssuers \<Rightarrow> bool" where
  "moz_inv mi \<longleftrightarrow> wf_map (issuerMap mi) \<and> (\<forall>(k, d) \<in> set (issuerMap mi). certs d \<noteq> [])"

lemma moz_inv_map: "wf_map (issuerMap mi) \<Longrightarrow> moz_inv mi \<longleftrightarrow> (\<forall>k d. map_of (issuerMap mi) k = Some d \<longrightarrow> certs d \<noteq> [])"
  unfolding moz_inv_def by (auto dest: map_of_SomeD)

lemma moz_invD: "moz_inv mi \<Longrightarrow> map_of (issuerMap mi) k = Some d \<Longrightarrow> certs d \<noteq> []"
  by (auto simp: moz_inv_def dest: map_of_SomeD)

lemma moz_inv_update:
  "moz_inv mi \<Longrightarrow> certs d \<noteq> [] \<Longrightarrow> moz_inv (mi\<lparr>issuerMap := AList.update k d (issuerMap mi)\<rparr>)"
  unfolding moz_inv_def using set_update_wf [of "issuerMap mi" k d] by auto

lemma moz_inv_New [simp]: "moz_inv (NewMozillaIssuers t)"
  by (simp add: moz_inv_def NewMozillaIssuers_def)

lemma moz_inv_Insert: "moz_inv mi \<Longrightarrow> moz_inv (snd (InsertIssuerFromCertAndPem c p mi))"
  by (simp add: InsertIssuerFromCertAndPem_def Let_def moz_inv_update split: option.split)

lemma moz_inv_Test: "moz_inv mi \<Longrightarrow> moz_inv (snd (NewTestIssuerFromSubjectString a mi))"
  by (simp add: NewTestIssuerFromSubjectString_def Let_def moz_inv_update)

lemma moz_inv_Enroll: "moz_inv mi \<Longrightarrow> moz_inv (Enroll i mi)"
  by (simp add: Enroll_def moz_inv_update moz_invD split: option.split)

lemma moz_inv_insert_all: "moz_inv mi \<Longrightarrow> moz_inv (insert_all cps mi)"
  by (induction cps arbitrary: mi) (auto simp: moz_inv_Insert)

lemma moz_inv_load: "moz_inv mi \<Longrightarrow> moz_inv (snd (load_entries lib eis mi))"
proof (induction eis arbitrary: mi)
  case (Cons ei eis)
  then show ?case
    by (auto simp: case_prod_beta Let_def moz_inv_Insert moz_inv_Enroll split: sum.split)
qed simp

lemma moz_inv_modTime [simp]: "moz_inv (mi\<lparr>modTime := t\<rparr>) = moz_inv mi"
  by (simp add: moz_inv_def)

lemma parseCCADB_total:
  "\<exists>e cps. parseCCADB lib csv mi = Done (e, insert_all cps mi)"
proof (cases "csv_Read (csv_NewReader csv)")
  case (Pair x r)
  show ?thesis
  proof (cases x)
    case (Inl err)
    then have "parseCCADB lib csv mi = Done (Some err, insert_all [] mi)" using Pair by (simp add: parseCCADB_def)
    then show ?thesis by blast
  next
    case (Inr columns)
    then show ?thesis using parseCCADB_result [of csv columns r lib mi] Pair by blast
  qed
qed

text \<open>What a program does with the issuers, one call after the other.\<close>

inductive moz_step :: "x509_lib \<Rightarrow> 'w os_ops \<Rightarrow> MozIssuers \<Rightarrow> MozIssuers \<Rightarrow> bool" for lib os where
  insert: "moz_step lib os mi (snd (InsertIssuerFromCertAndPem c p mi))"
| test: "moz_step lib os mi (snd (NewTestIssuerFromSubjectString a mi))"
| enroll: "moz_step lib os mi (Enroll i mi)"
| load: "LoadFromDisk lib os path mi w = Done (e, mi') \<Longrightarrow> moz_step lib os mi mi'"
| load_enrolled: "moz_step lib os mi (snd (LoadEnrolledIssuers lib dec os path mi w))"

inductive_cases moz_stepE: "moz_step lib os mi mi'"

lemma moz_inv_LoadFromDisk:
  assumes "moz_inv mi" and "LoadFromDisk lib os path mi w = Done (e, mi')"
  shows "moz_inv mi'"
proof -
  have "moz_inv mi''" if "parseCCADB lib csv (mi\<lparr>modTime := t\<rparr>) = Done (e, mi'')" for csv t mi''
    using parseCCADB_total [of lib csv "mi\<lparr>modTime := t\<rparr>"] that assms(1) by (auto intro: moz_inv_insert_all)
  then show ?thesis using assms
    by (auto simp: LoadFromDisk_def split: option.splits sum.splits prod.splits)
qed

lemma moz_inv_step: "moz_step lib os mi mi' \<Longrightarrow> moz_inv mi \<Longrightarrow> moz_inv mi'"
  by (induction rule: moz_step.induct)
    (auto simp: moz_inv_Insert moz_inv_Test moz_inv_Enroll moz_inv_load LoadEnrolledIssuers_def
      intro: moz_inv_LoadFromDisk split: sum.split)

lemma moz_inv_reachable: "(moz_step lib os)\<^sup>*\<^sup>* mi mi' \<Longrightarrow> moz_inv mi \<Longrightarrow> moz_inv mi'"
  by (induction rule: rtranclp_induct) (auto intro: moz_inv_step)

subsection \<open>Lemmas: saving and loading\<close>

text \<open>
  A certificate of the map is filed under its own identifier, with the subject it has and a text
  that decodes to it. Reports and saved lists only make such entries.
\<close>

definition sound_entry :: "x509_lib \<Rightarrow> string \<Rightarrow> issuerCert \<Rightarrow> bool" where
  "sound_entry lib k ic \<longleftrightarrow>
     (case decodeCertificateFromPem lib (pemInfo ic) of
        Inl _ \<Rightarrow> False
      | Inr c \<Rightarrow> cert_id c = k \<and> ic = mk_ic c (pemInfo ic))"

definition moz_sound :: "x509_lib \<Rightarrow> MozIssuers \<Rightarrow> bool" where
  "moz_sound lib mi \<longleftrightarrow> moz_inv mi \<and> (\<forall>(k, d) \<in> set (issuerMap mi). \<forall>ic \<in> set (certs d). sound_entry lib k ic)"

lemma sound_mk_ic: "decodeCertificateFromPem lib p = Inr c \<Longrightarrow> sound_entry lib (cert_id c) (mk_ic c p)"
  by (simp add: sound_entry_def mk_ic_def)

lemma moz_sound_New [simp]: "moz_sound lib (NewMozillaIssuers t)"
  by (simp add: moz_sound_def) (simp add: NewMozillaIssuers_def)

lemma moz_sound_update:
  "moz_sound lib mi \<Longrightarrow> certs d \<noteq> [] \<Longrightarrow> \<forall>ic \<in> set (certs d). sound_entry lib k ic \<Longrightarrow>
   moz_sound lib (mi\<lparr>issuerMap := AList.update k d (issuerMap mi)\<rparr>)"
  unfolding moz_sound_def using set_update_wf [of "issuerMap mi" k d]
  by (auto simp: moz_inv_update) (auto simp: moz_inv_def)

lemma moz_soundD: "moz_sound lib mi \<Longrightarrow> map_of (issuerMap mi) k = Some d \<Longrightarrow> ic \<in> set (certs d) \<Longrightarrow> sound_entry lib k ic"
  unfolding moz_sound_def by (blast dest: map_of_SomeD)

lemma moz_sound_Insert:
  assumes "moz_sound lib mi" and "decodeCertificateFromPem lib p = Inr c"
  shows "moz_sound lib (snd (InsertIssuerFromCertAndPem c p mi))"
  using assms sound_mk_ic [OF assms(2)] moz_soundD [OF assms(1)]
  by (auto simp: InsertIssuerFromCertAndPem_def Let_def cert_id_def mk_ic_def intro!: moz_sound_update
      split: option.split)

lemma moz_sound_insert_all:
  "moz_sound lib mi \<Longrightarrow> \<forall>(c, p) \<in> set cps. decodeCertificateFromPem lib p = Inr c \<Longrightarrow> moz_sound lib (insert_all cps mi)"
  by (induction cps arbitrary: mi) (auto simp: moz_sound_Insert)

lemma good_entries_decode: "(c, p) \<in> set (good_entries lib i rows) \<Longrightarrow> decodeCertificateFromPem lib p = Inr c"
  by (auto simp: good_entries_def row_entry_def Let_def dest!: set_takeWhileD split: sum.splits)

lemma moz_sound_parse:
  assumes "moz_sound lib mi" and "parseCCADB lib csv mi = Done (e, mi')"
  shows "moz_sound lib mi'"
proof (cases "csv_Read (csv_NewReader csv)")
  case (Pair x r)
  show ?thesis
  proof (cases x)
    case Inl
    then show ?thesis using Pair assms by (simp add: parseCCADB_def)
  next
    case (Inr columns)
    then show ?thesis
      using parseCCADB_result [of csv columns r lib mi] Pair assms
      by (auto intro!: moz_sound_insert_all dest: good_entries_decode)
  qed
qed

lemma run_list_Done: "\<forall>x \<in> set xs. f x = Done (g x) \<Longrightarrow> run_list (map f xs) = Done (map g xs)"
  by (induction xs) auto

definition ei_of :: "bool \<Rightarrow> issuerCert \<Rightarrow> EnrolledIssuer" where
  "ei_of b ic = \<lparr>PubKeyHash = b64_EncodeToString (sha256_Sum256 (RawSubjectPublicKeyInfo (the (ic_cert ic)))),
     Whitelist = False, SubjectDN = b64_EncodeToString (bytes_of_string (subjectDN ic)),
     Subject = subjectDN ic, Pem = pemInfo ic, Enrolled = b\<rparr>"

definition saved_list :: "(string \<times> IssuerData) list \<Rightarrow> EnrolledIssuer list" where
  "saved_list m = concat (map (\<lambda>(k, d). map (ei_of (enrolled d)) (certs d)) m)"

lemma sound_entryE:
  assumes "sound_entry lib k ic"
  obtains c where "decodeCertificateFromPem lib (pemInfo ic) = Inr c" "cert_id c = k" "ic = mk_ic c (pemInfo ic)"
  using assms that by (auto simp: sound_entry_def split: sum.splits)

lemma enrolled_list_sound:
  assumes "moz_sound lib mi"
  shows "enrolled_list mi = Done (saved_list (issuerMap mi))"
proof -
  have "enrolled_entries d = Done (map (ei_of (enrolled d)) (certs d))" if "(k, d) \<in> set (issuerMap mi)" for k d
    unfolding enrolled_entries_def
  proof (rule run_list_Done, intro ballI)
    fix ic assume "ic \<in> set (certs d)"
    then have "sound_entry lib k ic" using assms that unfolding moz_sound_def by blast
    then obtain c where "ic = mk_ic c (pemInfo ic)" by (rule sound_entryE)
    then have "ic_cert ic = Some c" by (metis issuerCert.select_convs(1) mk_ic_def)
    then show "run_bind (cert_spki (ic_cert ic)) (\<lambda>k. Done
         \<lparr>PubKeyHash = b64_EncodeToString (sha256_Sum256 k), Whitelist = False,
          SubjectDN = b64_EncodeToString (bytes_of_string (subjectDN ic)),
          Subject = subjectDN ic, Pem = pemInfo ic, Enrolled = enrolled d\<rparr>) = Done (ei_of (enrolled d) ic)"
      by (simp add: cert_spki_def ei_of_def)
  qed
  then have "run_list (map (\<lambda>(_, val). enrolled_entries val) (issuerMap mi)) =
      Done (map (\<lambda>(_, d). map (ei_of (enrolled d)) (certs d)) (issuerMap mi))"
    by (intro run_list_Done) auto
  then show ?thesis by (simp add: enrolled_list_def saved_list_def)
qed

lemma load_entry:
  assumes "sound_entry lib k ic"
  shows "\<exists>mi'. load_entries lib (ei_of b ic # rest) mi = load_entries lib rest mi' \<and>
    map_of (issuerMap mi') = (map_of (issuerMap mi))(k \<mapsto> \<lparr>certs = certs_at mi k @ [ic], enrolled = enrolled_at mi k \<or> b\<rparr>)"
proof -
  obtain c where c: "decodeCertificateFromPem lib (pemInfo ic) = Inr c" "cert_id c = k" "ic = mk_ic c (pemInfo ic)"
    using assms by (rule sound_entryE)
  let ?m = "snd (InsertIssuerFromCertAndPem c (pemInfo ic) mi)"
  have m: "map_of (issuerMap ?m) = (map_of (issuerMap mi))(k \<mapsto> \<lparr>certs = certs_at mi k @ [ic], enrolled = enrolled_at mi k\<rparr>)"
    using Insert_map [of c "pemInfo ic" mi] c by simp
  have "map_of (issuerMap (if b then Enroll (NewIssuer c) ?m else ?m)) =
     (map_of (issuerMap mi))(k \<mapsto> \<lparr>certs = certs_at mi k @ [ic], enrolled = enrolled_at mi k \<or> b\<rparr>)"
    using c(2) m unfolding cert_id_def by (simp add: Enroll_map)
  then show ?thesis using c(1) by (auto simp: ei_of_def case_prod_beta)
qed

lemma load_certs:
  assumes "\<forall>ic \<in> set ics. sound_entry lib k ic" and "map_of (issuerMap mi) k = Some \<lparr>certs = cs, enrolled = b\<rparr>"
  shows "\<exists>mi'. load_entries lib (map (ei_of b) ics @ rest) mi = load_entries lib rest mi' \<and>
    map_of (issuerMap mi') = (map_of (issuerMap mi))(k \<mapsto> \<lparr>certs = cs @ ics, enrolled = b\<rparr>)"
  using assms
proof (induction ics arbitrary: mi cs)
  case Nil
  then show ?case by (intro exI [of _ mi]) auto
next
  case (Cons ic ics)
  obtain mi1 where 1: "load_entries lib (ei_of b ic # (map (ei_of b) ics @ rest)) mi = load_entries lib (map (ei_of b) ics @ rest) mi1"
    "map_of (issuerMap mi1) = (map_of (issuerMap mi))(k \<mapsto> \<lparr>certs = cs @ [ic], enrolled = b\<rparr>)"
    using load_entry [of lib k ic b "map (ei_of b) ics @ rest" mi] Cons.prems by (auto simp: certs_at_def enrolled_at_def)
  have "map_of (issuerMap mi1) k = Some \<lparr>certs = cs @ [ic], enrolled = b\<rparr>" by (simp add: 1(2))
  with Cons.IH Cons.prems(1) obtain mi2 where 2:
    "load_entries lib (map (ei_of b) ics @ rest) mi1 = load_entries lib rest mi2"
    "map_of (issuerMap mi2) = (map_of (issuerMap mi1))(k \<mapsto> \<lparr>certs = (cs @ [ic]) @ ics, enrolled = b\<rparr>)"
    by (metis list.set_intros(2))
  then have "map_of (issuerMap mi2) = (map_of (issuerMap mi))(k \<mapsto> \<lparr>certs = cs @ ic # ics, enrolled = b\<rparr>)"
    by (simp add: 1(2) fun_eq_iff)
  then show ?case using 1(1) 2(1) by (intro exI [of _ mi2]) simp
qed

lemma load_issuer:
  assumes "\<forall>ic \<in> set (certs d). sound_entry lib k ic" and "certs d \<noteq> []" and "map_of (issuerMap mi) k = None"
  shows "\<exists>mi'. load_entries lib (map (ei_of (enrolled d)) (certs d) @ rest) mi = load_entries lib rest mi' \<and>
    map_of (issuerMap mi') = (map_of (issuerMap mi))(k \<mapsto> d)"
proof -
  obtain ic ics where ics: "certs d = ic # ics" using assms(2) by (cases "certs d") auto
  let ?rest = "map (ei_of (enrolled d)) ics @ rest"
  obtain mi1 where 1: "load_entries lib (ei_of (enrolled d) ic # ?rest) mi = load_entries lib ?rest mi1"
    "map_of (issuerMap mi1) = (map_of (issuerMap mi))(k \<mapsto> \<lparr>certs = [ic], enrolled = enrolled d\<rparr>)"
    using load_entry [of lib k ic "enrolled d" ?rest mi] assms ics by (auto simp: certs_at_def enrolled_at_def)
  obtain mi2 where 2: "load_entries lib ?rest mi1 = load_entries lib rest mi2"
    "map_of (issuerMap mi2) = (map_of (issuerMap mi1))(k \<mapsto> \<lparr>certs = [ic] @ ics, enrolled = enrolled d\<rparr>)"
    using load_certs [of ics lib k mi1 "[ic]" "enrolled d" rest] assms(1) ics 1(2) by auto
  have "d = \<lparr>certs = [ic] @ ics, enrolled = enrolled d\<rparr>" using ics by simp
  then have "map_of (issuerMap mi2) = (map_of (issuerMap mi))(k \<mapsto> d)" using 1(2) 2(2) by (metis fun_upd_upd)
  moreover have "load_entries lib (map (ei_of (enrolled d)) (certs d) @ rest) mi = load_entries lib rest mi2"
    using 1(1) 2(1) ics by simp
  ultimately show ?thesis by blast
qed

lemma load_saved:
  assumes "wf_map m" and "\<forall>(k, d) \<in> set m. certs d \<noteq> [] \<and> (\<forall>ic \<in> set (certs d). sound_entry lib k ic)"
    and "keys m \<inter> keys (issuerMap mi) = {}"
  shows "\<exists>mi'. load_entries lib (saved_list m) mi = (None, mi') \<and>
    map_of (issuerMap mi') = map_of (issuerMap mi) ++ map_of m"
  using assms
proof (induction m arbitrary: mi)
  case Nil
  then show ?case by (simp add: saved_list_def)
next
  case (Cons kd m)
  obtain k d where kd: "kd = (k, d)" by fastforce
  have none: "map_of (issuerMap mi) k = None" using Cons.prems(3) kd by (auto simp: map_of_None_keys)
  have sound: "\<forall>ic \<in> set (certs d). sound_entry lib k ic" and ne: "certs d \<noteq> []"
    using Cons.prems(2) kd by auto
  obtain mi1 where 1: "load_entries lib (map (ei_of (enrolled d)) (certs d) @ saved_list m) mi = load_entries lib (saved_list m) mi1"
    "map_of (issuerMap mi1) = (map_of (issuerMap mi))(k \<mapsto> d)"
    using load_issuer [OF sound ne none] by blast
  have "keys (issuerMap mi1) = insert k (keys (issuerMap mi))"
    using 1(2) by (metis dom_fun_upd dom_map_of_conv_image_fst option.simps(3))
  then have "keys m \<inter> keys (issuerMap mi1) = {}" using Cons.prems(1,3) kd by auto
  moreover have "wf_map m" using Cons.prems(1) by simp
  moreover have "\<forall>(k, d) \<in> set m. certs d \<noteq> [] \<and> (\<forall>ic \<in> set (certs d). sound_entry lib k ic)"
    using Cons.prems(2) by simp
  ultimately obtain mi2 where 2: "load_entries lib (saved_list m) mi1 = (None, mi2)"
    "map_of (issuerMap mi2) = map_of (issuerMap mi1) ++ map_of m" using Cons.IH by blast
  have "k \<notin> dom (map_of m)" using Cons.prems(1) kd by (simp add: dom_map_of_conv_image_fst)
  then have "map_of (issuerMap mi2) = map_of (issuerMap mi) ++ map_of (kd # m)"
    using 2(2) 1(2) kd by (auto simp: map_add_def fun_eq_iff domIff split: option.split)
  moreover have "load_entries lib (saved_list (kd # m)) mi = (None, mi2)"
    using 1(1) 2(1) kd by (simp add: saved_list_def)
  ultimately show ?case by blast
qed

subsection \<open>Lemmas: loading the report\<close>

definition report_ok :: "x509_lib \<Rightarrow> string \<Rightarrow> bool" where
  "report_ok lib csv =
     (case csv_Read (csv_NewReader csv) of
        (Inl _, _) \<Rightarrow> False
      | (Inr columns, r) \<Rightarrow>
          list_all (\<lambda>row. row_entry lib (pem_column (column_map columns)) row \<noteq> None) (fst (csv_records r)))"

lemma parseCCADB_ok: "\<exists>e mi'. parseCCADB lib csv mi = Done (e, mi') \<and> (e = None \<longleftrightarrow> report_ok lib csv)"
proof (cases "csv_Read (csv_NewReader csv)")
  case (Pair x r)
  show ?thesis
  proof (cases x)
    case Inl
    then show ?thesis using Pair by (simp add: parseCCADB_def report_ok_def)
  next
    case (Inr columns)
    then show ?thesis using parseCCADB_result [of csv columns r lib mi] Pair
      by (auto simp: report_ok_def list_all_iff)
  qed
qed

definition report_valid :: "x509_lib \<Rightarrow> bytes option \<Rightarrow> bool" where
  "report_valid lib c = (case c of None \<Rightarrow> False | Some bs \<Rightarrow> report_ok lib (string_of_bytes bs))"

context disk
begin

lemma LoadFromDisk_result:
  "\<exists>e mi'. LoadFromDisk lib os path mi w = Done (e, mi') \<and> (e = None \<longleftrightarrow> report_valid lib (content w path))"
proof (cases "content w path")
  case None
  then have "os_Open os path w \<noteq> None" using open_exists by metis
  then show ?thesis using None by (auto simp: LoadFromDisk_def report_valid_def)
next
  case (Some bs)
  then have "os_Open os path w = None" using open_exists by (metis option.distinct(1))
  moreover obtain sz t where "os_Stat os path w = Inr (sz, t)" using stat_exists [of w path] Some by auto
  ultimately show ?thesis
    using parseCCADB_ok [of lib "string_of_bytes bs" "mi\<lparr>modTime := t\<rparr>"] Some
    by (auto simp: LoadFromDisk_def report_valid_def read_content)
qed

lemma verifier_verdict: "verifier_IsValid lib os t path w = None \<longleftrightarrow> report_valid lib (content w path)"
  using LoadFromDisk_result [of lib path "NewMozillaIssuers t" w] by (auto simp: verifier_IsValid_def)

lemma LoadFromDisk_parses:
  assumes "LoadFromDisk lib os path mi w = Done (None, mi')"
  shows "\<exists>bs t. content w path = Some bs \<and> parseCCADB lib (string_of_bytes bs) (mi\<lparr>modTime := t\<rparr>) = Done (None, mi')"
  using assms by (auto simp: LoadFromDisk_def read_content split: option.splits sum.splits prod.splits)

text \<open>
  After \<^verbatim>\<open>Load\<close> without an error the map is that of the report on disk; with an error nothing was
  loaded. The second reading of the file cannot fail: it was verified.
\<close>

lemma Load_result:
  assumes "up (ReportUrl mi) = Inr u"
  shows "\<exists>err mi' w'. Load up lib os t mi w = Done ((err, mi'), w') \<and>
    (if report_valid lib (content w' (DiskPath mi))
     then err = None \<and> (\<exists>bs mt. content w' (DiskPath mi) = Some bs \<and>
        parseCCADB lib (string_of_bytes bs) (mi\<lparr>modTime := mt\<rparr>) = Done (None, mi'))
     else err \<noteq> None \<and> mi' = mi)"
proof -
  obtain ok e calls w1 where d: "DownloadAndVerifyFileSync os (verifier_IsValid lib os t) identifier_ID
      (url_String u) (DiskPath mi) 3 w = ((ok, e), calls, w1)" by (metis surj_pair)
  note s = download_and_verify [OF verifier_verdict d]
  obtain e2 mi2 where l: "LoadFromDisk lib os (DiskPath mi) mi w1 = Done (e2, mi2)"
    "e2 = None \<longleftrightarrow> report_valid lib (content w1 (DiskPath mi))" using LoadFromDisk_result by blast
  show ?thesis
  proof (cases ok)
    case True
    then have "report_valid lib (content w1 (DiskPath mi))" using s(1) by blast
    then show ?thesis using l LoadFromDisk_parses [of lib "DiskPath mi" mi w1 mi2] True
      by (simp add: Load_def assms d)
  next
    case False
    then have "\<not> report_valid lib (content w1 (DiskPath mi))" "e \<noteq> None" using s(1,3) by blast+
    then show ?thesis using False by (simp add: Load_def assms d)
  qed
qed

lemma Save_then_Load:
  assumes sound: "moz_sound lib mi"
    and enc: "enc (saved_list (issuerMap mi)) = Inr bs"
    and dec: "dec (bs @ [10]) = Inr (saved_list (issuerMap mi))"
    and wr: "\<And>w. content w path \<noteq> None \<Longrightarrow> fst (os_Write os path (bs @ [10]) w) = None"
    and save: "SaveIssuersList enc os path mi w = Done (None, w')"
    and fresh: "issuerMap mi0 = []"
  shows "\<exists>mi'. LoadEnrolledIssuers lib dec os path mi0 w' = (None, mi') \<and>
    map_of (issuerMap mi') = map_of (issuerMap mi)"
proof -
  obtain w1 where o1: "os_OpenFile os path O_TRUNC_CREATE_WRONLY w = (None, w1)"
    using save by (auto simp: SaveIssuersList_def enrolled_list_sound [OF sound] Let_def split: prod.splits option.splits)
  obtain w2 where w2: "os_Write os path (bs @ [10]) w1 = (None, w2)" using wr [of w1] trunc_content [OF o1] by (cases "os_Write os path (bs @ [10]) w1") simp
  have cl: "os_Close os path w2 = (None, w')"
    using save by (simp add: SaveIssuersList_def enrolled_list_sound [OF sound] o1 enc w2)
  have "content w2 = (content w1)(path \<mapsto> [] @ (bs @ [10]))"
    using write_content [OF w2] trunc_content [OF o1] by simp
  then have "content w' path = Some (bs @ [10])" using close_keeps [OF cl] by simp
  moreover have "\<exists>mi'. load_entries lib (saved_list (issuerMap mi)) mi0 = (None, mi') \<and>
      map_of (issuerMap mi') = map_of (issuerMap mi0) ++ map_of (issuerMap mi)"
    using sound fresh by (intro load_saved) (auto simp: moz_sound_def moz_inv_def)
  ultimately show ?thesis by (simp add: LoadEnrolledIssuers_def read_content dec fresh)
qed

end

subsection \<open>Properties\<close>

text \<open>A certificate is its own PEM text here; a text that begins with \<open>x\<close> is no certificate.\<close>

definition text_cert :: "string \<Rightarrow> Certificate" where
  "text_cert s = (sample_cert [])\<lparr>RawSubjectPublicKeyInfo := bytes_of_string s, cert_Subject := s\<rparr>"

definition sample_lib :: x509_lib where
  "sample_lib = \<lparr>
     pem_Decode = (\<lambda>bs. if bs = [] then (None, [])
       else (Some \<lparr>pem_Type = ''CERTIFICATE'', pem_Headers = [], pem_Bytes = bs\<rparr>, [])),
     x509_ParseCertificate = (\<lambda>bs. if hd (string_of_bytes bs) = CHR ''x'' then Inl (ExtError ''bad'')
       else Inr (text_cert (string_of_bytes bs)))\<rparr>"

lemma sample_lib_decode:
  "decodeCertificateFromPem sample_lib p =
     (if p = [] then Inl (Errorf ''Not a valid PEM'') else if hd p = CHR ''x'' then Inl (ExtError ''bad'') else Inr (text_cert p))"
proof -
  have "bytes_of_string p = [] \<longleftrightarrow> p = []" by (simp add: bytes_of_string_def)
  then show ?thesis by (simp add: decodeCertificateFromPem_def sample_lib_def)
qed

definition sample_csv :: string where
  "sample_csv = ''PEM,Name'' @ [csv_newline] @ [CHR 0x27] @ ''A'' @ [CHR 0x27] @ '',n'' @ [csv_newline] @ ''B,m'' @ [csv_newline]"

lemma sample_csv_Read:
  "csv_Read (csv_NewReader sample_csv) =
     (Inr [''PEM'', ''Name''], \<lparr>FieldsPerRecord = 2, csv_input = drop 9 sample_csv\<rparr>)"
  by code_simp

lemma sample_csv_records:
  "csv_records \<lparr>FieldsPerRecord = 2, csv_input = drop 9 sample_csv\<rparr> =
     ([[[CHR 0x27] @ ''A'' @ [CHR 0x27], ''n''], [''B'', ''m'']], io_EOF)"
  by code_simp

text \<open>
  C24. \<^verbatim>\<open>parseCCADB\<close> on a report whose header can be read: it does not panic; it fails exactly if the
  certificate of some record does not decode; and the map then holds, under each issuer
  identifier, what it held before followed by the certificates with that key, in the order of the
  report, up to the first record that does not decode. No enrolment changes.
\<close>

theorem ccadb_report:
  assumes "csv_Read (csv_NewReader csv) = (Inr columns, r)"
  shows "\<exists>e mi'. parseCCADB lib csv mi = Done (e, mi') \<and>
    (e = None \<longleftrightarrow> (\<forall>row \<in> set (fst (csv_records r)). row_entry lib (pem_column (column_map columns)) row \<noteq> None)) \<and>
    (\<forall>k. certs_at mi' k = certs_at mi k @ map (\<lambda>(c, p). mk_ic c p)
       (filter (\<lambda>(c, p). cert_id c = k) (good_entries lib (pem_column (column_map columns)) (fst (csv_records r))))) \<and>
    (\<forall>k. enrolled_at mi' k = enrolled_at mi k)"
  using parseCCADB_result [OF assms, of lib mi] by (auto simp: insert_all_at)

theorem ccadb_report_witness:
  "\<exists>mi'. parseCCADB sample_lib sample_csv (NewMozillaIssuers ''t'') = Done (None, mi') \<and>
     mk_ic (text_cert ''A'') ''A'' \<in> set (certs_at mi' (cert_id (text_cert ''A''))) \<and>
     mk_ic (text_cert ''B'') ''B'' \<in> set (certs_at mi' (cert_id (text_cert ''B'')))"
proof -
  have col: "pem_column (column_map [''PEM'', ''Name'']) = 0" by code_simp
  have trim: "strings_Trim_char ([CHR 0x27] @ ''A'' @ [CHR 0x27]) (CHR 0x27) = ''A''"
    "strings_Trim_char ''B'' (CHR 0x27) = ''B''" by code_simp+
  have e: "row_entry sample_lib 0 [[CHR 0x27] @ ''A'' @ [CHR 0x27], ''n''] = Some (text_cert ''A'', ''A'')"
    "row_entry sample_lib 0 [''B'', ''m''] = Some (text_cert ''B'', ''B'')"
    unfolding row_entry_def using trim by (simp_all add: sample_lib_decode Let_def)
  show ?thesis
    using ccadb_report [OF sample_csv_Read, of sample_lib "NewMozillaIssuers ''t''"]
    unfolding col sample_csv_records good_entries_def using e by fastforce
qed

text \<open>
  C27. In every state a program reaches from \<^verbatim>\<open>NewMozillaIssuers\<close> by inserting, enrolling and loading,
  no lookup panics: \<^verbatim>\<open>GetCertificateForIssuer\<close> and \<^verbatim>\<open>GetSubjectForIssuer\<close> return the first certificate
  and its subject for the issuers in the program and an error for the others.
\<close>

theorem moz_lookups_total:
  assumes "(moz_step lib os)\<^sup>*\<^sup>* (NewMozillaIssuers t) mi"
  shows "if IsIssuerInProgram mi i
    then certs_at mi (Issuer_ID i) \<noteq> [] \<and>
      GetCertificateForIssuer mi i = Done (Inr (ic_cert (hd (certs_at mi (Issuer_ID i))))) \<and>
      GetSubjectForIssuer mi i = Done (Inr (subjectDN (hd (certs_at mi (Issuer_ID i)))))
    else GetCertificateForIssuer mi i = Done (Inl (unknown_issuer i)) \<and>
      GetSubjectForIssuer mi i = Done (Inl (unknown_issuer i)) \<and> \<not> IsIssuerEnrolled mi i"
proof (cases "map_of (issuerMap mi) (Issuer_ID i)")
  case (Some d)
  then have "certs d \<noteq> []" using moz_invD [OF moz_inv_reachable [OF assms moz_inv_New]] by blast
  then show ?thesis using Some
    by (cases "certs d") (simp_all add: IsIssuerInProgram_def certs_at_def GetCertificateForIssuer_def
        GetSubjectForIssuer_def first_cert_def)
qed (simp add: IsIssuerInProgram_def GetCertificateForIssuer_def GetSubjectForIssuer_def IsIssuerEnrolled_def)

theorem moz_lookups_total_witness:
  "GetSubjectForIssuer (snd (InsertIssuerFromCertAndPem (text_cert ''A'') ''A'' (NewMozillaIssuers ''t''))) (NewIssuer (text_cert ''A''))
     = Done (Inr ''A'')"
proof -
  let ?mi = "snd (InsertIssuerFromCertAndPem (text_cert ''A'') ''A'' (NewMozillaIssuers ''t''))"
  have "(moz_step sample_lib sim_os)\<^sup>*\<^sup>* (NewMozillaIssuers ''t'') ?mi" using moz_step.insert by blast
  from moz_lookups_total [OF this, of "NewIssuer (text_cert ''A'')"] show ?thesis
    by (simp add: IsIssuerInProgram_def Insert_map cert_id_def certs_at_def NewMozillaIssuers_def mk_ic_def text_cert_def)
qed

text \<open>
  \<^verbatim>\<open>Enroll\<close> marks the issuer if the program knows it and does nothing otherwise: afterwards an issuer
  is enrolled if it was, or if it is the one named and in the program; the certificates and the
  issuers of the program stay as they are.
\<close>

theorem enroll_effect:
  "(IsIssuerEnrolled (Enroll i mi) j \<longleftrightarrow>
      IsIssuerEnrolled mi j \<or> (Issuer_ID j = Issuer_ID i \<and> IsIssuerInProgram mi i)) \<and>
   IsIssuerInProgram (Enroll i mi) j = IsIssuerInProgram mi j \<and>
   certs_at (Enroll i mi) k = certs_at mi k \<and> Enroll i (Enroll i mi) = Enroll i mi"
proof -
  have "Enroll i (Enroll i mi) = Enroll i mi"
  proof (cases "map_of (issuerMap mi) (Issuer_ID i)")
    case (Some d)
    have "AList.update (Issuer_ID i) e (AList.update (Issuer_ID i) e m) = AList.update (Issuer_ID i) e m" for e :: IssuerData and m
      by (induction m) auto
    then show ?thesis using Some by (simp add: Enroll_def)
  qed (simp add: Enroll_def)
  then show ?thesis
    by (auto simp: IsIssuerEnrolled_def IsIssuerInProgram_def certs_at_def Enroll_map split: option.splits if_splits)
qed

text \<open>
  C25. \<^verbatim>\<open>Load\<close> on any disk that satisfies the laws of files: it does not panic; when it returns without an
  error, the map is the one that the report now on disk leads to; and it returns an error, with
  the issuers unchanged, exactly when what is on disk is not a report whose certificates decode,
  whether it was just downloaded or left by an earlier run.
\<close>

theorem load_report:
  assumes "disk os content" and "up (ReportUrl mi) = Inr u"
  shows "\<exists>err mi' w'. Load up lib os t mi w = Done ((err, mi'), w') \<and>
    (if report_valid lib (content w' (DiskPath mi))
     then err = None \<and> (\<exists>bs mt. content w' (DiskPath mi) = Some bs \<and>
        parseCCADB lib (string_of_bytes bs) (mi\<lparr>modTime := mt\<rparr>) = Done (None, mi'))
     else err \<noteq> None \<and> mi' = mi)"
  using disk.Load_result [OF assms(1), of up mi u lib t w] assms(2) by blast

definition any_url :: url_Parse where
  "any_url s = Inr \<lparr>Scheme = ''https'', url_Host = [], url_Path = [], url_String = s\<rparr>"

theorem load_report_witness:
  "\<exists>err mi' w'. Load any_url sample_lib sim_os ''t'' (NewMozillaIssuers ''t'') sample_sim = Done ((err, mi'), w') \<and>
     (err = None \<longrightarrow> sim_content w' ''t/mozilla_issuers.csv'' \<noteq> None)"
  using load_report [OF sim.disk_axioms, of any_url "NewMozillaIssuers ''t''" _ sample_lib "''t''" sample_sim]
  by (fastforce simp: any_url_def NewMozillaIssuers_def split: if_splits)

text \<open>
  C26. The list of issuers that one stage saves is what the next stage loads: for a map whose entries
  come from a report, \<^verbatim>\<open>SaveIssuersList\<close> followed by \<^verbatim>\<open>LoadEnrolledIssuers\<close> into a fresh map gives
  every issuer its certificates, in order, and its enrolment, on any disk that satisfies the laws
  of files if the bytes are written and the JSON package decodes what it encoded.
\<close>

theorem enrolled_issuers_round_trip:
  assumes "disk os content" and "moz_sound lib mi"
    and "enc (saved_list (issuerMap mi)) = Inr bs" and "dec (bs @ [10]) = Inr (saved_list (issuerMap mi))"
    and "\<And>w. content w path \<noteq> None \<Longrightarrow> fst (os_Write os path (bs @ [10]) w) = None"
    and "SaveIssuersList enc os path mi w = Done (None, w')"
  shows "\<exists>mi'. LoadEnrolledIssuers lib dec os path (NewMozillaIssuers t) w' = (None, mi') \<and>
    (\<forall>k. certs_at mi' k = certs_at mi k \<and> enrolled_at mi' k = enrolled_at mi k)"
  using disk.Save_then_Load [where enc = enc and dec = dec and mi = mi and bs = bs and path = path and
      ?mi0.0 = "NewMozillaIssuers t", OF assms]
  by (auto simp: NewMozillaIssuers_def certs_at_def enrolled_at_def)

definition sample_moz :: MozIssuers where
  "sample_moz = Enroll (NewIssuer (text_cert ''B''))
     (insert_all [(text_cert ''A'', ''A''), (text_cert ''B'', ''B'')] (NewMozillaIssuers ''t''))"

lemma moz_sound_Enroll: "moz_sound lib mi \<Longrightarrow> moz_sound lib (Enroll i mi)"
  using moz_soundD [of lib mi] moz_invD [of mi]
  by (auto simp: Enroll_def moz_sound_def [of _ mi] intro!: moz_sound_update split: option.split)

lemma moz_sound_sample: "moz_sound sample_lib sample_moz"
  unfolding sample_moz_def
  by (intro moz_sound_Enroll moz_sound_insert_all) (simp_all add: sample_lib_decode)

theorem enrolled_issuers_round_trip_witness:
  "\<exists>w' mi'. SaveIssuersList (\<lambda>_. Inr [7]) sim_os ''e'' sample_moz sample_sim = Done (None, w') \<and>
     LoadEnrolledIssuers sample_lib (\<lambda>_. Inr (saved_list (issuerMap sample_moz))) sim_os ''e'' (NewMozillaIssuers ''t'') w' = (None, mi') \<and>
     enrolled_at mi' (cert_id (text_cert ''B''))"
proof -
  let ?enc = "\<lambda>_ :: EnrolledIssuer list. Inr [7] :: go_error + bytes"
  let ?dec = "\<lambda>_ :: bytes. Inr (saved_list (issuerMap sample_moz)) :: go_error + EnrolledIssuer list"
  obtain w' where w: "SaveIssuersList ?enc sim_os ''e'' sample_moz sample_sim = Done (None, w')"
    by (simp add: SaveIssuersList_def enrolled_list_sound [OF moz_sound_sample] sim_OpenFile_def)
  have wr: "fst (os_Write sim_os ''e'' ([7] @ [10]) v) = None" if "sim_content v ''e'' \<noteq> None" for v
    using that by (auto simp: sim_Write_def sim_content_def)
  have "enrolled_at sample_moz (cert_id (text_cert ''B''))"
    unfolding sample_moz_def enrolled_at_def Enroll_map by (auto simp: cert_id_def Insert_map split: option.split)
  then show ?thesis
    using enrolled_issuers_round_trip [where dec = ?dec and t = "''t''", OF sim.disk_axioms moz_sound_sample refl refl wr w] w
    by fastforce
qed

text \<open>
  \<^verbatim>\<open>SaveIssuersList\<close> hides a failure to encode or to write the list: whatever the encoder and the
  write report, the result is that of closing the file. When encoding fails and the file closes,
  the caller is told nil and the file is empty.
\<close>

theorem save_issuers_hides_errors:
  assumes "disk os content" and "moz_sound lib mi" and "enc (saved_list (issuerMap mi)) = Inl err"
    and "os_OpenFile os path O_TRUNC_CREATE_WRONLY w = (None, w1)" and "os_Close os path w1 = (None, w2)"
  shows "SaveIssuersList enc os path mi w = Done (None, w2) \<and> content w2 path = Some []"
  using disk.trunc_content [OF assms(1,4)] disk.close_keeps [OF assms(1,5)]
  by (simp add: SaveIssuersList_def enrolled_list_sound [OF assms(2)] assms(3-5))

theorem save_issuers_hides_errors_witness:
  "\<exists>w2. SaveIssuersList (\<lambda>_. Inl (StdError ''json'')) sim_os ''e'' sample_moz sample_sim = Done (None, w2) \<and>
     sim_content w2 ''e'' = Some []"
proof -
  have "os_OpenFile sim_os ''e'' O_TRUNC_CREATE_WRONLY sample_sim =
      (None, sample_sim\<lparr>sim_files := (sim_files sample_sim)(''e'' \<mapsto> ([], sim_now sample_sim))\<rparr>)"
    by (simp add: sim_OpenFile_def)
  from save_issuers_hides_errors [where enc = "\<lambda>_. Inl (StdError ''json'')", OF sim.disk_axioms moz_sound_sample refl this]
  show ?thesis by simp
qed

end
