(* ===== verification/Crl_Auditor.thy ===== *)
theory Crl_Auditor
  imports Root_Program
begin

text \<open>
  \<^verbatim>\<open>cmd/aggregate-crls/crl-auditor.go\<close>: the report of what happened to each CRL. One record for an entry, one
  operation per method; each appends one entry. The methods hold a mutex and run one at a time. The
  clock's time is the argument \<open>now\<close>; the issuers, which the auditor shares with the engine, are the
  argument \<open>mi\<close>; the JSON of the report is an argument of \<^verbatim>\<open>WriteReport\<close>.

  The lemmas show that every call appends exactly one entry and leaves the others, and that no call
  panics when the issuers satisfy \<open>moz_inv\<close>.
\<close>

datatype CrlAuditEntryKind = AuditKindFailedDownload | AuditKindFailedProcessLocal | AuditKindFailedVerify
  | AuditKindOlderThanLast | AuditKindNoRevocations | AuditKindOld | AuditKindExpired | AuditKindValid

fun kind_text :: "CrlAuditEntryKind \<Rightarrow> string" where
  "kind_text AuditKindFailedDownload = ''Failed Download''"
| "kind_text AuditKindFailedProcessLocal = ''Failed Process Local''"
| "kind_text AuditKindFailedVerify = ''Failed Verify''"
| "kind_text AuditKindOlderThanLast = ''Older Than Previous''"
| "kind_text AuditKindNoRevocations = ''Empty Revocation List''"
| "kind_text AuditKindOld = ''Not Fresh, Warning''"
| "kind_text AuditKindExpired = ''Expired, Allowed''"
| "kind_text AuditKindValid = ''Valid, Processed''"

text \<open>What implements \<^verbatim>\<open>downloader.DownloadIdentifier\<close>: an issuer, or anything else with an identifier.\<close>

datatype DownloadIdentifier = IssuerIdent Issuer | OtherIdent string

record CrlAuditEntry =
  Timestamp :: time
  ae_Url :: string
  ae_Path :: string
  ae_Age :: string
  ae_Issuer :: DownloadIdentifier
  IssuerSubject :: string
  Kind :: CrlAuditEntryKind
  ae_Errors :: "string list"
  ae_DNSResults :: "string list"
  NumRevocations :: int
  SHA256Sum :: string

record CrlAuditor =
  Entries :: "CrlAuditEntry list"

definition NewCrlAuditor :: CrlAuditor where
  "NewCrlAuditor = \<lparr>Entries = []\<rparr>"

definition getSubject :: "MozIssuers \<Rightarrow> DownloadIdentifier \<Rightarrow> string run" where
  "getSubject mi ident =
     (case ident of
        OtherIdent _ \<Rightarrow> Done []
      | IssuerIdent issuer \<Rightarrow>
          run_bind (GetSubjectForIssuer mi issuer)
            (\<lambda>r. case r of Inl err \<Rightarrow> Done [] | Inr subject \<Rightarrow> Done subject))"

definition GetEntries :: "CrlAuditor \<Rightarrow> CrlAuditEntry list" where
  "GetEntries a = Entries a"

text \<open>The encoder's bytes and the newline it adds go to the writer \<open>out\<close>.\<close>

definition WriteReport ::
  "(CrlAuditEntry list \<Rightarrow> go_error + bytes) \<Rightarrow> (bytes \<Rightarrow> 'w \<Rightarrow> go_error option \<times> 'w) \<Rightarrow> CrlAuditor \<Rightarrow> 'w \<Rightarrow> go_error option \<times> 'w" where
  "WriteReport enc out a w =
     (case enc (Entries a) of Inl err \<Rightarrow> (Some err, w) | Inr bs \<Rightarrow> out (bs @ [10]) w)"

text \<open>The fields that every entry has; the rest are zero values.\<close>

definition base_entry :: "time \<Rightarrow> CrlAuditEntryKind \<Rightarrow> string \<Rightarrow> DownloadIdentifier \<Rightarrow> string \<Rightarrow> CrlAuditEntry" where
  "base_entry now kind crlUrl issuer subject =
     \<lparr>Timestamp = now, ae_Url = crlUrl, ae_Path = [], ae_Age = [], ae_Issuer = issuer, IssuerSubject = subject,
      Kind = kind, ae_Errors = [], ae_DNSResults = [], NumRevocations = 0, SHA256Sum = []\<rparr>"

definition append_entry ::
  "MozIssuers \<Rightarrow> time \<Rightarrow> CrlAuditEntryKind \<Rightarrow> DownloadIdentifier \<Rightarrow> string \<Rightarrow> (CrlAuditEntry \<Rightarrow> CrlAuditEntry)
    \<Rightarrow> CrlAuditor \<Rightarrow> CrlAuditor run" where
  "append_entry mi now kind issuer crlUrl f a =
     run_bind (getSubject mi issuer) (\<lambda>subject.
       Done (a\<lparr>Entries := Entries a @ [f (base_entry now kind crlUrl issuer subject)]\<rparr>))"

definition Audit_FailedDownload ::
  "MozIssuers \<Rightarrow> time \<Rightarrow> DownloadIdentifier \<Rightarrow> string \<Rightarrow> DownloadTracer \<Rightarrow> go_error \<Rightarrow> CrlAuditor \<Rightarrow> CrlAuditor run" where
  "Audit_FailedDownload mi now issuer crlUrl dlTracer err =
     append_entry mi now AuditKindFailedDownload issuer crlUrl
       (\<lambda>e. e\<lparr>ae_Errors := tracer_Errors dlTracer @ [err_text err], ae_DNSResults := DNSResults dlTracer\<rparr>)"

definition Audit_FailedVerifyUrl ::
  "MozIssuers \<Rightarrow> time \<Rightarrow> DownloadIdentifier \<Rightarrow> string \<Rightarrow> DownloadTracer \<Rightarrow> go_error \<Rightarrow> CrlAuditor \<Rightarrow> CrlAuditor run" where
  "Audit_FailedVerifyUrl mi now issuer crlUrl dlTracer err =
     append_entry mi now AuditKindFailedVerify issuer crlUrl
       (\<lambda>e. e\<lparr>ae_Errors := tracer_Errors dlTracer @ [err_text err], ae_DNSResults := DNSResults dlTracer\<rparr>)"

definition FailedOlderThanPrevious ::
  "MozIssuers \<Rightarrow> time \<Rightarrow> DownloadIdentifier \<Rightarrow> string \<Rightarrow> DownloadTracer \<Rightarrow> time \<Rightarrow> time \<Rightarrow> CrlAuditor \<Rightarrow> CrlAuditor run" where
  "FailedOlderThanPrevious mi now issuer crlUrl dlTracer previous this =
     append_entry mi now AuditKindOlderThanLast issuer crlUrl
       (\<lambda>e. e\<lparr>ae_Errors := tracer_Errors dlTracer @
            [''Previous: '' @ time_String previous @ '', This Run: '' @ time_String this],
          ae_DNSResults := DNSResults dlTracer\<rparr>)"

definition Audit_Old ::
  "MozIssuers \<Rightarrow> time \<Rightarrow> DownloadIdentifier \<Rightarrow> string \<Rightarrow> duration \<Rightarrow> CrlAuditor \<Rightarrow> CrlAuditor run" where
  "Audit_Old mi now issuer crlUrl age =
     append_entry mi now AuditKindOld issuer crlUrl (\<lambda>e. e\<lparr>ae_Age := duration_String age\<rparr>)"

definition Audit_Expired ::
  "MozIssuers \<Rightarrow> time \<Rightarrow> DownloadIdentifier \<Rightarrow> string \<Rightarrow> time \<Rightarrow> CrlAuditor \<Rightarrow> CrlAuditor run" where
  "Audit_Expired mi now issuer crlUrl nextUpdate =
     append_entry mi now AuditKindExpired issuer crlUrl
       (\<lambda>e. e\<lparr>ae_Errors := [''Expired, NextUpdate was '' @ time_String nextUpdate]\<rparr>)"

definition Audit_FailedVerifyPath ::
  "MozIssuers \<Rightarrow> time \<Rightarrow> DownloadIdentifier \<Rightarrow> string \<Rightarrow> string \<Rightarrow> go_error \<Rightarrow> CrlAuditor \<Rightarrow> CrlAuditor run" where
  "Audit_FailedVerifyPath mi now issuer crlUrl crlPath err =
     append_entry mi now AuditKindFailedVerify issuer crlUrl
       (\<lambda>e. e\<lparr>ae_Path := crlPath, ae_Errors := [err_text err]\<rparr>)"

definition FailedProcessLocal ::
  "MozIssuers \<Rightarrow> time \<Rightarrow> DownloadIdentifier \<Rightarrow> string \<Rightarrow> string \<Rightarrow> go_error \<Rightarrow> CrlAuditor \<Rightarrow> CrlAuditor run" where
  "FailedProcessLocal mi now issuer crlUrl crlPath err =
     append_entry mi now AuditKindFailedProcessLocal issuer crlUrl
       (\<lambda>e. e\<lparr>ae_Path := crlPath, ae_Errors := [err_text err]\<rparr>)"

definition NoRevocations ::
  "MozIssuers \<Rightarrow> time \<Rightarrow> DownloadIdentifier \<Rightarrow> string \<Rightarrow> string \<Rightarrow> CrlAuditor \<Rightarrow> CrlAuditor run" where
  "NoRevocations mi now issuer crlUrl crlPath =
     append_entry mi now AuditKindNoRevocations issuer crlUrl (\<lambda>e. e\<lparr>ae_Path := crlPath\<rparr>)"

definition ValidAndProcessed ::
  "MozIssuers \<Rightarrow> time \<Rightarrow> DownloadIdentifier \<Rightarrow> string \<Rightarrow> string \<Rightarrow> int \<Rightarrow> duration \<Rightarrow> bytes \<Rightarrow> CrlAuditor \<Rightarrow> CrlAuditor run" where
  "ValidAndProcessed mi now issuer crlUrl crlPath numRevocations age sha256 =
     append_entry mi now AuditKindValid issuer crlUrl
       (\<lambda>e. e\<lparr>ae_Path := crlPath, ae_Age := duration_String age, SHA256Sum := hex_EncodeToString sha256,
          NumRevocations := numRevocations\<rparr>)"

text \<open>The calls that the downloader makes through its interface, with the issuer it was given.\<close>

fun audit_calls ::
  "MozIssuers \<Rightarrow> time \<Rightarrow> DownloadIdentifier \<Rightarrow> DownloadAuditor list \<Rightarrow> CrlAuditor \<Rightarrow> CrlAuditor run" where
  "audit_calls mi now issuer [] a = Done a"
| "audit_calls mi now issuer (call # calls) a =
     run_bind
       (case call of
          FailedDownload _ u tr err \<Rightarrow> Audit_FailedDownload mi now issuer u tr err a
        | FailedVerifyUrl _ u tr err \<Rightarrow> Audit_FailedVerifyUrl mi now issuer u tr err a
        | FailedVerifyPath _ u path err \<Rightarrow> Audit_FailedVerifyPath mi now issuer u path err a)
       (audit_calls mi now issuer calls)"

subsection \<open>Lemmas\<close>

lemmas audit_defs = Audit_FailedDownload_def Audit_FailedVerifyUrl_def FailedOlderThanPrevious_def Audit_Old_def
  Audit_Expired_def Audit_FailedVerifyPath_def FailedProcessLocal_def NoRevocations_def ValidAndProcessed_def

lemma getSubject_total: "moz_inv mi \<Longrightarrow> \<exists>s. getSubject mi i = Done s"
  by (auto simp: getSubject_def GetSubjectForIssuer_def first_cert_def dest: moz_invD
      split: DownloadIdentifier.split option.split list.split)

lemma append_entry_total:
  assumes "moz_inv mi"
  shows "\<exists>s. append_entry mi now kind i u f a = Done (a\<lparr>Entries := Entries a @ [f (base_entry now kind u i s)]\<rparr>)"
  using getSubject_total [OF assms, of i] by (auto simp: append_entry_def)

text \<open>
  Every operation of the auditor, as one statement: a new entry at the end, of the kind of the
  operation, for the URL and the issuer it was called with.
\<close>

definition appends :: "CrlAuditor \<Rightarrow> CrlAuditor run \<Rightarrow> CrlAuditEntryKind \<Rightarrow> string \<Rightarrow> DownloadIdentifier \<Rightarrow> bool" where
  "appends a r kind u i \<longleftrightarrow>
     (\<exists>e. r = Done (a\<lparr>Entries := Entries a @ [e]\<rparr>) \<and> Kind e = kind \<and> ae_Url e = u \<and> ae_Issuer e = i)"

lemma appends_append_entry:
  assumes "moz_inv mi" and "\<And>e. Kind (f e) = Kind e \<and> ae_Url (f e) = ae_Url e \<and> ae_Issuer (f e) = ae_Issuer e"
  shows "appends a (append_entry mi now kind i u f a) kind u i"
  using append_entry_total [OF assms(1), of now kind i u f a] assms(2) by (auto simp: appends_def base_entry_def)

lemma audit_calls_total:
  assumes "moz_inv mi"
  shows "\<exists>es. audit_calls mi now i calls a = Done (a\<lparr>Entries := Entries a @ es\<rparr>) \<and> length es = length calls"
proof (induction calls arbitrary: a)
  case Nil
  show ?case by (intro exI [of _ "[]"]) simp
next
  case (Cons call calls)
  have "\<exists>e. (case call of
          FailedDownload _ u tr err \<Rightarrow> Audit_FailedDownload mi now i u tr err a
        | FailedVerifyUrl _ u tr err \<Rightarrow> Audit_FailedVerifyUrl mi now i u tr err a
        | FailedVerifyPath _ u path err \<Rightarrow> Audit_FailedVerifyPath mi now i u path err a) = Done (a\<lparr>Entries := Entries a @ [e]\<rparr>)"
    using append_entry_total [OF assms] by (cases call) (simp add: audit_defs, blast)+
  then obtain e where e: "(case call of
          FailedDownload _ u tr err \<Rightarrow> Audit_FailedDownload mi now i u tr err a
        | FailedVerifyUrl _ u tr err \<Rightarrow> Audit_FailedVerifyUrl mi now i u tr err a
        | FailedVerifyPath _ u path err \<Rightarrow> Audit_FailedVerifyPath mi now i u path err a) = Done (a\<lparr>Entries := Entries a @ [e]\<rparr>)" ..
  obtain es where "audit_calls mi now i calls (a\<lparr>Entries := Entries a @ [e]\<rparr>) =
      Done (a\<lparr>Entries := Entries a @ e # es\<rparr>)" "length es = length calls"
    using Cons [of "a\<lparr>Entries := Entries a @ [e]\<rparr>"] by auto
  then show ?case using e by (intro exI [of _ "e # es"]) simp
qed

subsection \<open>Properties\<close>

text \<open>
  With issuers that satisfy their invariant no call of the auditor panics, and each appends exactly one
  entry to the report, of its own kind, for the URL and the issuer it was called with; the entries
  written before stay as they are, in order.
\<close>

theorem audit_appends_one:
  assumes "moz_inv mi"
  shows "appends a (Audit_FailedDownload mi now i u tr err a) AuditKindFailedDownload u i \<and>
    appends a (Audit_FailedVerifyUrl mi now i u tr err a) AuditKindFailedVerify u i \<and>
    appends a (FailedOlderThanPrevious mi now i u tr t1 t2 a) AuditKindOlderThanLast u i \<and>
    appends a (Audit_Old mi now i u age a) AuditKindOld u i \<and>
    appends a (Audit_Expired mi now i u t1 a) AuditKindExpired u i \<and>
    appends a (Audit_FailedVerifyPath mi now i u p err a) AuditKindFailedVerify u i \<and>
    appends a (FailedProcessLocal mi now i u p err a) AuditKindFailedProcessLocal u i \<and>
    appends a (NoRevocations mi now i u p a) AuditKindNoRevocations u i \<and>
    appends a (ValidAndProcessed mi now i u p n age sha a) AuditKindValid u i"
  unfolding audit_defs by (intro conjI appends_append_entry assms) simp_all

theorem audit_appends_one_witness:
  "appends NewCrlAuditor (NoRevocations (NewMozillaIssuers ''t'') 0 (OtherIdent ''x'') ''u'' ''p'' NewCrlAuditor)
     AuditKindNoRevocations ''u'' (OtherIdent ''x'')"
  using audit_appends_one [OF moz_inv_New, of NewCrlAuditor "''t''" 0 "OtherIdent ''x''" "''u''"] by blast

end
