(* ===== verification/Crl_Decode.thy ===== *)
theory Crl_Decode
  imports Crl_Types Go_Asn1
begin

text \<open>
  \<^verbatim>\<open>DecodeRawTBSCertList\<close> of \<^verbatim>\<open>types.go\<close>: \<^verbatim>\<open>asn1.Unmarshal\<close> into the body of a CRL whose serial numbers
  are kept as raw octets. What the package does with the tags of that structure is written out on
  top of \<open>Go_Asn1\<close>: an optional INTEGER, raw values, times, an optional SEQUENCE OF. Reading the
  content of a UTCTime or GeneralizedTime is the argument \<open>tp\<close>, called with its tag.

  The lemmas show that a DER body decodes to the serial numbers it was written with, in order and
  with every octet.
\<close>

type_synonym asn1_time = "int \<Rightarrow> bytes \<Rightarrow> go_error + time"

record RevokedCertificateWithRawSerial =
  SerialNumber :: bytes
  RevocationTime :: time

record TBSCertificateListWithRawSerials =
  tl_Version :: int
  tl_Signature :: bytes
  tl_Issuer :: bytes
  tl_ThisUpdate :: time
  tl_NextUpdate :: time
  RevokedCertificates :: "RevokedCertificateWithRawSerial list"

subsection \<open>Fields\<close>

text \<open>\<^verbatim>\<open>checkInteger\<close> and \<^verbatim>\<open>parseInt64\<close>: at least one octet, none too many, at most eight.\<close>

definition parseInt64 :: "bytes \<Rightarrow> go_error + int" where
  "parseInt64 bs =
     (case bs of
        [] \<Rightarrow> Inl asn1_structural
      | a # r \<Rightarrow>
          (case r of
             b # _ \<Rightarrow>
               (if uint a = 0 \<and> uint b < 128 \<or> uint a = 255 \<and> 128 \<le> uint b then Inl asn1_structural
                else if 8 < length bs then Inl asn1_structural
                else Inr (foldl (\<lambda>n x. n * 256 + uint x) (sint a) r))
           | [] \<Rightarrow> Inr (sint a)))"

text \<open>An INTEGER with \<^verbatim>\<open>optional,default:0\<close>.\<close>

definition parse_optional_int :: "bytes \<Rightarrow> go_error + (int \<times> bytes)" where
  "parse_optional_int bs =
     (if bs = [] then Inr (0, [])
      else
        (case parseTagAndLength bs of
           Inl e \<Rightarrow> Inl e
         | Inr (h, r) \<Rightarrow>
             (if hdr_class h \<noteq> 0 \<or> hdr_tag h \<noteq> 2 \<or> hdr_compound h then Inr (0, bs)
              else if int (length r) < hdr_length h then Inl asn1_syntax
              else
                (case parseInt64 (take (nat (hdr_length h)) r) of
                   Inl e \<Rightarrow> Inl e
                 | Inr n \<Rightarrow> Inr (n, drop (nat (hdr_length h)) r)))))"

text \<open>A \<^verbatim>\<open>time.Time\<close>: UTCTime (23) or GeneralizedTime (24); the zero time when it is optional and absent.\<close>

definition parse_time_field :: "asn1_time \<Rightarrow> bool \<Rightarrow> bytes \<Rightarrow> go_error + (time \<times> bytes)" where
  "parse_time_field tp opt bs =
     (if bs = [] then (if opt then Inr (0, []) else Inl asn1_syntax)
      else
        (case parseTagAndLength bs of
           Inl e \<Rightarrow> Inl e
         | Inr (h, r) \<Rightarrow>
             (if hdr_class h \<noteq> 0 \<or> (hdr_tag h \<noteq> 23 \<and> hdr_tag h \<noteq> 24) \<or> hdr_compound h
              then (if opt then Inr (0, bs) else Inl asn1_structural)
              else if int (length r) < hdr_length h then Inl asn1_syntax
              else
                (case tp (hdr_tag h) (take (nat (hdr_length h)) r) of
                   Inl e \<Rightarrow> Inl e
                 | Inr t \<Rightarrow> Inr (t, drop (nat (hdr_length h)) r)))))"

subsection \<open>Sequences of sequences\<close>

lemma parseBase128Int_rest: "parseBase128Int n v bs = Inr (t, r) \<Longrightarrow> length r < length bs"
  by (induction n v bs rule: parseBase128Int.induct)
    (auto simp: Let_def split: if_splits)

lemma parse_length_bytes_rest: "parse_length_bytes n v bs = Inr (l, r) \<Longrightarrow> length r \<le> length bs"
  by (induction n v bs rule: parse_length_bytes.induct) (auto simp: Let_def split: if_splits)

lemma parse_length_rest: "parse_length bs = Inr (l, r) \<Longrightarrow> length r < length bs"
  by (auto simp: parse_length_def less_Suc_eq_le split: list.splits if_splits dest: parse_length_bytes_rest)

lemma parseTagAndLength_rest:
  assumes "parseTagAndLength bs = Inr (h, r)"
  shows "length r < length bs"
proof (cases bs)
  case (Cons b r0)
  have "length r < length r1" if "parse_length r1 = Inr (l, r)" for r1 l using parse_length_rest that by blast
  moreover have "length r1 \<le> length r0" if "parseBase128Int 0 0 r0 = Inr (t, r1)" for t r1
    using parseBase128Int_rest that by (blast intro: less_imp_le)
  ultimately show ?thesis using assms Cons
    by (fastforce simp: parseTagAndLength_def Let_def split: sum.splits prod.splits if_splits)
qed (use assms in \<open>simp add: parseTagAndLength_def\<close>)

text \<open>\<^verbatim>\<open>parseSequenceOf\<close>, first pass: every element is a SEQUENCE within bounds. Their contents.\<close>

function sequence_elements :: "bytes \<Rightarrow> go_error + bytes list" where
  "sequence_elements bs =
     (if bs = [] then Inr []
      else
        (case parseTagAndLength bs of
           Inl e \<Rightarrow> Inl e
         | Inr (h, r) \<Rightarrow>
             (if hdr_class h \<noteq> 0 \<or> hdr_tag h \<noteq> 16 \<or> \<not> hdr_compound h then Inl asn1_structural
              else if int (length r) < hdr_length h then Inl asn1_syntax
              else
                (case sequence_elements (drop (nat (hdr_length h)) r) of
                   Inl e \<Rightarrow> Inl e
                 | Inr els \<Rightarrow> Inr (take (nat (hdr_length h)) r # els)))))"
  by pat_completeness auto
termination
  by (relation "measure length") (auto dest!: parseTagAndLength_rest)

declare sequence_elements.simps [simp del]

text \<open>Second pass: the fields of each element; what follows them is ignored.\<close>

definition parse_revoked :: "asn1_time \<Rightarrow> bytes \<Rightarrow> go_error + RevokedCertificateWithRawSerial" where
  "parse_revoked tp content =
     (case parse_raw_value content of
        Inl e \<Rightarrow> Inl e
      | Inr (_, sn, r) \<Rightarrow>
          (case parse_time_field tp False r of
             Inl e \<Rightarrow> Inl e
           | Inr (t, _) \<Rightarrow> Inr \<lparr>SerialNumber = sn, RevocationTime = t\<rparr>))"

fun parse_all :: "('a \<Rightarrow> go_error + 'b) \<Rightarrow> 'a list \<Rightarrow> go_error + 'b list" where
  "parse_all f [] = Inr []"
| "parse_all f (x # xs) =
     (case f x of
        Inl e \<Rightarrow> Inl e
      | Inr y \<Rightarrow> (case parse_all f xs of Inl e \<Rightarrow> Inl e | Inr ys \<Rightarrow> Inr (y # ys)))"

definition parse_revoked_list :: "asn1_time \<Rightarrow> bytes \<Rightarrow> go_error + RevokedCertificateWithRawSerial list" where
  "parse_revoked_list tp bs =
     (if bs = [] then Inr []
      else
        (case parseTagAndLength bs of
           Inl e \<Rightarrow> Inl e
         | Inr (h, r) \<Rightarrow>
             (if hdr_class h \<noteq> 0 \<or> hdr_tag h \<noteq> 16 \<or> \<not> hdr_compound h then Inr []
              else if int (length r) < hdr_length h then Inl asn1_syntax
              else
                (case sequence_elements (take (nat (hdr_length h)) r) of
                   Inl e \<Rightarrow> Inl e
                 | Inr els \<Rightarrow> parse_all (parse_revoked tp) els))))"

definition DecodeRawTBSCertList :: "asn1_time \<Rightarrow> bytes \<Rightarrow> go_error + TBSCertificateListWithRawSerials" where
  "DecodeRawTBSCertList tp data =
     (case enter_sequence data of Inl e \<Rightarrow> Inl e | Inr b0 \<Rightarrow>
     (case parse_optional_int b0 of Inl e \<Rightarrow> Inl e | Inr (version, b1) \<Rightarrow>
     (case parse_raw_value b1 of Inl e \<Rightarrow> Inl e | Inr (_, signature, b2) \<Rightarrow>
     (case parse_raw_value b2 of Inl e \<Rightarrow> Inl e | Inr (_, issuer, b3) \<Rightarrow>
     (case parse_time_field tp False b3 of Inl e \<Rightarrow> Inl e | Inr (thisUpdate, b4) \<Rightarrow>
     (case parse_time_field tp True b4 of Inl e \<Rightarrow> Inl e | Inr (nextUpdate, b5) \<Rightarrow>
     (case parse_revoked_list tp b5 of Inl e \<Rightarrow> Inl e | Inr revoked \<Rightarrow>
        Inr \<lparr>tl_Version = version, tl_Signature = signature, tl_Issuer = issuer, tl_ThisUpdate = thisUpdate,
             tl_NextUpdate = nextUpdate, RevokedCertificates = revoked\<rparr>)))))))"

text \<open>\<^verbatim>\<open>processCRL\<close> of \<^verbatim>\<open>aggregate-crls.go\<close> on the raw body of the CRL.\<close>

definition processCRL :: "asn1_time \<Rightarrow> bytes \<Rightarrow> go_error + Serial list" where
  "processCRL tp raw =
     (case DecodeRawTBSCertList tp raw of
        Inl err \<Rightarrow> Inl (Errorf (''CRL list couldn't be decoded: '' @ err_text err))
      | Inr revokedList \<Rightarrow> Inr (map (\<lambda>ent. NewSerialFromBytes (SerialNumber ent)) (RevokedCertificates revokedList)))"

subsection \<open>Lemmas: a body written in DER\<close>

text \<open>One entry: serial number, time (with its tag) and what may follow.\<close>

record crl_entry =
  ce_serial :: bytes
  ce_tag :: byte
  ce_time :: bytes
  ce_ext :: bytes

definition der_entry_body :: "crl_entry \<Rightarrow> bytes" where
  "der_entry_body e = der_element 0x02 (ce_serial e) @ der_element (ce_tag e) (ce_time e) @ ce_ext e"

definition der_entries :: "crl_entry list \<Rightarrow> bytes" where
  "der_entries es = concat (map (\<lambda>e. der_element 0x30 (der_entry_body e)) es)"

abbreviation time_tag :: "byte \<Rightarrow> bool" where
  "time_tag t \<equiv> t = 0x17 \<or> t = 0x18"

lemma parse_time_field_der:
  assumes "time_tag t" and "length content < 16777216" and "tp (uint t) content = Inr v"
  shows "parse_time_field tp opt (der_element t content @ r) = Inr (v, r)"
  using assms parseTagAndLength_der [of t content r] by (auto simp: parse_time_field_def)

lemma parse_revoked_der:
  assumes "length (ce_serial e) < 16777216" "length (ce_time e) < 16777216" "time_tag (ce_tag e)"
    and "tp (uint (ce_tag e)) (ce_time e) = Inr v"
  shows "parse_revoked tp (der_entry_body e) = Inr \<lparr>SerialNumber = ce_serial e, RevocationTime = v\<rparr>"
proof -
  obtain h where "parse_raw_value (der_element 0x02 (ce_serial e) @ der_element (ce_tag e) (ce_time e) @ ce_ext e)
      = Inr (h, ce_serial e, der_element (ce_tag e) (ce_time e) @ ce_ext e)"
    using parse_raw_value_der [of "0x02" "ce_serial e"] assms(1) by auto
  then show ?thesis
    using parse_time_field_der [of "ce_tag e" "ce_time e" tp v, OF assms(3,2,4)] by (simp add: parse_revoked_def der_entry_body_def)
qed

lemma sequence_elements_der:
  "\<forall>e \<in> set es. length (der_entry_body e) < 16777216 \<Longrightarrow>
   sequence_elements (der_entries es) = Inr (map der_entry_body es)"
proof (induction es)
  case Nil
  show ?case by (simp add: der_entries_def sequence_elements.simps)
next
  case (Cons e es)
  have "der_entries (e # es) = der_element 0x30 (der_entry_body e) @ der_entries es"
    by (simp add: der_entries_def)
  then show ?case
    using Cons parseTagAndLength_der [of "0x30" "der_entry_body e" "der_entries es"]
    by (subst sequence_elements.simps) simp
qed

lemma parse_all_map:
  "\<forall>x \<in> set xs. \<exists>y. f x = Inr y \<and> g y = k x \<Longrightarrow> \<exists>ys. parse_all f xs = Inr ys \<and> map g ys = map k xs"
  by (induction xs) fastforce+

lemma length_der_element_le: "length content \<le> length (der_element t content)"
  by (simp add: der_element_def)

text \<open>A body as RFC 5280 has it: version, algorithm, issuer, two times, the entries and extensions.\<close>

definition der_crl :: "bytes \<Rightarrow> bytes \<Rightarrow> bytes \<Rightarrow> byte \<times> bytes \<Rightarrow> byte \<times> bytes \<Rightarrow> crl_entry list \<Rightarrow> bytes \<Rightarrow> bytes" where
  "der_crl version alg issuer this nxt es ext =
     der_element 0x30 (der_element 0x02 version @ der_element 0x30 alg @ der_element 0x30 issuer @
       der_element (fst this) (snd this) @ der_element (fst nxt) (snd nxt) @
       der_element 0x30 (der_entries es) @ ext)"

definition good_time :: "asn1_time \<Rightarrow> byte \<times> bytes \<Rightarrow> bool" where
  "good_time tp t \<longleftrightarrow> time_tag (fst t) \<and> (\<exists>v. tp (uint (fst t)) (snd t) = Inr v)"

lemma der_entry_sizes:
  assumes "e \<in> set es" and "length (der_entries es) < n"
  shows "length (der_entry_body e) < n" "length (ce_serial e) < n" "length (ce_time e) < n"
proof -
  have "length (der_element 0x30 (der_entry_body e)) \<le> length (der_entries es)"
    using assms(1) by (induction es) (auto simp: der_entries_def)
  then show a: "length (der_entry_body e) < n" using assms(2) length_der_element_le [of "der_entry_body e" "0x30"] by linarith
  show "length (ce_serial e) < n" "length (ce_time e) < n"
    using a length_der_element_le [of "ce_serial e" "0x02"] length_der_element_le [of "ce_time e" "ce_tag e"]
    by (simp_all add: der_entry_body_def)
qed

lemma parse_revoked_list_der:
  assumes "length (der_entries es) < 16777216"
    and "\<forall>e \<in> set es. good_time tp (ce_tag e, ce_time e)"
  shows "\<exists>rs. parse_revoked_list tp (der_element 0x30 (der_entries es) @ ext) = Inr rs \<and>
    map SerialNumber rs = map ce_serial es"
proof -
  have els: "sequence_elements (der_entries es) = Inr (map der_entry_body es)"
    using der_entry_sizes(1) [OF _ assms(1)] by (intro sequence_elements_der) blast
  have "\<forall>x \<in> set es. \<exists>y. parse_revoked tp (der_entry_body x) = Inr y \<and> SerialNumber y = ce_serial x"
    using parse_revoked_der der_entry_sizes(2,3) [OF _ assms(1)] assms(2) unfolding good_time_def by fastforce
  then have "\<exists>rs. parse_all (\<lambda>x. parse_revoked tp (der_entry_body x)) es = Inr rs \<and> map SerialNumber rs = map ce_serial es"
    by (rule parse_all_map)
  moreover have "parse_all f (map g xs) = parse_all (\<lambda>x. f (g x)) xs" for f :: "bytes \<Rightarrow> go_error + RevokedCertificateWithRawSerial" and g :: "crl_entry \<Rightarrow> bytes" and xs
    by (induction xs) (simp_all split: sum.split)
  ultimately have "\<exists>rs. parse_all (parse_revoked tp) (map der_entry_body es) = Inr rs \<and> map SerialNumber rs = map ce_serial es"
    by simp
  then show ?thesis
    using parseTagAndLength_der [of "0x30" "der_entries es" ext] assms(1) els
    by (simp add: parse_revoked_list_def)
qed

lemma parse_optional_int_der:
  assumes "parseInt64 content = Inr n" and "length content < 16777216"
  shows "parse_optional_int (der_element 0x02 content @ r) = Inr (n, r)"
  using assms parseTagAndLength_der [of "0x02" content r] by (simp add: parse_optional_int_def)

lemma Decode_der_crl:
  assumes "length (der_crl version alg issuer this nxt es ext) < 16777216"
    and "parseInt64 version = Inr v" and "good_time tp this" and "good_time tp nxt"
    and "\<forall>e \<in> set es. good_time tp (ce_tag e, ce_time e)"
  shows "\<exists>tl. DecodeRawTBSCertList tp (der_crl version alg issuer this nxt es ext @ trailing) = Inr tl \<and>
    map SerialNumber (RevokedCertificates tl) = map ce_serial es"
proof -
  let ?b5 = "der_element 0x30 (der_entries es) @ ext"
  let ?b4 = "der_element (fst nxt) (snd nxt) @ ?b5"
  let ?b3 = "der_element (fst this) (snd this) @ ?b4"
  let ?b2 = "der_element 0x30 issuer @ ?b3"
  let ?b1 = "der_element 0x30 alg @ ?b2"
  let ?b0 = "der_element 0x02 version @ ?b1"
  have crl: "der_crl version alg issuer this nxt es ext = der_element 0x30 ?b0" by (simp add: der_crl_def)
  have sz: "length ?b0 < 16777216" using assms(1) length_der_element_le [of ?b0 "0x30"] unfolding crl by linarith
  have le: "length c < 16777216" if "length (der_element t c) \<le> length ?b0" for t c
    using that sz length_der_element_le [of c t] by linarith
  have s: "length version < 16777216" "length alg < 16777216" "length issuer < 16777216"
      "length (snd this) < 16777216" "length (snd nxt) < 16777216" "length (der_entries es) < 16777216"
    using le [of "0x02" version] le [of "0x30" alg] le [of "0x30" issuer] le [of "fst this" "snd this"]
      le [of "fst nxt" "snd nxt"] le [of "0x30" "der_entries es"] by auto
  obtain h1 h2 where r: "parse_raw_value ?b1 = Inr (h1, alg, ?b2)" "parse_raw_value ?b2 = Inr (h2, issuer, ?b3)"
    using parse_raw_value_der [of "0x30" alg ?b2] parse_raw_value_der [of "0x30" issuer ?b3] s by auto
  obtain t1 t2 where t: "parse_time_field tp False ?b3 = Inr (t1, ?b4)" "parse_time_field tp True ?b4 = Inr (t2, ?b5)"
    using assms(3,4) s(4,5) parse_time_field_der [of "fst this" "snd this" tp] parse_time_field_der [of "fst nxt" "snd nxt" tp]
    unfolding good_time_def by blast
  obtain rs where "parse_revoked_list tp ?b5 = Inr rs" "map SerialNumber rs = map ce_serial es"
    using parse_revoked_list_der [OF s(6) assms(5)] by blast
  moreover have "enter_sequence (der_element 0x30 ?b0 @ trailing) = Inr ?b0" using enter_sequence_der [OF sz] by simp
  ultimately show ?thesis
    using parse_optional_int_der [OF assms(2) s(1), of ?b1] r t unfolding crl by (simp add: DecodeRawTBSCertList_def)
qed

subsection \<open>Properties\<close>

text \<open>
  C29. \<^verbatim>\<open>processCRL\<close> on the DER body of a CRL returns the serial numbers of its entries, in order, each
  with exactly the octets the CRL has (leading zeros included), whatever extensions the entries and
  the list carry; so serial numbers from CRLs compare with those taken from certificates. The body
  is shorter than 16 MB, its times can be read, and the fields that may be absent from such a
  body are present: version, next update and the list of revoked certificates (which may be empty).
\<close>

theorem crl_serials_kept:
  assumes "length (der_crl version alg issuer this nxt es ext) < 16777216"
    and "parseInt64 version = Inr v" and "good_time tp this" and "good_time tp nxt"
    and "\<forall>e \<in> set es. good_time tp (ce_tag e, ce_time e)"
  shows "processCRL tp (der_crl version alg issuer this nxt es ext @ trailing) = Inr (map (\<lambda>e. Serial (ce_serial e)) es)"
proof -
  obtain tl where tl: "DecodeRawTBSCertList tp (der_crl version alg issuer this nxt es ext @ trailing) = Inr tl"
    and "map SerialNumber (RevokedCertificates tl) = map ce_serial es"
    using Decode_der_crl [OF assms, of trailing] by blast
  then have "map Serial (map SerialNumber (RevokedCertificates tl)) = map Serial (map ce_serial es)" by simp
  then show ?thesis by (simp add: processCRL_def tl NewSerialFromBytes_def comp_def)
qed

theorem crl_serials_kept_witness:
  "processCRL (\<lambda>tag content. if content = [] then Inl asn1_syntax else Inr 0)
     (der_crl [1] [6, 0] [] (0x17, [50]) (0x18, [51])
        [\<lparr>ce_serial = [0, 0xA5], ce_tag = 0x17, ce_time = [49], ce_ext = [0x30, 0]\<rparr>] [0xA0, 0] @ [])
     = Inr [Serial [0, 0xA5]]"
  by (subst crl_serials_kept [of _ _ _ _ _ _ _ 1])
    (simp_all add: der_crl_def der_element_def der_length_def der_entries_def der_entry_body_def parseInt64_def
      good_time_def)

end
