(* ===== verification/Storage_Backend.thy ===== *)
theory Storage_Backend
  imports Mock_Cache
begin

text \<open>
  The interface \<^verbatim>\<open>StorageBackend\<close> of \<^verbatim>\<open>storage/types.go\<close> as a record of operations on a state
  \<open>'b\<close>, and two of its implementations: \<^verbatim>\<open>storage/noopbackend.go\<close>, which stores nothing, and
  \<^verbatim>\<open>storage/mockbackend.go\<close>, which keeps everything in three maps.

  The contexts passed to the operations are never cancelled by the callers, and neither
  implementation looks at them. A stream of identifiers is the list of what was sent.

  The contract \<open>pem_backend\<close> says what the database relies on: a stored certificate is listed
  and loaded again. The mock keeps it: interpretation \<open>mock_pem\<close>.
\<close>

record 'b StorageBackend =
  sb_MarkDirty :: "string \<Rightarrow> 'b \<Rightarrow> go_error option \<times> 'b"
  sb_StoreCertificatePEM :: "Serial \<Rightarrow> ExpDate \<Rightarrow> Issuer \<Rightarrow> bytes \<Rightarrow> 'b \<Rightarrow> go_error option \<times> 'b"
  sb_StoreLogState :: "CertificateLog \<Rightarrow> 'b \<Rightarrow> go_error option \<times> 'b"
  sb_StoreKnownCertificateList :: "Issuer \<Rightarrow> Serial list \<Rightarrow> 'b \<Rightarrow> go_error option \<times> 'b"
  sb_LoadCertificatePEM :: "Serial \<Rightarrow> ExpDate \<Rightarrow> Issuer \<Rightarrow> 'b \<Rightarrow> bytes res"
  sb_LoadLogState :: "string \<Rightarrow> 'b \<Rightarrow> CertificateLog option res"
  sb_AllocateExpDateAndIssuer :: "ExpDate \<Rightarrow> Issuer \<Rightarrow> 'b \<Rightarrow> go_error option \<times> 'b"
  sb_ListExpirationDates :: "time \<Rightarrow> 'b \<Rightarrow> ExpDate list res"
  sb_ListIssuersForExpirationDate :: "ExpDate \<Rightarrow> 'b \<Rightarrow> Issuer list res"
  sb_ListSerialsForExpirationDateAndIssuer :: "ExpDate \<Rightarrow> Issuer \<Rightarrow> 'b \<Rightarrow> Serial list res"
  sb_StreamSerialsForExpirationDateAndIssuer ::
    "ExpDate \<Rightarrow> Issuer \<Rightarrow> 'b \<Rightarrow> UniqueCertIdentifier list res"

text \<open>The zero value of \<^verbatim>\<open>CertificateLog\<close> with its URL set.\<close>

definition new_log :: "string \<Rightarrow> CertificateLog" where
  "new_log shortUrl = \<lparr>ShortURL = shortUrl, MaxEntry = 0, LastEntryTime = 0, LastUpdateTime = 0\<rparr>"

subsection \<open>The backend that stores nothing\<close>

definition noopLoadError :: go_error where
  "noopLoadError = Errorf ''Unable to load from the NoopBackend.''"

definition NoopBackend_ops :: "unit StorageBackend" where
  "NoopBackend_ops =
     \<lparr>sb_MarkDirty = \<lambda>id b. (None, b),
      sb_StoreCertificatePEM = \<lambda>s e i pem b. (None, b),
      sb_StoreLogState = \<lambda>l b. (None, b),
      sb_StoreKnownCertificateList = \<lambda>i ss b. (None, b),
      sb_LoadCertificatePEM = \<lambda>s e i b. ([], Some noopLoadError),
      sb_LoadLogState = \<lambda>u b. (None, Some noopLoadError),
      sb_AllocateExpDateAndIssuer = \<lambda>e i b. (None, b),
      sb_ListExpirationDates = \<lambda>t b. ([], Some noopLoadError),
      sb_ListIssuersForExpirationDate = \<lambda>e b. ([], Some noopLoadError),
      sb_ListSerialsForExpirationDateAndIssuer = \<lambda>e i b. ([], Some noopLoadError),
      sb_StreamSerialsForExpirationDateAndIssuer = \<lambda>e i b. ([], Some noopLoadError)\<rparr>"

subsection \<open>The mock backend\<close>

record MockBackend =
  expDateToIssuer :: "(string \<times> Issuer list) list"
  expDateIssuerIDToSerials :: "(string \<times> Serial list) list"
  mb_store :: "(string \<times> bytes) list"

definition NewMockBackend :: MockBackend where
  "NewMockBackend = \<lparr>expDateToIssuer = [], expDateIssuerIDToSerials = [], mb_store = []\<rparr>"

definition at_or_nil :: "('k \<times> 'v list) list \<Rightarrow> 'k \<Rightarrow> 'v list" where
  "at_or_nil m k = (case map_of m k of None \<Rightarrow> [] | Some xs \<Rightarrow> xs)"

definition MB_MarkDirty :: "string \<Rightarrow> MockBackend \<Rightarrow> go_error option \<times> MockBackend" where
  "MB_MarkDirty ident db = (None, db)"

definition MB_AllocateExpDateAndIssuer ::
  "ExpDate \<Rightarrow> Issuer \<Rightarrow> MockBackend \<Rightarrow> go_error option \<times> MockBackend" where
  "MB_AllocateExpDateAndIssuer expDate issuer db =
     (let issuers = at_or_nil (expDateToIssuer db) (ExpDate_ID expDate);
          i = sort_Search (length issuers)
                (\<lambda>i. 0 \<le> strings_Compare (Issuer_ID (issuers ! i)) (Issuer_ID issuer))
      in if i < length issuers \<and> Issuer_ID (issuers ! i) = Issuer_ID issuer then (None, db)
         else (None, db\<lparr>expDateToIssuer :=
           AList.update (ExpDate_ID expDate)
             (slice_insert i \<lparr>issuer_id = None, issuer_spki = SPKI []\<rparr> issuer issuers)
             (expDateToIssuer db)\<rparr>))"

definition pem_key :: "Serial \<Rightarrow> ExpDate \<Rightarrow> Issuer \<Rightarrow> string" where
  "pem_key sn expDate issuer =
     ''pem'' @ ExpDate_ID expDate @ Issuer_ID issuer @ Serial_ID sn"

definition MB_StoreCertificatePEM ::
  "Serial \<Rightarrow> ExpDate \<Rightarrow> Issuer \<Rightarrow> bytes \<Rightarrow> MockBackend \<Rightarrow> go_error option \<times> MockBackend" where
  "MB_StoreCertificatePEM sn expDate issuer b db =
     (let db1 = db\<lparr>mb_store := AList.update (pem_key sn expDate issuer) b (mb_store db)\<rparr>;
          val = at_or_nil (expDateIssuerIDToSerials db1) (ExpDate_ID expDate @ Issuer_ID issuer)
      in (None, db1\<lparr>expDateIssuerIDToSerials :=
           AList.update (ExpDate_ID expDate @ Issuer_ID issuer) (val @ [sn])
             (expDateIssuerIDToSerials db1)\<rparr>))"

definition MB_StoreLogState ::
  "json_codec \<Rightarrow> CertificateLog \<Rightarrow> MockBackend \<Rightarrow> go_error option \<times> MockBackend" where
  "MB_StoreLogState js log db =
     (case js_Marshal js log of
        Inl err \<Rightarrow> (Some err, db)
      | Inr data \<Rightarrow>
          (None, db\<lparr>mb_store := AList.update (''logstate'' @ ShortURL log) data (mb_store db)\<rparr>))"

text \<open>\<^verbatim>\<open>json.Marshal\<close> of a (non-nil) slice of serial numbers: their JSON forms between brackets.\<close>

fun json_join :: "bytes list \<Rightarrow> bytes" where
  "json_join [] = []"
| "json_join [x] = x"
| "json_join (x # y # xs) = x @ byte_of_char (CHR '','') # json_join (y # xs)"

definition json_Marshal_serials :: "Serial list \<Rightarrow> bytes" where
  "json_Marshal_serials ss =
     byte_of_char (CHR ''['') # json_join (map Serial_MarshalJSON ss) @ [byte_of_char (CHR '']'')]"

definition MB_StoreKnownCertificateList ::
  "Issuer \<Rightarrow> Serial list \<Rightarrow> MockBackend \<Rightarrow> go_error option \<times> MockBackend" where
  "MB_StoreKnownCertificateList issuer serials db =
     (None, db\<lparr>mb_store :=
        AList.update (Issuer_ID issuer) (json_Marshal_serials serials) (mb_store db)\<rparr>)"

definition MB_LoadCertificatePEM ::
  "Serial \<Rightarrow> ExpDate \<Rightarrow> Issuer \<Rightarrow> MockBackend \<Rightarrow> bytes res" where
  "MB_LoadCertificatePEM sn expDate issuer db =
     (case map_of (mb_store db) (pem_key sn expDate issuer) of
        Some data \<Rightarrow> (data, None)
      | None \<Rightarrow> ([], Some (Errorf ''Couldn't find'')))"

definition MB_LoadLogState ::
  "json_codec \<Rightarrow> string \<Rightarrow> MockBackend \<Rightarrow> CertificateLog option res" where
  "MB_LoadLogState js logURL db =
     (case map_of (mb_store db) (''logstate'' @ logURL) of
        Some data \<Rightarrow>
          (case js_Unmarshal js data of Inl err \<Rightarrow> (None, Some err) | Inr log \<Rightarrow> (Some log, None))
      | None \<Rightarrow> (Some (new_log logURL), None))"

text \<open>\<^verbatim>\<open>time.Date(y, m, d, 0, 0, 0, 0, UTC)\<close> of the date of an instant: its midnight.\<close>

definition midnight :: "time \<Rightarrow> time" where
  "midnight t = t - t mod Day"

fun list_exp_dates :: "time \<Rightarrow> string list \<Rightarrow> ExpDate list \<Rightarrow> ExpDate list res" where
  "list_exp_dates truncatedNotBefore [] dates = (dates, None)"
| "list_exp_dates truncatedNotBefore (key # ks) dates =
     (case parse_date key of
        Inl err \<Rightarrow> ([], Some err)
      | Inr v \<Rightarrow>
          (if \<not> time_Before v truncatedNotBefore then
             (case NewExpDate key of
                Inl err \<Rightarrow> (dates, Some err)
              | Inr ed \<Rightarrow> list_exp_dates truncatedNotBefore ks (dates @ [ed]))
           else list_exp_dates truncatedNotBefore ks dates))"

definition MB_ListExpirationDates :: "time \<Rightarrow> MockBackend \<Rightarrow> ExpDate list res" where
  "MB_ListExpirationDates aNotBefore db =
     list_exp_dates (midnight aNotBefore) (map fst (expDateToIssuer db)) []"

definition MB_ListIssuersForExpirationDate :: "ExpDate \<Rightarrow> MockBackend \<Rightarrow> Issuer list res" where
  "MB_ListIssuersForExpirationDate expDate db =
     (at_or_nil (expDateToIssuer db) (ExpDate_ID expDate), None)"

definition MB_ListSerialsForExpirationDateAndIssuer ::
  "ExpDate \<Rightarrow> Issuer \<Rightarrow> MockBackend \<Rightarrow> Serial list res" where
  "MB_ListSerialsForExpirationDateAndIssuer expDate issuer db =
     (at_or_nil (expDateIssuerIDToSerials db) (ExpDate_ID expDate @ Issuer_ID issuer), None)"

definition MB_StreamSerialsForExpirationDateAndIssuer ::
  "ExpDate \<Rightarrow> Issuer \<Rightarrow> MockBackend \<Rightarrow> UniqueCertIdentifier list res" where
  "MB_StreamSerialsForExpirationDateAndIssuer expDate issuer db =
     (case MB_ListSerialsForExpirationDateAndIssuer expDate issuer db of
        (allSerials, Some err) \<Rightarrow> ([], Some err)
      | (allSerials, None) \<Rightarrow>
          (map (\<lambda>s. \<lparr>uci_ExpDate = expDate, uci_Issuer = issuer, SerialNum = s\<rparr>) allSerials, None))"

definition MockBackend_ops :: "json_codec \<Rightarrow> MockBackend StorageBackend" where
  "MockBackend_ops js =
     \<lparr>sb_MarkDirty = MB_MarkDirty,
      sb_StoreCertificatePEM = MB_StoreCertificatePEM,
      sb_StoreLogState = MB_StoreLogState js,
      sb_StoreKnownCertificateList = MB_StoreKnownCertificateList,
      sb_LoadCertificatePEM = MB_LoadCertificatePEM,
      sb_LoadLogState = MB_LoadLogState js,
      sb_AllocateExpDateAndIssuer = MB_AllocateExpDateAndIssuer,
      sb_ListExpirationDates = MB_ListExpirationDates,
      sb_ListIssuersForExpirationDate = MB_ListIssuersForExpirationDate,
      sb_ListSerialsForExpirationDateAndIssuer = MB_ListSerialsForExpirationDateAndIssuer,
      sb_StreamSerialsForExpirationDateAndIssuer = MB_StreamSerialsForExpirationDateAndIssuer\<rparr>"

lemma mb_ops_simps:
  "sb_MarkDirty (MockBackend_ops js) = MB_MarkDirty"
  "sb_StoreCertificatePEM (MockBackend_ops js) = MB_StoreCertificatePEM"
  "sb_AllocateExpDateAndIssuer (MockBackend_ops js) = MB_AllocateExpDateAndIssuer"
  "sb_LoadCertificatePEM (MockBackend_ops js) = MB_LoadCertificatePEM"
  "sb_StoreLogState (MockBackend_ops js) = MB_StoreLogState js"
  "sb_LoadLogState (MockBackend_ops js) = MB_LoadLogState js"
  by (simp_all add: MockBackend_ops_def)

subsection \<open>What the database relies on\<close>

locale pem_backend =
  fixes sb :: "'b StorageBackend"
    and pems :: "'b \<Rightarrow> string \<Rightarrow> bytes option"
  assumes store_pem: "sb_StoreCertificatePEM sb s e i p b = (None, b') \<Longrightarrow>
      pems b' = (pems b)(pem_key s e i \<mapsto> p)"
    and allocate_keeps: "sb_AllocateExpDateAndIssuer sb e i b = (er, b') \<Longrightarrow> pems b' = pems b"
    and dirty_keeps: "sb_MarkDirty sb d b = (er, b') \<Longrightarrow> pems b' = pems b"
    and load_pem: "sb_LoadCertificatePEM sb s e i b =
      (case pems b (pem_key s e i) of Some p \<Rightarrow> (p, None) | None \<Rightarrow> ([], Some (Errorf ''Couldn't find'')))"
begin

lemma load_after_store:
  "sb_StoreCertificatePEM sb s e i p b = (None, b') \<Longrightarrow> sb_LoadCertificatePEM sb s e i b' = (p, None)"
  by (simp add: load_pem store_pem)

end

definition mb_pems :: "MockBackend \<Rightarrow> string \<Rightarrow> bytes option" where
  "mb_pems db k = map_of (mb_store db) k"

interpretation mock_pem: pem_backend "MockBackend_ops js" mb_pems
  by unfold_locales
    (auto simp: MockBackend_ops_def MB_StoreCertificatePEM_def MB_AllocateExpDateAndIssuer_def
      MB_MarkDirty_def MB_LoadCertificatePEM_def mb_pems_def Let_def fun_eq_iff
      split: if_splits option.splits)

text \<open>
  What storing a certificate relies on to succeed: the three calls of the backend that it makes
  return no error. Both backends that keep nothing on disk are of this kind.
\<close>

locale accepting_backend =
  fixes sb :: "'b StorageBackend"
  assumes accepts_pem: "fst (sb_StoreCertificatePEM sb s e i p b) = None"
    and accepts_date: "fst (sb_AllocateExpDateAndIssuer sb e i b) = None"
    and accepts_dirty: "fst (sb_MarkDirty sb d b) = None"

interpretation mock_accepts: accepting_backend "MockBackend_ops js"
  by unfold_locales
    (simp_all add: MockBackend_ops_def MB_StoreCertificatePEM_def MB_AllocateExpDateAndIssuer_def MB_MarkDirty_def Let_def)

interpretation noop_accepts: accepting_backend NoopBackend_ops
  by unfold_locales (simp_all add: NoopBackend_ops_def)

subsection \<open>Lemmas: the sorted issuer lists\<close>

definition issuers_sorted :: "Issuer list \<Rightarrow> bool" where
  "issuers_sorted xs \<longleftrightarrow> sorted_wrt (<) (map Issuer_ID xs)"

definition mb_inv :: "MockBackend \<Rightarrow> bool" where
  "mb_inv db \<longleftrightarrow> (\<forall>k. issuers_sorted (at_or_nil (expDateToIssuer db) k))"

lemma issuer_search:
  fixes y :: Issuer
  assumes "issuers_sorted xs"
  defines "i \<equiv> sort_Search (length xs) (\<lambda>i. 0 \<le> strings_Compare (Issuer_ID (xs ! i)) (Issuer_ID y))"
  shows "i \<le> length xs" and "i < length xs \<and> Issuer_ID (xs ! i) = Issuer_ID y \<longleftrightarrow> Issuer_ID y \<in> Issuer_ID ` set xs"
    and "Issuer_ID y \<notin> Issuer_ID ` set xs \<Longrightarrow> issuers_sorted (take i xs @ y # drop i xs)"
proof -
  let ?ids = "map Issuer_ID xs" and ?e = "Issuer_ID y"
  have s: "sorted_wrt (<) ?ids" using assms(1) by (simp add: issuers_sorted_def)
  have i: "i = search_idx ?ids ?e"
  proof -
    have "search_loop (\<lambda>i. 0 \<le> strings_Compare (Issuer_ID (xs ! i)) ?e) a b =
        search_loop (\<lambda>i. strings_Compare ?e (?ids ! i) \<le> 0) a b" if "b \<le> length xs" for a b
      using that
    proof (induction "b - a" arbitrary: a b rule: less_induct)
      case less
      have "(a + b) div 2 < length xs" if "a < b" using that less.prems by auto
      with less show ?case
        by (subst (1 2) search_loop.simps) (auto simp: Let_def)
    qed
    then show ?thesis by (simp add: i_def search_idx_def sort_Search_def)
  qed
  show "i \<le> length xs" using search_idx_le [OF s, of ?e] by (simp add: i)
  show "i < length xs \<and> Issuer_ID (xs ! i) = ?e \<longleftrightarrow> ?e \<in> Issuer_ID ` set xs"
    using found_at_iff [OF s, of ?e] by (auto simp: found_at_def Let_def i split: if_splits)
  show "issuers_sorted (take i xs @ y # drop i xs)" if "?e \<notin> Issuer_ID ` set xs"
    using sorted_insert_at_cut [OF s, of ?e] that by (simp add: issuers_sorted_def i take_map drop_map)
qed

lemma MB_Allocate_ok:
  assumes "mb_inv db" and "MB_AllocateExpDateAndIssuer e y db = (er, db')"
  shows "er = None" and "mb_inv db'"
    and "Issuer_ID ` set (at_or_nil (expDateToIssuer db') (ExpDate_ID e)) =
      insert (Issuer_ID y) (Issuer_ID ` set (at_or_nil (expDateToIssuer db) (ExpDate_ID e)))"
    and "mb_store db' = mb_store db" and "expDateIssuerIDToSerials db' = expDateIssuerIDToSerials db"
proof -
  let ?xs = "at_or_nil (expDateToIssuer db) (ExpDate_ID e)"
  define i where "i = sort_Search (length ?xs)
    (\<lambda>i. 0 \<le> strings_Compare (Issuer_ID (?xs ! i)) (Issuer_ID y))"
  have "issuers_sorted ?xs" using assms(1) by (simp add: mb_inv_def)
  note s = issuer_search [OF this, of y, folded i_def]
  have db': "db' = (if Issuer_ID y \<in> Issuer_ID ` set ?xs then db
      else db\<lparr>expDateToIssuer := AList.update (ExpDate_ID e) (take i ?xs @ y # drop i ?xs) (expDateToIssuer db)\<rparr>)"
    and er: "er = None"
    using assms(2) s(1) s(2) unfolding MB_AllocateExpDateAndIssuer_def Let_def i_def [symmetric]
    by (auto simp: slice_insert_eq split: if_splits)
  show "er = None" by (rule er)
  show "mb_inv db'"
    using assms(1) s(3) by (auto simp: db' mb_inv_def at_or_nil_def)
  have "set (take i ?xs @ y # drop i ?xs) = insert y (set ?xs)"
    using set_append [of "take i ?xs" "drop i ?xs"] by auto
  then show "Issuer_ID ` set (at_or_nil (expDateToIssuer db') (ExpDate_ID e)) =
      insert (Issuer_ID y) (Issuer_ID ` set ?xs)"
    by (auto simp: db' at_or_nil_def insert_absorb)
  show "mb_store db' = mb_store db" "expDateIssuerIDToSerials db' = expDateIssuerIDToSerials db"
    by (simp_all add: db')
qed

lemma parse_date_length:
  assumes "parse_date s = Inr t"
  shows "length s = 10"
proof -
  obtain y m d where "format_date t = digits4 y @ ''-'' @ digits2 m @ ''-'' @ digits2 d"
    by (rule format_date_shape [OF parse_date_year [OF assms]])
  then have "length (format_date t) = 10" by simp
  then show ?thesis unfolding format_parse_date(1) [OF assms] .
qed

lemma list_exp_dates_error:
  assumes "key \<in> set ks" and "parse_date key = Inl err"
  shows "snd (list_exp_dates nb ks dates) \<noteq> None"
  using assms by (induction nb ks dates rule: list_exp_dates.induct) (auto split: sum.split)

subsection \<open>Properties\<close>

text \<open>
  The mock backend keeps the issuers of a date sorted by identifier without repetition, and
  adding one makes it listed for that date, once.
\<close>

theorem mock_backend_allocate:
  assumes "mb_inv db"
  shows "\<exists>db'. MB_AllocateExpDateAndIssuer e y db = (None, db') \<and> mb_inv db' \<and>
    (let ids = map Issuer_ID (fst (MB_ListIssuersForExpirationDate e db')) in
      sorted_wrt (<) ids \<and>
      set ids = insert (Issuer_ID y) (Issuer_ID ` set (fst (MB_ListIssuersForExpirationDate e db))))"
proof -
  obtain er db' where a: "MB_AllocateExpDateAndIssuer e y db = (er, db')" by fastforce
  note ok = MB_Allocate_ok [OF assms a]
  have "sorted_wrt (<) (map Issuer_ID (at_or_nil (expDateToIssuer db') (ExpDate_ID e)))"
    using ok(2) by (simp add: mb_inv_def issuers_sorted_def)
  with a ok show ?thesis by (simp add: MB_ListIssuersForExpirationDate_def)
qed

theorem mock_backend_allocate_witness:
  "\<exists>db'. MB_AllocateExpDateAndIssuer (NewExpDateFromTime 0) (NewIssuerFromString ''ca'') NewMockBackend
      = (None, db') \<and>
    set (map Issuer_ID (fst (MB_ListIssuersForExpirationDate (NewExpDateFromTime 0) db'))) = {''ca''}"
proof -
  have "mb_inv NewMockBackend"
    by (simp add: mb_inv_def NewMockBackend_def at_or_nil_def issuers_sorted_def)
  from mock_backend_allocate [OF this, of "NewExpDateFromTime 0" "NewIssuerFromString ''ca''"]
  show ?thesis
    by (auto simp: Let_def MB_ListIssuersForExpirationDate_def NewMockBackend_def at_or_nil_def)
qed

text \<open>
  Once an expiration date made from a certificate (with the resolution of an hour) has been
  allocated in the mock backend, \<^verbatim>\<open>ListExpirationDates\<close> fails, because it reads its keys with the
  layout of a day.
\<close>

theorem mock_backend_hour_dates_unlistable:
  assumes "four_digit_year t" and "ExpDate_ID (NewExpDateFromTime t) \<in> keys (expDateToIssuer db)"
  shows "\<exists>err. snd (MB_ListExpirationDates nb db) = Some err"
proof -
  have "length (ExpDate_ID (NewExpDateFromTime t)) = 13"
    using ExpDate_ID_shape(3) [OF wf_NewExpDateFromTime [OF assms(1)]] by simp
  then obtain err where "parse_date (ExpDate_ID (NewExpDateFromTime t)) = Inl err"
    using parse_date_length by (cases "parse_date (ExpDate_ID (NewExpDateFromTime t))") fastforce+
  then have "snd (MB_ListExpirationDates nb db) \<noteq> None"
    unfolding MB_ListExpirationDates_def using assms(2)
    by (intro list_exp_dates_error [of "ExpDate_ID (NewExpDateFromTime t)"]) simp_all
  then show ?thesis by blast
qed

theorem mock_backend_hour_dates_unlistable_witness:
  "\<exists>err. snd (MB_ListExpirationDates 0 (snd (MB_AllocateExpDateAndIssuer
     (NewExpDateFromTime 63700000000000000000) (NewIssuerFromString ''ca'') NewMockBackend))) = Some err"
proof -
  have "four_digit_year 63700000000000000000" by code_simp
  then show ?thesis
    by (rule mock_backend_hour_dates_unlistable)
      (simp add: MB_AllocateExpDateAndIssuer_def NewMockBackend_def at_or_nil_def)
qed

end
