(* ===== verification/Filesystem_Database.thy ===== *)
theory Filesystem_Database
  imports Issuer_Metadata Storage_Backend Go_Pem
begin

text \<open>
  \<^verbatim>\<open>storage/filesystemdatabase.go\<close>: the database that ties the remote cache and the storage
  backend together. Its state holds the state of both, the local cache of \<^verbatim>\<open>KnownCertificates\<close>
  and the issuer metadata. The local cache (package \<^verbatim>\<open>gcache\<close>) keeps pointers: the objects are
  in \<open>kc_heap\<close>, and the cache maps a key to an index of it; \<open>gc\<close> gives its operations. The
  metadata objects are only reached through the map \<open>db_meta\<close>.

  The operations take the interfaces they run on: \<open>sb\<close> the backend, \<open>rc\<close> the remote cache, \<open>gc\<close>
  the local cache, \<open>up\<close> for \<^verbatim>\<open>url.Parse\<close>. \<open>now\<close> is the time of the call.
\<close>

record 'g gcache_ops =
  gc_GetIFPresent :: "string \<Rightarrow> 'g \<Rightarrow> (go_error + nat) \<times> 'g"
  gc_Set :: "string \<Rightarrow> nat \<Rightarrow> 'g \<Rightarrow> go_error option \<times> 'g"

definition KeyNotFoundError :: go_error where
  "KeyNotFoundError = ExtError ''Key not found.''"

record ('b, 'c, 'g) FilesystemDatabase =
  backend :: 'b
  extCache :: 'c
  knownCertsCache :: 'g
  kc_heap :: "KnownCertificates list"
  db_meta :: "(string \<times> IssuerMetadata) list"

definition NewFilesystemDatabase :: "'b \<Rightarrow> 'c \<Rightarrow> 'g \<Rightarrow> ('b, 'c, 'g) FilesystemDatabase" where
  "NewFilesystemDatabase aBackend aExtCache g =
     \<lparr>backend = aBackend, extCache = aExtCache, knownCertsCache = g, kc_heap = [], db_meta = []\<rparr>"

definition GetIssuerMetadata ::
  "Issuer \<Rightarrow> ('b, 'c, 'g) FilesystemDatabase \<Rightarrow> IssuerMetadata \<times> ('b, 'c, 'g) FilesystemDatabase" where
  "GetIssuerMetadata aIssuer db =
     (case map_of (db_meta db) (Issuer_ID aIssuer) of
        Some im \<Rightarrow> (im, db)
      | None \<Rightarrow>
          (let im = NewIssuerMetadata aIssuer
           in (im, db\<lparr>db_meta := AList.update (Issuer_ID aIssuer) im (db_meta db)\<rparr>)))"

text \<open>
  The loop over the keys of the cache: a key that does not have three parts ends it with an
  error, a date that does not parse skips the key.
\<close>

fun group_keys :: "string list \<Rightarrow> (string \<times> IssuerDate) list \<Rightarrow> go_error + (string \<times> IssuerDate) list" where
  "group_keys [] issuerMap = Inr issuerMap"
| "group_keys (entry # entries) issuerMap =
     (let parts = strings_Split entry ''::''
      in if length parts \<noteq> 3 then Inl (Errorf (''Unexpected key format: '' @ entry))
         else
           (let issuer = NewIssuerFromString (parts ! 2)
            in case NewExpDate (parts ! 1) of
                 Inl err \<Rightarrow> group_keys entries issuerMap
               | Inr expDate \<Rightarrow>
                   (let m1 = (case map_of issuerMap (Issuer_ID issuer) of
                          None \<Rightarrow> AList.update (Issuer_ID issuer)
                                    \<lparr>idt_Issuer = issuer, ExpDates = []\<rparr> issuerMap
                        | Some _ \<Rightarrow> issuerMap);
                        tmp = the (map_of m1 (Issuer_ID issuer))
                    in group_keys entries
                         (AList.update (Issuer_ID issuer)
                            (tmp\<lparr>ExpDates := ExpDates tmp @ [expDate]\<rparr>) m1))))"

definition GetIssuerAndDatesFromCache ::
  "'c RemoteCache \<Rightarrow> time \<Rightarrow> ('b, 'c, 'g) FilesystemDatabase
    \<Rightarrow> ((go_error + IssuerDate list) \<times> ('b, 'c, 'g) FilesystemDatabase) run" where
  "GetIssuerAndDatesFromCache rc now db =
     run_bind (rc_KeysToChan rc ''serials::*'' now (extCache db))
       (\<lambda>((entries, err), c1).
          let db1 = db\<lparr>extCache := c1\<rparr> in
          case group_keys entries [] of
            Inl e \<Rightarrow> Done (Inl e, db1)
          | Inr issuerMap \<Rightarrow>
              (case err of
                 Some e \<Rightarrow> Fatal ''Couldn't list from cache''
               | None \<Rightarrow> Done (Inr (map snd issuerMap), db1)))"

definition DB_ListExpirationDates ::
  "'b StorageBackend \<Rightarrow> time \<Rightarrow> ('b, 'c, 'g) FilesystemDatabase \<Rightarrow> ExpDate list res" where
  "DB_ListExpirationDates sb aNotBefore db = sb_ListExpirationDates sb aNotBefore (backend db)"

definition DB_ListIssuersForExpirationDate ::
  "'b StorageBackend \<Rightarrow> ExpDate \<Rightarrow> ('b, 'c, 'g) FilesystemDatabase \<Rightarrow> Issuer list res" where
  "DB_ListIssuersForExpirationDate sb expDate db =
     sb_ListIssuersForExpirationDate sb expDate (backend db)"

text \<open>An error of the cache is only logged: the backend's is returned.\<close>

definition SaveLogState ::
  "'b StorageBackend \<Rightarrow> 'c RemoteCache \<Rightarrow> CertificateLog \<Rightarrow> time \<Rightarrow> ('b, 'c, 'g) FilesystemDatabase
    \<Rightarrow> (go_error option \<times> ('b, 'c, 'g) FilesystemDatabase) run" where
  "SaveLogState sb rc aLogObj now db =
     run_bind (rc_StoreLogState rc aLogObj now (extCache db))
       (\<lambda>(err, c1). let (err2, b1) = sb_StoreLogState sb aLogObj (backend db)
                    in Done (err2, db\<lparr>extCache := c1, backend := b1\<rparr>))"

definition GetLogState ::
  "'b StorageBackend \<Rightarrow> 'c RemoteCache \<Rightarrow> url \<Rightarrow> time \<Rightarrow> ('b, 'c, 'g) FilesystemDatabase
    \<Rightarrow> (CertificateLog res \<times> ('b, 'c, 'g) FilesystemDatabase) run" where
  "GetLogState sb rc aUrl now db =
     (let shortUrl = url_Host aUrl @ url_Path aUrl
      in run_bind (rc_LoadLogState rc shortUrl now (extCache db))
           (\<lambda>((log, cacheErr), c1).
              let db1 = db\<lparr>extCache := c1\<rparr> in
              case log of
                Some l \<Rightarrow> Done ((l, cacheErr), db1)
              | None \<Rightarrow>
                  (case sb_LoadLogState sb shortUrl (backend db1) of
                     (Some l, backendErr) \<Rightarrow> Done ((l, backendErr), db1)
                   | (None, backendErr) \<Rightarrow> Done ((new_log shortUrl, None), db1))))"

definition markDirty ::
  "'b StorageBackend \<Rightarrow> time \<Rightarrow> ('b, 'c, 'g) FilesystemDatabase
    \<Rightarrow> go_error option \<times> ('b, 'c, 'g) FilesystemDatabase" where
  "markDirty sb aExpiration db =
     (let subdirName = format_date aExpiration;
          (err, b1) = sb_MarkDirty sb subdirName (backend db)
      in (err, db\<lparr>backend := b1\<rparr>))"

text \<open>
  \<^verbatim>\<open>GetKnownCertificates\<close> returns a pointer, here an index of \<open>kc_heap\<close>. A new object is put on
  the heap before it is set into the local cache.
\<close>

definition GetKnownCertificates ::
  "'g gcache_ops \<Rightarrow> ExpDate \<Rightarrow> Issuer \<Rightarrow> ('b, 'c, 'g) FilesystemDatabase
    \<Rightarrow> (nat \<times> ('b, 'c, 'g) FilesystemDatabase) run" where
  "GetKnownCertificates gc aExpDate aIssuer db =
     (let ident = ExpDate_ID aExpDate @ Issuer_ID aIssuer
      in case gc_GetIFPresent gc ident (knownCertsCache db) of
           (Inl err, g1) \<Rightarrow>
             (if err = KeyNotFoundError then
                (let kc = NewKnownCertificates aExpDate aIssuer; ptr = length (kc_heap db)
                 in case gc_Set gc ident ptr g1 of
                      (Some err2, g2) \<Rightarrow>
                        Fatal (''Couldn't set into the cache expDate='' @ ExpDate_String aExpDate
                               @ '' issuer='' @ Issuer_ID aIssuer @ '' from cache: '' @ err_text err2)
                    | (None, g2) \<Rightarrow>
                        Done (ptr, db\<lparr>knownCertsCache := g2, kc_heap := kc_heap db @ [kc]\<rparr>))
              else Fatal (''Couldn't load expDate='' @ ExpDate_String aExpDate @ '' issuer=''
                          @ Issuer_ID aIssuer @ '' from cache: '' @ err_text err))
         | (Inr ptr, g1) \<Rightarrow> Done (ptr, db\<lparr>knownCertsCache := g1\<rparr>))"

definition cert_pem :: "Certificate \<Rightarrow> string \<Rightarrow> 64 word \<Rightarrow> time \<Rightarrow> bytes" where
  "cert_pem aCert aLogURL aEntryId now =
     pem_EncodeToMemory \<lparr>pem_Type = ''CERTIFICATE'',
       pem_Headers = [(''Log'', aLogURL), (''Recorded-at'', format_rfc3339 now),
                      (''Entry-id'', show_int (sint aEntryId))],
       pem_Bytes = cert_Raw aCert\<rparr>"

text \<open>
  What \<^verbatim>\<open>Store\<close> does for a certificate that was unknown: accumulate the issuer's metadata, then
  (\<open>store_in_backend\<close>) allocate the date and issuer when the date is new for the issuer and
  store the certificate; the first error ends it.
\<close>

definition store_in_backend ::
  "'b StorageBackend \<Rightarrow> bool \<Rightarrow> Serial \<Rightarrow> ExpDate \<Rightarrow> Issuer \<Rightarrow> bytes \<Rightarrow> ('b, 'c, 'g) FilesystemDatabase
    \<Rightarrow> (go_error option \<times> ('b, 'c, 'g) FilesystemDatabase) run" where
  "store_in_backend sb issuerDateSeenBefore serialNum expDate issuer pem db =
     (let (errAlloc, b1) =
            (if \<not> issuerDateSeenBefore then sb_AllocateExpDateAndIssuer sb expDate issuer (backend db)
             else (None, backend db));
          db1 = db\<lparr>backend := b1\<rparr>
      in case errAlloc of
           Some e \<Rightarrow> Done (Some e, db1)
         | None \<Rightarrow>
             (let (errStore, b2) = sb_StoreCertificatePEM sb serialNum expDate issuer pem (backend db1)
              in Done (errStore, db1\<lparr>backend := b2\<rparr>)))"

definition store_unknown ::
  "'b StorageBackend \<Rightarrow> 'c RemoteCache \<Rightarrow> url_Parse \<Rightarrow> Certificate \<Rightarrow> Serial \<Rightarrow> ExpDate \<Rightarrow> Issuer
    \<Rightarrow> bytes \<Rightarrow> time \<Rightarrow> ('b, 'c, 'g) FilesystemDatabase
    \<Rightarrow> (go_error option \<times> ('b, 'c, 'g) FilesystemDatabase) run" where
  "store_unknown sb rc up aCert serialNum expDate issuer pem now db =
     (let (im, db1) = GetIssuerMetadata issuer db
      in run_bind (Accumulate up rc im aCert now (extCache db1))
           (\<lambda>((issuerDateSeenBefore, err), im1, c1).
              let db2 = db1\<lparr>extCache := c1, db_meta := AList.update (Issuer_ID issuer) im1 (db_meta db1)\<rparr> in
              case err of
                Some e \<Rightarrow> Done (Some e, db2)
              | None \<Rightarrow> store_in_backend sb issuerDateSeenBefore serialNum expDate issuer pem db2))"

definition Store ::
  "'b StorageBackend \<Rightarrow> 'c RemoteCache \<Rightarrow> 'g gcache_ops \<Rightarrow> url_Parse \<Rightarrow> Certificate \<Rightarrow> Certificate
    \<Rightarrow> string \<Rightarrow> 64 word \<Rightarrow> time \<Rightarrow> ('b, 'c, 'g) FilesystemDatabase
    \<Rightarrow> (go_error option \<times> ('b, 'c, 'g) FilesystemDatabase) run" where
  "Store sb rc gc up aCert aIssuer aLogURL aEntryId now db =
     (let expDate = NewExpDateFromTime (NotAfter aCert); issuer = NewIssuer aIssuer
      in run_bind (GetKnownCertificates gc expDate issuer db)
           (\<lambda>(ptr, db1).
              let pem = cert_pem aCert aLogURL aEntryId now in
              run_bind (NewSerial aCert)
                (\<lambda>serialNum.
                   run_bind (WasUnknown rc (kc_heap db1 ! ptr) serialNum now (extCache db1))
                     (\<lambda>((certWasUnknown, err), kc1, c1).
                        let db2 = db1\<lparr>extCache := c1, kc_heap := (kc_heap db1)[ptr := kc1]\<rparr> in
                        case err of
                          Some e \<Rightarrow> Done (Some e, db2)
                        | None \<Rightarrow>
                            run_bind
                              (if certWasUnknown
                               then store_unknown sb rc up aCert serialNum expDate issuer pem now db2
                               else Done (None, db2))
                              (\<lambda>(err, db3).
                                 case err of
                                   Some e \<Rightarrow> Done (Some e, db3)
                                 | None \<Rightarrow> Done (markDirty sb (NotAfter aCert) db3))))))"

definition Cleanup :: "go_error option" where
  "Cleanup = None"

subsection \<open>The local cache\<close>

text \<open>
  What the database relies on of the package \<^verbatim>\<open>gcache\<close>: a lookup returns what was set for the key
  or reports that the key is not there (it may have been evicted), and setting does not fail.
\<close>

locale local_cache =
  fixes gc :: "'g gcache_ops"
    and held :: "'g \<Rightarrow> string \<Rightarrow> nat option"
  assumes get_held: "gc_GetIFPresent gc k g = (r, g') \<Longrightarrow>
      (r = Inl KeyNotFoundError \<or> (\<exists>p. r = Inr p \<and> held g k = Some p)) \<and>
      (\<forall>k' p. held g' k' = Some p \<longrightarrow> held g k' = Some p)"
    and set_held: "gc_Set gc k p g = (er, g') \<Longrightarrow>
      er = None \<and> (\<forall>k' q. held g' k' = Some q \<longrightarrow> k' = k \<and> q = p \<or> held g k' = Some q)"

text \<open>A cache of bounded size that drops its oldest entry.\<close>

definition fifo_gcache :: "nat \<Rightarrow> (string \<times> nat) list gcache_ops" where
  "fifo_gcache n =
     \<lparr>gc_GetIFPresent = \<lambda>k g. (case map_of g k of None \<Rightarrow> Inl KeyNotFoundError | Some p \<Rightarrow> Inr p, g),
      gc_Set = \<lambda>k p g. (None, take n ((k, p) # g))\<rparr>"

lemma map_of_take: "map_of (take m xs) k = Some q \<Longrightarrow> map_of xs k = Some q"
proof (induction xs arbitrary: m)
  case (Cons x xs)
  then show ?case by (cases m) (auto split: if_splits)
qed simp

interpretation fifo: local_cache "fifo_gcache n" map_of
proof unfold_locales
  fix k :: string and g r g' p er
  show "(r = Inl KeyNotFoundError \<or> (\<exists>p. r = Inr p \<and> map_of g k = Some p)) \<and>
      (\<forall>k' p. map_of g' k' = Some p \<longrightarrow> map_of g k' = Some p)"
    if "gc_GetIFPresent (fifo_gcache n) k g = (r, g')"
    using that by (auto simp: fifo_gcache_def split: option.splits)
  show "er = None \<and> (\<forall>k' q. map_of g' k' = Some q \<longrightarrow> k' = k \<and> q = p \<or> map_of g k' = Some q)"
    if "gc_Set (fifo_gcache n) k p g = (er, g')"
  proof -
    from that have "er = None" and g': "g' = take n ((k, p) # g)" by (simp_all add: fifo_gcache_def)
    moreover have "k' = k \<and> q = p \<or> map_of g k' = Some q" if "map_of g' k' = Some q" for k' q
      using map_of_take [of n "(k, p) # g" k' q] that by (auto simp: g' split: if_splits)
    ultimately show ?thesis by blast
  qed
qed

subsection \<open>Lemmas: keys\<close>

text \<open>The dates the database works with: made from a certificate, hence with the hour.\<close>

definition hour_date :: "ExpDate \<Rightarrow> bool" where
  "hour_date e \<longleftrightarrow> wf_ExpDate e \<and> hourResolution e"

lemma hour_date_from_time [intro]: "four_digit_year t \<Longrightarrow> hour_date (NewExpDateFromTime t)"
  by (simp add: hour_date_def wf_NewExpDateFromTime)

lemma hour_date_ID_inject:
  assumes "hour_date e" "hour_date e'" "ExpDate_ID e = ExpDate_ID e'"
  shows "ed_date e = ed_date e'"
proof -
  have "NewExpDate (ExpDate_ID e) = NewExpDate (ExpDate_ID e')" using assms(3) by simp
  then have "Inr (e\<lparr>lastGood := ed_date e + resolution e - Millisecond\<rparr>) =
      (Inr (e'\<lparr>lastGood := ed_date e' + resolution e' - Millisecond\<rparr>) :: go_error + ExpDate)"
    using NewExpDate_ID [of e] NewExpDate_ID [of e'] assms by (simp add: hour_date_def)
  then show ?thesis by (metis ExpDate.select_convs(1) ExpDate.surjective ExpDate.update_convs(2) sum.inject(2))
qed

lemma hour_date_append_inject:
  assumes "hour_date e" "hour_date e'" "ExpDate_ID e @ x = ExpDate_ID e' @ y"
  shows "ExpDate_ID e = ExpDate_ID e'" and "x = y"
proof -
  have "length (ExpDate_ID e) = length (ExpDate_ID e')"
    using assms(1,2) ExpDate_ID_shape(3) by (simp add: hour_date_def)
  with assms(3) show "ExpDate_ID e = ExpDate_ID e'" "x = y" by simp_all
qed

lemma serialId_inject:
  assumes "hour_date (kc_expDate kc)" "hour_date (kc_expDate kc')" "serialId kc [] = serialId kc' []"
  shows "ExpDate_ID (kc_expDate kc) = ExpDate_ID (kc_expDate kc')"
    and "Issuer_ID (kc_issuer kc) = Issuer_ID (kc_issuer kc')"
    and "ExpireTime (kc_expDate kc) = ExpireTime (kc_expDate kc')"
  using hour_date_append_inject [OF assms(1,2)] hour_date_ID_inject [OF assms(1,2)] assms(3)
  by (auto simp: serialId_def kc_id_def ExpireTime_def)

lemma serialId_eq:
  "ExpDate_ID (kc_expDate kc) = ExpDate_ID (kc_expDate kc') \<Longrightarrow>
   Issuer_ID (kc_issuer kc) = Issuer_ID (kc_issuer kc') \<Longrightarrow> serialId kc [] = serialId kc' []"
  by (simp add: serialId_def kc_id_def)

lemma serialId_not_meta: "serialId kc [] \<noteq> crlId im" "serialId kc [] \<noteq> issuersId im"
  by (simp_all add: serialId_def crlId_def issuersId_def kSerials_def kCrls_def kIssuers_def)

subsection \<open>The invariant of the database on the mock cache\<close>

text \<open>
  The pointers of the local cache lead to objects made for their key; the only expiration
  times in the remote cache are those of serial sets, at their dates; the metadata objects
  stand under their issuer and do not run ahead of the cache.
\<close>

definition heap_ok :: "('g \<Rightarrow> string \<Rightarrow> nat option) \<Rightarrow> ('b, 'c, 'g) FilesystemDatabase \<Rightarrow> bool" where
  "heap_ok held db \<longleftrightarrow>
     (\<forall>kc \<in> set (kc_heap db). hour_date (kc_expDate kc)) \<and>
     (\<forall>k p. held (knownCertsCache db) k = Some p \<longrightarrow> p < length (kc_heap db) \<and>
        k = ExpDate_ID (kc_expDate (kc_heap db ! p)) @ Issuer_ID (kc_issuer (kc_heap db ! p)))"

definition expirations_ok :: "MockRemoteCache \<Rightarrow> bool" where
  "expirations_ok c \<longleftrightarrow>
     (\<forall>k t. map_of (Expirations c) k = Some t \<longrightarrow>
        (\<exists>kc. k = serialId kc [] \<and> hour_date (kc_expDate kc) \<and> t = ExpireTime (kc_expDate kc)))"

definition metas_ok :: "url_Parse \<Rightarrow> (string \<times> IssuerMetadata) list \<Rightarrow> MockRemoteCache \<Rightarrow> bool" where
  "metas_ok up metas c \<longleftrightarrow>
     (\<forall>i im. map_of metas i = Some im \<longrightarrow> Issuer_ID (im_issuer im) = i \<and> meta_inv up mock_members im c)"

definition db_ok ::
  "url_Parse \<Rightarrow> ('g \<Rightarrow> string \<Rightarrow> nat option) \<Rightarrow> ('b, MockRemoteCache, 'g) FilesystemDatabase \<Rightarrow> bool" where
  "db_ok up held db \<longleftrightarrow> mock_inv (extCache db) \<and> heap_ok held db \<and> expirations_ok (extCache db) \<and>
     metas_ok up (db_meta db) (extCache db)"

lemma expirations_alive_serials:
  assumes "expirations_ok c" "hour_date (kc_expDate kc)" "u < ExpireTime (kc_expDate kc)"
  shows "mock_alive u c (serialId kc [])"
proof (cases "map_of (Expirations c) (serialId kc [])")
  case (Some t)
  with assms(1) obtain kc' where "serialId kc [] = serialId kc' []" "hour_date (kc_expDate kc')"
    "t = ExpireTime (kc_expDate kc')" unfolding expirations_ok_def by blast
  with serialId_inject(3) [OF assms(2)] assms(3) Some show ?thesis
    by (simp add: mock_alive_def time_Before_def)
qed (simp add: mock_alive_def)

lemma expirations_alive_other:
  assumes "expirations_ok c" "\<And>kc. k \<noteq> serialId kc []"
  shows "mock_alive u c k"
  using assms by (auto simp: mock_alive_def expirations_ok_def split: option.splits)

lemma live_until_serials:
  "expirations_ok c \<Longrightarrow> hour_date (kc_expDate kc) \<Longrightarrow>
   live_until mock_alive kc (ExpireTime (kc_expDate kc)) c"
  by (simp add: live_until_def expirations_alive_serials)

context local_cache
begin

lemma GetKnownCertificates_ok:
  assumes "heap_ok held db" and "hour_date e"
  obtains ptr db1 where "GetKnownCertificates gc e i db = Done (ptr, db1)" "heap_ok held db1"
    "ptr < length (kc_heap db1)" "hour_date (kc_expDate (kc_heap db1 ! ptr))"
    "ExpDate_ID (kc_expDate (kc_heap db1 ! ptr)) = ExpDate_ID e"
    "Issuer_ID (kc_issuer (kc_heap db1 ! ptr)) = Issuer_ID i"
    "extCache db1 = extCache db" "backend db1 = backend db" "db_meta db1 = db_meta db"
proof -
  let ?k = "ExpDate_ID e @ Issuer_ID i"
  obtain r g1 where g: "gc_GetIFPresent gc ?k (knownCertsCache db) = (r, g1)" by fastforce
  note gh = get_held [OF g]
  then consider (miss) "r = Inl KeyNotFoundError"
    | (hit) p where "r = Inr p" "held (knownCertsCache db) ?k = Some p" by blast
  then show ?thesis
  proof cases
    case miss
    let ?kc = "NewKnownCertificates e i" and ?p = "length (kc_heap db)"
    obtain er g2 where s: "gc_Set gc ?k ?p g1 = (er, g2)" by fastforce
    note sh = set_held [OF s]
    let ?db1 = "db\<lparr>knownCertsCache := g2, kc_heap := kc_heap db @ [?kc]\<rparr>"
    have "GetKnownCertificates gc e i db = Done (?p, ?db1)"
      using g s sh miss by (simp add: GetKnownCertificates_def Let_def)
    moreover have "p < Suc ?p \<and> k = ExpDate_ID (kc_expDate ((kc_heap db @ [?kc]) ! p)) @
        Issuer_ID (kc_issuer ((kc_heap db @ [?kc]) ! p))" if "held g2 k = Some p" for k p
    proof -
      from that sh gh consider "k = ?k" "p = ?p" | "held (knownCertsCache db) k = Some p" by blast
      then show ?thesis
        using assms(1)
        by cases (auto simp: NewKnownCertificates_def heap_ok_def nth_append less_Suc_eq)
    qed
    then have "heap_ok held ?db1"
      using assms by (auto simp: heap_ok_def NewKnownCertificates_def)
    ultimately show ?thesis
      using assms(2) by (intro that [of ?p ?db1]) (simp_all add: NewKnownCertificates_def)
  next
    case hit
    with assms(1) have p: "p < length (kc_heap db)"
      "?k = ExpDate_ID (kc_expDate (kc_heap db ! p)) @ Issuer_ID (kc_issuer (kc_heap db ! p))"
      "hour_date (kc_expDate (kc_heap db ! p))" by (auto simp: heap_ok_def)
    note i = hour_date_append_inject [OF assms(2) p(3,2)]
    have "heap_ok held (db\<lparr>knownCertsCache := g1\<rparr>)" using assms(1) gh by (simp add: heap_ok_def) blast
    moreover have "GetKnownCertificates gc e i db = Done (p, db\<lparr>knownCertsCache := g1\<rparr>)"
      using g hit by (simp add: GetKnownCertificates_def Let_def)
    ultimately show ?thesis
      using p i by (intro that [of p "db\<lparr>knownCertsCache := g1\<rparr>"]) simp_all
  qed
qed

end

subsection \<open>Lemmas: one call on the mock cache\<close>

lemma WasUnknown_mock:
  assumes "mock_inv c" and "expirations_ok c" and "hour_date (kc_expDate kc)"
  obtains c' where "WasUnknown (MockRemoteCache_ops js) kc s now c =
      Done ((BinaryString s \<notin> mock_members c (serialId kc []), None), kc\<lparr>expirySet := True\<rparr>, c')"
    "mock_inv c'" "expirations_ok c'"
    "mock_members c' = (mock_members c)(serialId kc [] := insert (BinaryString s) (mock_members c (serialId kc [])))"
proof -
  obtain r c1 where i: "Mock_SetInsert (serialId kc []) (BinaryString s) c = (r, c1)" by fastforce
  note i' = Mock_SetInsert_cases [OF assms(1) i]
  let ?c' = "if expirySet kc then c1
    else c1\<lparr>Expirations := AList.update (serialId kc []) (ExpireTime (kc_expDate kc)) (Expirations c1)\<rparr>"
  have "WasUnknown (MockRemoteCache_ops js) kc s now c =
      Done ((BinaryString s \<notin> mock_members c (serialId kc []), None), kc\<lparr>expirySet := True\<rparr>, ?c')"
    using i i'(1) by (simp add: WasUnknown_def setExpiryFlag_def mock_ops_simps Mock_ExpireAt_def)
  moreover have "mock_inv ?c'" using i'(2) by (simp add: mock_inv_def)
  moreover have "expirations_ok ?c'" using assms(2,3) i'(4) by (auto simp: expirations_ok_def split: if_splits)
  moreover have "mock_members ?c' = (mock_members c)(serialId kc [] := insert (BinaryString s) (mock_members c (serialId kc [])))"
    using i'(3) by (simp add: mock_members_def data_at_def fun_eq_iff)
  ultimately show ?thesis by (rule that)
qed

lemma addCRL_mock_Expirations:
  assumes "mock_inv c" "addCRL up (MockRemoteCache_ops js) im dp now c = Done (er, c')"
  shows "mock_inv c' \<and> Expirations c' = Expirations c"
proof (cases "http_url up dp")
  case (Some u)
  with assms(2) have "\<exists>r. Mock_SetInsert (crlId im) u c = (r, c')"
    by (auto simp: addCRL_cases mock_ops_simps split: prod.splits)
  with Mock_SetInsert_cases(2,4) [OF assms(1)] show ?thesis by blast
qed (use assms in \<open>simp add: addCRL_cases\<close>)

lemma accumulate_dps_mock_Expirations:
  "mock_inv c \<Longrightarrow> accumulate_dps up (MockRemoteCache_ops js) im dps now c = Done (er, im', c') \<Longrightarrow>
   mock_inv c' \<and> Expirations c' = Expirations c"
proof (induction dps arbitrary: im c)
  case (Cons dp dps)
  let ?im = "im\<lparr>knownCrlDPs := insert dp (knownCrlDPs im)\<rparr>"
  show ?case
  proof (cases "dp \<in> knownCrlDPs im")
    case False
    with Cons.prems(2) obtain er1 c1 where a: "addCRL up (MockRemoteCache_ops js) ?im dp now c = Done (er1, c1)"
      and r: "c' = c1 \<or> accumulate_dps up (MockRemoteCache_ops js) ?im dps now c1 = Done (er, im', c')"
      by (auto simp: Let_def run_bind_Done split: option.splits)
    from addCRL_mock_Expirations [OF Cons.prems(1) a] Cons.IH r show ?thesis by auto
  qed (use Cons in auto)
qed simp

lemma Accumulate_mock_Expirations:
  assumes "mock_inv c" and "Accumulate up (MockRemoteCache_ops js) im cert now c = Done (r, im', c')"
  shows "Expirations c' = Expirations c"
proof -
  from assms(2) obtain im1 er im2 c2 where
    d: "accumulate_dps up (MockRemoteCache_ops js) im1 (CRLDistributionPoints cert) now c = Done (er, im2, c2)"
    and "c' = c2 \<or> (\<exists>k e r'. rc_SetInsert (MockRemoteCache_ops js) k e now c2 = Done (r', c'))"
    unfolding Accumulate_def Let_def
    by (clarsimp simp: run_bind_Done addIssuerDN_def split: option.splits if_splits) metis+
  then have "c' = c2 \<or> (\<exists>k e r'. Mock_SetInsert k e c2 = (r', c'))" by (simp add: mock_ops_simps)
  with accumulate_dps_mock_Expirations [OF assms(1) d] Mock_SetInsert_cases(4) show ?thesis by metis
qed

lemma meta_inv_mono:
  "meta_inv up mock_members im c \<Longrightarrow> (\<And>k. mock_members c k \<subseteq> mock_members c' k) \<Longrightarrow>
   meta_inv up mock_members im c'"
  by (fastforce simp: meta_inv_def)

lemma metas_ok_mono:
  "metas_ok up metas c \<Longrightarrow> (\<And>k. mock_members c k \<subseteq> mock_members c' k) \<Longrightarrow> metas_ok up metas c'"
  unfolding metas_ok_def using meta_inv_mono by blast

lemma meta_keys:
  "Issuer_ID (im_issuer im) = Issuer_ID i \<Longrightarrow> crlId im = ''crl::'' @ Issuer_ID i"
  "Issuer_ID (im_issuer im) = Issuer_ID i \<Longrightarrow> issuersId im = ''issuer::'' @ Issuer_ID i"
  by (simp_all add: crlId_def issuersId_def im_id_def kCrls_def kIssuers_def)

lemma GetIssuerMetadata_mock:
  assumes "metas_ok up (db_meta db) c"
  obtains im db1 where "GetIssuerMetadata i db = (im, db1)" "Issuer_ID (im_issuer im) = Issuer_ID i"
    "meta_inv up mock_members im c" "metas_ok up (db_meta db1) c" "extCache db1 = extCache db"
    "backend db1 = backend db" "kc_heap db1 = kc_heap db" "knownCertsCache db1 = knownCertsCache db"
proof (cases "map_of (db_meta db) (Issuer_ID i)")
  case None
  let ?im = "NewIssuerMetadata i"
  let ?db1 = "db\<lparr>db_meta := AList.update (Issuer_ID i) ?im (db_meta db)\<rparr>"
  have "meta_inv up mock_members ?im c"
    by (simp add: meta_inv_def NewIssuerMetadata_def http_urls_def)
  moreover from this have "metas_ok up (db_meta ?db1) c"
    using assms by (auto simp: metas_ok_def NewIssuerMetadata_def)
  ultimately show ?thesis
    using None that [of ?im ?db1] by (simp add: GetIssuerMetadata_def NewIssuerMetadata_def Let_def)
next
  case (Some im)
  with assms that [of im db] show ?thesis by (simp add: GetIssuerMetadata_def metas_ok_def)
qed

lemma MB_Allocate_frame:
  "\<exists>b1. MB_AllocateExpDateAndIssuer e i b = (None, b1) \<and> mb_store b1 = mb_store b \<and>
     expDateIssuerIDToSerials b1 = expDateIssuerIDToSerials b"
  by (simp add: MB_AllocateExpDateAndIssuer_def Let_def)

text \<open>
  \<open>store_unknown\<close> on the mock cache and any backend: the metadata is accumulated, and what
  remains are the two calls of the backend.
\<close>

lemma store_unknown_front:
  fixes db :: "('b, MockRemoteCache, 'g) FilesystemDatabase"
  assumes "mock_inv (extCache db)" "expirations_ok (extCache db)" "metas_ok up (db_meta db) (extCache db)"
  obtains seen db2 where
    "mock_inv (extCache db2)" "expirations_ok (extCache db2)" "metas_ok up (db_meta db2) (extCache db2)"
    "mock_members (extCache db2) = (mock_members (extCache db))
       (''crl::'' @ Issuer_ID i := mock_members (extCache db) (''crl::'' @ Issuer_ID i) \<union>
          http_urls up (set (CRLDistributionPoints cert)),
        ''issuer::'' @ Issuer_ID i := insert (cert_Issuer cert) (mock_members (extCache db) (''issuer::'' @ Issuer_ID i)))"
    "kc_heap db2 = kc_heap db" "knownCertsCache db2 = knownCertsCache db" "backend db2 = backend db"
    "store_unknown sb (MockRemoteCache_ops js) up cert s e i pem now db = store_in_backend sb seen s e i pem db2"
proof -
  obtain im db1 where g: "GetIssuerMetadata i db = (im, db1)" "Issuer_ID (im_issuer im) = Issuer_ID i"
    "meta_inv up mock_members im (extCache db)" "metas_ok up (db_meta db1) (extCache db)"
    "extCache db1 = extCache db" "backend db1 = backend db" "kc_heap db1 = kc_heap db"
    "knownCertsCache db1 = knownCertsCache db"
    by (rule GetIssuerMetadata_mock [OF assms(3)])
  note keys = meta_keys [OF g(2)]
  have al: "mock_alive now (extCache db) (crlId im)" "mock_alive now (extCache db) (issuersId im)"
    using expirations_alive_other [OF assms(2)] serialId_not_meta by metis+
  obtain seen im1 c1 where a: "Accumulate up (MockRemoteCache_ops js) im cert now (extCache db) =
      Done ((seen, None), im1, c1)" using Accumulate_mock_total by blast
  note ok = mock.Accumulate_ok [OF assms(1) al g(3) a]
  have mem: "mock_members c1 = (mock_members (extCache db))
      (crlId im := mock_members (extCache db) (crlId im) \<union> http_urls up (set (CRLDistributionPoints cert)),
       issuersId im := insert (cert_Issuer cert) (mock_members (extCache db) (issuersId im)))"
    using ok crl_key_neq [of im im] by (auto simp: fun_eq_iff)
  have ex: "expirations_ok c1"
    using assms(2) Accumulate_mock_Expirations [OF assms(1) a] by (simp add: expirations_ok_def)
  have "metas_ok up (db_meta db1) c1" by (rule metas_ok_mono [OF g(4)]) (auto simp: mem)
  then have m1: "metas_ok up (AList.update (Issuer_ID i) im1 (db_meta db1)) c1"
    using ok g(2) by (auto simp: metas_ok_def)
  let ?db2 = "db1\<lparr>extCache := c1, db_meta := AList.update (Issuer_ID i) im1 (db_meta db1)\<rparr>"
  show ?thesis
    using ok ex m1 mem keys g a
    by (intro that [of ?db2 seen]) (simp_all add: store_unknown_def Let_def split: prod.split)
qed

lemma store_unknown_mock:
  fixes db :: "(MockBackend, MockRemoteCache, 'g) FilesystemDatabase"
  assumes "mock_inv (extCache db)" "expirations_ok (extCache db)" "metas_ok up (db_meta db) (extCache db)"
  obtains db' where "store_unknown (MockBackend_ops js) (MockRemoteCache_ops js) up cert s e i pem now db
      = Done (None, db')"
    "mock_inv (extCache db')" "expirations_ok (extCache db')" "metas_ok up (db_meta db') (extCache db')"
    "mock_members (extCache db') = (mock_members (extCache db))
       (''crl::'' @ Issuer_ID i := mock_members (extCache db) (''crl::'' @ Issuer_ID i) \<union>
          http_urls up (set (CRLDistributionPoints cert)),
        ''issuer::'' @ Issuer_ID i := insert (cert_Issuer cert) (mock_members (extCache db) (''issuer::'' @ Issuer_ID i)))"
    "kc_heap db' = kc_heap db" "knownCertsCache db' = knownCertsCache db"
    "mb_store (backend db') = AList.update (pem_key s e i) pem (mb_store (backend db))"
    "expDateIssuerIDToSerials (backend db') = AList.update (ExpDate_ID e @ Issuer_ID i)
       (at_or_nil (expDateIssuerIDToSerials (backend db)) (ExpDate_ID e @ Issuer_ID i) @ [s])
       (expDateIssuerIDToSerials (backend db))"
proof (rule store_unknown_front [OF assms, where sb = "MockBackend_ops js" and js = js and cert = cert
      and s = s and e = e and i = i and pem = pem and now = now])
  fix seen db2
  assume d: "mock_inv (extCache db2)" "expirations_ok (extCache db2)" "metas_ok up (db_meta db2) (extCache db2)"
    "mock_members (extCache db2) = (mock_members (extCache db))
       (''crl::'' @ Issuer_ID i := mock_members (extCache db) (''crl::'' @ Issuer_ID i) \<union>
          http_urls up (set (CRLDistributionPoints cert)),
        ''issuer::'' @ Issuer_ID i := insert (cert_Issuer cert) (mock_members (extCache db) (''issuer::'' @ Issuer_ID i)))"
    "kc_heap db2 = kc_heap db" "knownCertsCache db2 = knownCertsCache db" "backend db2 = backend db"
    and su: "store_unknown (MockBackend_ops js) (MockRemoteCache_ops js) up cert s e i pem now db =
       store_in_backend (MockBackend_ops js) seen s e i pem db2"
  obtain b1 where b1: "(if \<not> seen then MB_AllocateExpDateAndIssuer e i (backend db) else (None, backend db)) = (None, b1)"
    "mb_store b1 = mb_store (backend db)" "expDateIssuerIDToSerials b1 = expDateIssuerIDToSerials (backend db)"
    using MB_Allocate_frame [of e i "backend db"] by (cases seen) auto
  let ?db' = "db2\<lparr>backend := snd (MB_StoreCertificatePEM s e i pem b1)\<rparr>"
  have "store_unknown (MockBackend_ops js) (MockRemoteCache_ops js) up cert s e i pem now db = Done (None, ?db')"
    unfolding su store_in_backend_def mb_ops_simps d(7) b1(1) by (simp add: MB_StoreCertificatePEM_def Let_def)
  then show thesis
    using that [of ?db'] d b1(2,3) by (simp add: MB_StoreCertificatePEM_def Let_def)
qed

lemma heap_ok_expirySet:
  assumes "heap_ok held db" "ptr < length (kc_heap db)"
  shows "heap_ok held (db\<lparr>extCache := c, kc_heap := (kc_heap db)[ptr := (kc_heap db ! ptr)\<lparr>expirySet := True\<rparr>]\<rparr>)"
proof -
  let ?h = "(kc_heap db)[ptr := (kc_heap db ! ptr)\<lparr>expirySet := True\<rparr>]"
  have n: "kc_expDate (?h ! p) = kc_expDate (kc_heap db ! p) \<and> kc_issuer (?h ! p) = kc_issuer (kc_heap db ! p)"
    if "p < length (kc_heap db)" for p using that by (cases "p = ptr") simp_all
  have "hour_date (kc_expDate kc)" if "kc \<in> set ?h" for kc
  proof -
    from that obtain p where p: "p < length (kc_heap db)" "kc = ?h ! p" by (auto simp: in_set_conv_nth)
    moreover have "hour_date (kc_expDate (kc_heap db ! p))" using assms(1) p(1) by (simp add: heap_ok_def)
    ultimately show ?thesis using n by simp
  qed
  with n assms(1) show ?thesis by (auto simp: heap_ok_def)
qed

lemma heap_ok_frame:
  "heap_ok held db \<Longrightarrow> kc_heap db' = kc_heap db \<Longrightarrow> knownCertsCache db' = knownCertsCache db \<Longrightarrow>
   heap_ok held db'"
  by (simp add: heap_ok_def)

text \<open>
  The call of \<^verbatim>\<open>Store\<close> on the mock cache and any backend, up to the branch for an unknown certificate: the serial
  number is entered, and the answer decides the branch.
\<close>

lemma Store_mock_front:
  fixes db :: "('b, MockRemoteCache, 'g) FilesystemDatabase" and issuer :: Certificate
  assumes "local_cache gc held" "db_ok up held db" "four_digit_year (NotAfter cert)"
    and "NewSerial cert = Done s"
  defines "e \<equiv> NewExpDateFromTime (NotAfter cert)" and "i \<equiv> NewIssuer issuer"
  obtains db2 where "db_ok up held db2" "backend db2 = backend db"
    "mock_members (extCache db2) = (mock_members (extCache db))
       (serialId (NewKnownCertificates e i) [] :=
          insert (BinaryString s) (mock_members (extCache db) (serialId (NewKnownCertificates e i) [])))"
    "Store sb (MockRemoteCache_ops js) gc up cert issuer url n now db =
       run_bind
         (if BinaryString s \<notin> mock_members (extCache db) (serialId (NewKnownCertificates e i) [])
          then store_unknown sb (MockRemoteCache_ops js) up cert s e i
                 (cert_pem cert url n now) now db2
          else Done (None, db2))
         (\<lambda>(err, db3). case err of Some e \<Rightarrow> Done (Some e, db3) | None \<Rightarrow> Done (markDirty sb (NotAfter cert) db3))"
proof -
  have ok: "mock_inv (extCache db)" "heap_ok held db" "expirations_ok (extCache db)"
    "metas_ok up (db_meta db) (extCache db)" using assms(2) by (simp_all add: db_ok_def)
  have h: "hour_date e" using assms(3) by (simp add: e_def hour_date_from_time)
  obtain ptr db1 where g: "GetKnownCertificates gc e i db = Done (ptr, db1)" "heap_ok held db1"
    "ptr < length (kc_heap db1)" "hour_date (kc_expDate (kc_heap db1 ! ptr))"
    "ExpDate_ID (kc_expDate (kc_heap db1 ! ptr)) = ExpDate_ID e"
    "Issuer_ID (kc_issuer (kc_heap db1 ! ptr)) = Issuer_ID i"
    "extCache db1 = extCache db" "backend db1 = backend db" "db_meta db1 = db_meta db"
    by (rule local_cache.GetKnownCertificates_ok [OF assms(1) ok(2) h])
  let ?kc = "kc_heap db1 ! ptr"
  have k: "serialId ?kc [] = serialId (NewKnownCertificates e i) []"
    by (rule serialId_eq) (simp_all add: NewKnownCertificates_def g)
  obtain c' where w: "WasUnknown (MockRemoteCache_ops js) ?kc s now (extCache db) =
      Done ((BinaryString s \<notin> mock_members (extCache db) (serialId ?kc []), None), ?kc\<lparr>expirySet := True\<rparr>, c')"
    "mock_inv c'" "expirations_ok c'"
    "mock_members c' = (mock_members (extCache db))(serialId ?kc [] :=
       insert (BinaryString s) (mock_members (extCache db) (serialId ?kc [])))"
    by (rule WasUnknown_mock [OF ok(1,3) g(4)])
  let ?db2 = "db1\<lparr>extCache := c', kc_heap := (kc_heap db1)[ptr := ?kc\<lparr>expirySet := True\<rparr>]\<rparr>"
  have "metas_ok up (db_meta db) c'" by (rule metas_ok_mono [OF ok(4)]) (auto simp: w(4))
  then have "db_ok up held ?db2"
    using w(2,3) heap_ok_expirySet [OF g(2,3), of c'] g(9) by (simp add: db_ok_def)
  moreover have "Store sb (MockRemoteCache_ops js) gc up cert issuer url n now db =
       run_bind
         (if BinaryString s \<notin> mock_members (extCache db) (serialId (NewKnownCertificates e i) [])
          then store_unknown sb (MockRemoteCache_ops js) up cert s e i
                 (cert_pem cert url n now) now ?db2
          else Done (None, ?db2))
         (\<lambda>(err, db3). case err of Some e \<Rightarrow> Done (Some e, db3) | None \<Rightarrow> Done (markDirty sb (NotAfter cert) db3))"
    unfolding Store_def Let_def e_def [symmetric] i_def [symmetric] g(1)
    using assms(4) w(1) g(7)
    by (simp add: k cong: if_cong option.case_cong)
  ultimately show ?thesis
    using that [of ?db2] g(8) w(4) by (simp add: k)
qed

lemma store_unknown_keeps:
  fixes db :: "('b, MockRemoteCache, 'g) FilesystemDatabase"
  assumes "db_ok up held db"
    and "x \<in> mock_members (extCache db) (serialId (NewKnownCertificates e i) [])"
  shows "\<exists>seen db2. db_ok up held db2 \<and> backend db2 = backend db \<and>
    x \<in> mock_members (extCache db2) (serialId (NewKnownCertificates e i) []) \<and>
    store_unknown sb (MockRemoteCache_ops js) up cert s e i pem now db = store_in_backend sb seen s e i pem db2"
proof -
  let ?k = "serialId (NewKnownCertificates e i) []"
  have ok: "mock_inv (extCache db)" "expirations_ok (extCache db)" "metas_ok up (db_meta db) (extCache db)"
    "heap_ok held db" using assms(1) by (simp_all add: db_ok_def)
  have k: "?k \<noteq> ''crl::'' @ Issuer_ID i" "?k \<noteq> ''issuer::'' @ Issuer_ID i"
    by (simp_all add: serialId_def kSerials_def)
  show ?thesis
    by (rule store_unknown_front [OF ok(1-3), where sb = sb and js = js and cert = cert and s = s
          and e = e and i = i and pem = pem and now = now])
      (use k assms(2) heap_ok_frame [OF ok(4)] in \<open>intro exI conjI, auto simp: db_ok_def\<close>)
qed

text \<open>Whatever the backend answers, \<^verbatim>\<open>Store\<close> returns and keeps the invariant.\<close>

lemma Store_mock_returns:
  fixes db :: "('b, MockRemoteCache, 'g) FilesystemDatabase"
  assumes "local_cache gc held" and "db_ok up held db" and "four_digit_year (NotAfter cert)" and "NewSerial cert = Done s"
  shows "\<exists>err db'. Store sb (MockRemoteCache_ops js) gc up cert issuer url n now db = Done (err, db') \<and> db_ok up held db'"
proof (rule Store_mock_front [OF assms, where sb = sb and js = js and issuer = issuer and url = url and n = n and now = now])
  fix db2 :: "('b, MockRemoteCache, 'g) FilesystemDatabase"
  let ?e = "NewExpDateFromTime (NotAfter cert)" and ?i = "NewIssuer issuer"
  let ?k = "serialId (NewKnownCertificates ?e ?i) []"
  let ?branch = "if BinaryString s \<notin> mock_members (extCache db) ?k
    then store_unknown sb (MockRemoteCache_ops js) up cert s ?e ?i (cert_pem cert url n now) now db2 else Done (None, db2)"
  assume ok: "db_ok up held db2" and m: "mock_members (extCache db2) = (mock_members (extCache db))
       (?k := insert (BinaryString s) (mock_members (extCache db) ?k))"
    and st: "Store sb (MockRemoteCache_ops js) gc up cert issuer url n now db = run_bind ?branch
         (\<lambda>(err, db3). case err of Some e \<Rightarrow> Done (Some e, db3) | None \<Rightarrow> Done (markDirty sb (NotAfter cert) db3))"
  have "\<exists>err db3. ?branch = Done (err, db3) \<and> db_ok up held db3"
  proof -
    have "BinaryString s \<in> mock_members (extCache db2) ?k" by (simp add: m)
    from store_unknown_keeps [OF ok this, of sb js cert s "cert_pem cert url n now" now]
    obtain seen db4 where d: "db_ok up held db4" "store_unknown sb (MockRemoteCache_ops js) up cert s ?e ?i (cert_pem cert url n now) now db2 =
      store_in_backend sb seen s ?e ?i (cert_pem cert url n now) db4" by blast
    have "\<exists>err b'. store_in_backend sb seen s ?e ?i (cert_pem cert url n now) db4 = Done (err, db4\<lparr>backend := b'\<rparr>)"
      by (auto simp: store_in_backend_def Let_def split: prod.split option.split)
    then show ?thesis using d ok by (auto simp: db_ok_def heap_ok_def)
  qed
  then obtain err db3 where b: "?branch = Done (err, db3)" "db_ok up held db3" by blast
  have "\<exists>er b'. markDirty sb (NotAfter cert) db3 = (er, db3\<lparr>backend := b'\<rparr>)"
    by (auto simp: markDirty_def Let_def split: prod.split)
  then show ?thesis using b(2) unfolding st b(1) by (cases err) (auto simp: db_ok_def heap_ok_def)
qed

subsection \<open>Properties\<close>

text \<open>
  C2. On the mock cache and the mock backend, with any local cache that returns what was set or
  reports it missing, \<^verbatim>\<open>Store\<close> of a certificate that is not yet due to expire succeeds. A serial
  number known for its date and issuer changes neither the backend nor the sets of the cache.
  An unknown one is entered, its certificate is stored in PEM form and can be loaded, the
  serial number is appended to the list of the date and issuer, and the issuer's CRL and name
  sets gain what the certificate says. The invariant of the database is kept.
\<close>

theorem store_certificate:
  fixes db :: "(MockBackend, MockRemoteCache, 'g) FilesystemDatabase"
  assumes "local_cache gc held" and "db_ok up held db" and "four_digit_year (NotAfter cert)"
    and "now < ExpireTime (NewExpDateFromTime (NotAfter cert))" and "NewSerial cert = Done s"
    and "e = NewExpDateFromTime (NotAfter cert)" and "i = NewIssuer issuer"
    and "known = mock_members (extCache db) (serialId (NewKnownCertificates e i) [])"
  shows "\<exists>db'. Store (MockBackend_ops js) (MockRemoteCache_ops js) gc up cert issuer url n now db
      = Done (None, db') \<and> db_ok up held db' \<and>
    mock_members (extCache db') (serialId (NewKnownCertificates e i) []) = insert (BinaryString s) known \<and>
    (if BinaryString s \<in> known
     then backend db' = backend db \<and> mock_members (extCache db') = mock_members (extCache db)
     else MB_LoadCertificatePEM s e i (backend db') = (cert_pem cert url n now, None) \<and>
       fst (MB_ListSerialsForExpirationDateAndIssuer e i (backend db')) =
         fst (MB_ListSerialsForExpirationDateAndIssuer e i (backend db)) @ [s] \<and>
       mock_members (extCache db') (''crl::'' @ Issuer_ID i) =
         mock_members (extCache db) (''crl::'' @ Issuer_ID i) \<union> http_urls up (set (CRLDistributionPoints cert)) \<and>
       mock_members (extCache db') (''issuer::'' @ Issuer_ID i) =
         insert (cert_Issuer cert) (mock_members (extCache db) (''issuer::'' @ Issuer_ID i)))"
proof -
  let ?k = "serialId (NewKnownCertificates e i) []"
  obtain db2 where d: "db_ok up held db2" "backend db2 = backend db"
    "mock_members (extCache db2) = (mock_members (extCache db))(?k := insert (BinaryString s) known)"
    and st: "Store (MockBackend_ops js) (MockRemoteCache_ops js) gc up cert issuer url n now db =
       run_bind (if BinaryString s \<notin> known
          then store_unknown (MockBackend_ops js) (MockRemoteCache_ops js) up cert s e i
                 (cert_pem cert url n now) now db2
          else Done (None, db2))
         (\<lambda>(err, db3). case err of Some e \<Rightarrow> Done (Some e, db3)
           | None \<Rightarrow> Done (markDirty (MockBackend_ops js) (NotAfter cert) db3))"
    unfolding assms(6-8) by (rule Store_mock_front [OF assms(1-3,5)])
  have md: "markDirty (MockBackend_ops js) (NotAfter cert) db3 = (None, db3)"
    for db3 :: "(MockBackend, MockRemoteCache, 'g) FilesystemDatabase"
    by (simp add: markDirty_def mb_ops_simps MB_MarkDirty_def Let_def)
  show ?thesis
  proof (cases "BinaryString s \<in> known")
    case True
    then show ?thesis using st d by (simp add: md insert_absorb assms(8) fun_upd_idem)
  next
    case False
    have ok: "mock_inv (extCache db2)" "expirations_ok (extCache db2)" "metas_ok up (db_meta db2) (extCache db2)"
      "heap_ok held db2" using d(1) by (simp_all add: db_ok_def)
    obtain db' where u: "store_unknown (MockBackend_ops js) (MockRemoteCache_ops js) up cert s e i
        (cert_pem cert url n now) now db2 = Done (None, db')"
      "mock_inv (extCache db')" "expirations_ok (extCache db')" "metas_ok up (db_meta db') (extCache db')"
      "mock_members (extCache db') = (mock_members (extCache db2))
         (''crl::'' @ Issuer_ID i := mock_members (extCache db2) (''crl::'' @ Issuer_ID i) \<union>
            http_urls up (set (CRLDistributionPoints cert)),
          ''issuer::'' @ Issuer_ID i := insert (cert_Issuer cert) (mock_members (extCache db2) (''issuer::'' @ Issuer_ID i)))"
      "kc_heap db' = kc_heap db2" "knownCertsCache db' = knownCertsCache db2"
      "mb_store (backend db') = AList.update (pem_key s e i) (cert_pem cert url n now) (mb_store (backend db2))"
      "expDateIssuerIDToSerials (backend db') = AList.update (ExpDate_ID e @ Issuer_ID i)
         (at_or_nil (expDateIssuerIDToSerials (backend db2)) (ExpDate_ID e @ Issuer_ID i) @ [s])
         (expDateIssuerIDToSerials (backend db2))"
      by (rule store_unknown_mock [OF ok(1-3)])
    have keys: "?k \<noteq> ''crl::'' @ Issuer_ID i" "?k \<noteq> ''issuer::'' @ Issuer_ID i"
      by (simp_all add: serialId_def kSerials_def)
    have "db_ok up held db'" using u(2-4,6,7) heap_ok_frame [OF ok(4)] by (simp add: db_ok_def)
    moreover have "MB_LoadCertificatePEM s e i (backend db') = (cert_pem cert url n now, None)"
      by (simp add: MB_LoadCertificatePEM_def u(8))
    moreover have "fst (MB_ListSerialsForExpirationDateAndIssuer e i (backend db')) =
        fst (MB_ListSerialsForExpirationDateAndIssuer e i (backend db)) @ [s]"
      by (simp add: MB_ListSerialsForExpirationDateAndIssuer_def u(9) d(2) at_or_nil_def)
    ultimately show ?thesis
      using st u(1,5) d(3) False keys by (intro exI [of _ db']) (simp add: md fun_upd_other)
  qed
qed

definition sample_tbs :: bytes where
  "sample_tbs = [0x30, 0x09, 0xA0, 3, 2, 1, 2, 2, 2, 0, 0xA5]"

definition fresh_cert :: Certificate where
  "fresh_cert = (sample_cert sample_tbs)\<lparr>NotAfter := 63700000000000000000,
     CRLDistributionPoints := [''http:/a'']\<rparr>"

definition sample_db :: "(MockBackend, MockRemoteCache, (string \<times> nat) list) FilesystemDatabase" where
  "sample_db = NewFilesystemDatabase NewMockBackend NewMockRemoteCache []"

lemma sample_db_ok: "db_ok up map_of sample_db"
  using NewMockRemoteCache_inv
  by (simp add: db_ok_def sample_db_def NewFilesystemDatabase_def heap_ok_def expirations_ok_def
      metas_ok_def NewMockRemoteCache_def)

lemma fresh_cert_facts:
  "four_digit_year (NotAfter fresh_cert)" "0 < ExpireTime (NewExpDateFromTime (NotAfter fresh_cert))"
  "NewSerial fresh_cert = Done (Serial [0, 0xA5])"
  by code_simp+

lemma sample_db_empty: "mock_members (extCache sample_db) k = {}"
  by (simp add: sample_db_def NewFilesystemDatabase_def mock_members_def data_at_def NewMockRemoteCache_def)

theorem store_certificate_witness:
  "\<exists>db'. Store (MockBackend_ops sample_codec) (MockRemoteCache_ops sample_codec) (fifo_gcache 2) sample_up fresh_cert
      (sample_cert []) ''log'' 7 0 sample_db = Done (None, db') \<and>
    MB_LoadCertificatePEM (Serial [0, 0xA5]) (NewExpDateFromTime (NotAfter fresh_cert))
      (NewIssuer (sample_cert [])) (backend db') = (cert_pem fresh_cert ''log'' 7 0, None)"
proof -
  have "BinaryString (Serial [0, 0xA5]) \<notin> {}" by simp
  with store_certificate [OF fifo.local_cache_axioms [of 2] sample_db_ok [of sample_up] fresh_cert_facts refl refl
      sample_db_empty [symmetric], where js = sample_codec and url = "''log''" and n = 7 and issuer = "sample_cert []"]
  show ?thesis by auto
qed

text \<open>
  C22. A certificate that could not be stored is lost. On the mock cache and the mock backend, any database that satisfies the
  invariant and a certificate not yet due to expire that is unknown so far: when the backend fails to store it, \<^verbatim>\<open>Store\<close>
  returns the error, but the serial number has been entered in the cache before; a second
  \<^verbatim>\<open>Store\<close> of the same certificate, on a backend that works again, reports success and stores
  nothing.
\<close>

theorem store_failure_not_retried:
  fixes db :: "(MockBackend, MockRemoteCache, 'g) FilesystemDatabase"
  assumes "local_cache gc held" and "db_ok up held db" and "four_digit_year (NotAfter cert)"
    and "now < ExpireTime (NewExpDateFromTime (NotAfter cert))"
    and "later < ExpireTime (NewExpDateFromTime (NotAfter cert))" and "NewSerial cert = Done s"
    and "e = NewExpDateFromTime (NotAfter cert)" and "i = NewIssuer issuer"
    and "BinaryString s \<notin> mock_members (extCache db) (serialId (NewKnownCertificates e i) [])"
    and "failing = (MockBackend_ops js)\<lparr>sb_StoreCertificatePEM := \<lambda>s e i p b. (Some err, b)\<rparr>"
  shows "\<exists>db1 db2. Store failing (MockRemoteCache_ops js) gc up cert issuer url n now db = Done (Some err, db1) \<and>
    Store (MockBackend_ops js) (MockRemoteCache_ops js) gc up cert issuer url n later db1 = Done (None, db2) \<and>
    MB_LoadCertificatePEM s e i (backend db2) = MB_LoadCertificatePEM s e i (backend db)"
proof -
  let ?k = "serialId (NewKnownCertificates e i) []"
  obtain db2 where d: "db_ok up held db2" "backend db2 = backend db"
    "BinaryString s \<in> mock_members (extCache db2) ?k"
    and st: "Store failing (MockRemoteCache_ops js) gc up cert issuer url n now db =
       run_bind (store_unknown failing (MockRemoteCache_ops js) up cert s e i (cert_pem cert url n now) now db2)
         (\<lambda>(err, db3). case err of Some e \<Rightarrow> Done (Some e, db3)
           | None \<Rightarrow> Done (markDirty failing (NotAfter cert) db3))"
    using Store_mock_front [OF assms(1-3,6), where js = js and sb = failing and issuer = issuer and url = url and n = n]
      assms(7-9) by (smt (verit) fun_upd_same insertI1)
  obtain seen db3 where m: "db_ok up held db3" "backend db3 = backend db2"
    "BinaryString s \<in> mock_members (extCache db3) ?k"
    and su: "store_unknown failing (MockRemoteCache_ops js) up cert s e i (cert_pem cert url n now) now db2 =
       store_in_backend failing seen s e i (cert_pem cert url n now) db3"
    using store_unknown_keeps [OF d(1,3)] by blast
  obtain b1 where b1: "(if \<not> seen then MB_AllocateExpDateAndIssuer e i (backend db) else (None, backend db)) = (None, b1)"
    "mb_store b1 = mb_store (backend db)"
    using MB_Allocate_frame [of e i "backend db"] by (cases seen) auto
  let ?db1 = "db3\<lparr>backend := b1\<rparr>"
  have fail: "sb_StoreCertificatePEM failing s e i p b = (Some err, b)"
    "sb_AllocateExpDateAndIssuer failing = MB_AllocateExpDateAndIssuer" for p b
    by (simp_all add: assms(10) mb_ops_simps)
  have "Store failing (MockRemoteCache_ops js) gc up cert issuer url n now db = Done (Some err, ?db1)"
    unfolding st su store_in_backend_def fail m(2) d(2) b1(1) by simp
  moreover have ok1: "db_ok up held ?db1" using m(1) by (simp add: db_ok_def heap_ok_def)
  moreover obtain db' where "Store (MockBackend_ops js) (MockRemoteCache_ops js) gc up cert issuer url n later ?db1
      = Done (None, db')" "backend db' = backend ?db1"
    using Store_mock_front [OF assms(1) ok1 assms(3,6), where js = js and sb = "MockBackend_ops js"
        and issuer = issuer and url = url and n = n] m(3) assms(7,8)
    by (auto simp: markDirty_def mb_ops_simps MB_MarkDirty_def Let_def)
  ultimately show ?thesis using b1(2) by (auto simp: MB_LoadCertificatePEM_def)
qed

theorem store_failure_not_retried_witness:
  "\<exists>db1 db2. Store ((MockBackend_ops sample_codec)\<lparr>sb_StoreCertificatePEM := \<lambda>s e i p b. (Some (ExtError ''disk full''), b)\<rparr>)
      (MockRemoteCache_ops sample_codec) (fifo_gcache 2) sample_up fresh_cert (sample_cert []) ''log'' 7 0 sample_db
      = Done (Some (ExtError ''disk full''), db1) \<and>
    Store (MockBackend_ops sample_codec) (MockRemoteCache_ops sample_codec) (fifo_gcache 2) sample_up fresh_cert (sample_cert [])
      ''log'' 7 0 db1 = Done (None, db2) \<and>
    MB_LoadCertificatePEM (Serial [0, 0xA5]) (NewExpDateFromTime (NotAfter fresh_cert)) (NewIssuer (sample_cert []))
      (backend db2) = ([], Some (Errorf ''Couldn't find''))"
proof -
  have n: "BinaryString (Serial [0, 0xA5]) \<notin> mock_members (extCache sample_db) (serialId
      (NewKnownCertificates (NewExpDateFromTime (NotAfter fresh_cert)) (NewIssuer (sample_cert []))) [])"
    by (simp add: sample_db_empty)
  have l: "MB_LoadCertificatePEM s e i (backend sample_db) = ([], Some (Errorf ''Couldn't find''))" for s e i
    by (simp add: MB_LoadCertificatePEM_def sample_db_def NewFilesystemDatabase_def NewMockBackend_def)
  from store_failure_not_retried [OF fifo.local_cache_axioms [of 2] sample_db_ok [of sample_up] fresh_cert_facts(1,2,2,3)
      refl refl n refl, where js = sample_codec and err = "ExtError ''disk full''" and url = "''log''" and n = 7]
  show ?thesis unfolding l .
qed



subsection \<open>The keys of the cache\<close>

lemma serial_key_parts:
  assumes "wf_ExpDate e" "CHR '':'' \<notin> set (Issuer_ID i)"
  shows "strings_Split (serialId (NewKnownCertificates e i) []) ''::'' = [''serials'', ExpDate_ID e, Issuer_ID i]"
proof -
  have "serialId (NewKnownCertificates e i) [] = ''serials'' @ ''::'' @ ExpDate_ID e @ ''::'' @ Issuer_ID i"
    by (simp add: serialId_def kc_id_def kSerials_def NewKnownCertificates_def)
  moreover have "CHR '':'' \<notin> set ''serials''" by simp
  ultimately show ?thesis
    using assms ExpDate_ID_shape(1) [OF assms(1)]
      strings_Split_part [of "''::''" "''serials''" "ExpDate_ID e @ ''::'' @ Issuer_ID i"]
      strings_Split_part [of "''::''" "ExpDate_ID e" "Issuer_ID i"] strings_Split_last [of "''::''" "Issuer_ID i"]
    by simp
qed

text \<open>The dates a grouped map holds for an issuer.\<close>

definition dates_of :: "(string \<times> IssuerDate) list \<Rightarrow> string \<Rightarrow> ExpDate list" where
  "dates_of m i = (case map_of m i of None \<Rightarrow> [] | Some d \<Rightarrow> ExpDates d)"

definition reparsed :: "ExpDate \<Rightarrow> ExpDate" where
  "reparsed e = e\<lparr>lastGood := ed_date e + resolution e - Millisecond\<rparr>"

definition grouped :: "(string \<times> IssuerDate) list \<Rightarrow> bool" where
  "grouped m \<longleftrightarrow> wf_map m \<and> (\<forall>(i, d) \<in> set m. Issuer_ID (idt_Issuer d) = i)"

lemma grouped_update:
  "grouped m \<Longrightarrow> Issuer_ID (idt_Issuer d) = i \<Longrightarrow> grouped (AList.update i d m)"
  by (auto simp: grouped_def set_update_wf)

lemma group_keys_ok:
  assumes "\<forall>(e, i) \<in> set ps. wf_ExpDate e \<and> CHR '':'' \<notin> set (Issuer_ID i)" and "grouped m"
  shows "\<exists>m'. group_keys (map (\<lambda>(e, i). serialId (NewKnownCertificates e i) []) ps) m = Inr m' \<and> grouped m' \<and>
    keys m' = keys m \<union> (\<lambda>(e, i). Issuer_ID i) ` set ps \<and>
    (\<forall>x. dates_of m' x = dates_of m x @ map (reparsed \<circ> fst) (filter (\<lambda>(e, i). Issuer_ID i = x) ps))"
  using assms
proof (induction ps arbitrary: m)
  case Nil
  then show ?case by simp
next
  case (Cons p ps)
  obtain e i where p: "p = (e, i)" by fastforce
  with Cons.prems(1) have w: "wf_ExpDate e" "CHR '':'' \<notin> set (Issuer_ID i)" by auto
  let ?x = "Issuer_ID i"
  define m1 where "m1 = (case map_of m ?x of
      None \<Rightarrow> AList.update ?x \<lparr>idt_Issuer = NewIssuerFromString ?x, ExpDates = []\<rparr> m | Some _ \<Rightarrow> m)"
  define d where "d = the (map_of m1 ?x)"
  define m2 where "m2 = AList.update ?x (d\<lparr>ExpDates := ExpDates d @ [reparsed e]\<rparr>) m1"
  have m1: "map_of m1 ?x = Some d" "grouped m1" "dates_of m1 y = dates_of m y" "insert ?x (keys m1) = insert ?x (keys m)" for y
    using Cons.prems(2)
    by (auto simp: m1_def d_def dates_of_def intro!: grouped_update split: option.split)
  then have "Issuer_ID (idt_Issuer d) = ?x" by (auto simp: grouped_def dest: map_of_SomeD)
  then have g2: "grouped m2" unfolding m2_def by (intro grouped_update m1) simp
  have step: "group_keys (map (\<lambda>(e, i). serialId (NewKnownCertificates e i) []) (p # ps)) m =
      group_keys (map (\<lambda>(e, i). serialId (NewKnownCertificates e i) []) ps) m2"
    using NewExpDate_ID [OF w(1)]
    by (simp add: p serial_key_parts [OF w] Let_def m2_def d_def m1_def reparsed_def cong: option.case_cong)
  have dates: "dates_of m2 y = dates_of m y @ (if y = ?x then [reparsed e] else [])" for y
    using m1(3) [of y] m1(1) by (cases "y = ?x") (simp_all add: m2_def dates_of_def)
  obtain m' where "group_keys (map (\<lambda>(e, i). serialId (NewKnownCertificates e i) []) ps) m2 = Inr m'"
    "grouped m'" "keys m' = keys m2 \<union> (\<lambda>(e, i). Issuer_ID i) ` set ps"
    "\<forall>x. dates_of m' x = dates_of m2 x @ map (reparsed \<circ> fst) (filter (\<lambda>(e, i). Issuer_ID i = x) ps)"
    using Cons.IH [OF _ g2] Cons.prems(1) by auto
  with step dates m1(4) show ?case by (intro exI [of _ m']) (auto simp: p m2_def)
qed

lemma issuer_dates_map:
  fixes db :: "('b, 'c, 'g) FilesystemDatabase"
  assumes "\<forall>(e, i) \<in> set ps. wf_ExpDate e \<and> CHR '':'' \<notin> set (Issuer_ID i)"
    and "rc_KeysToChan rc ''serials::*'' now (extCache db) =
      Done ((map (\<lambda>(e, i). serialId (NewKnownCertificates e i) []) ps, None), c')"
  obtains m where "GetIssuerAndDatesFromCache rc now db = Done (Inr (map snd m), db\<lparr>extCache := c'\<rparr>)" "grouped m"
    "keys m = (\<lambda>(e, i). Issuer_ID i) ` set ps"
    "\<forall>x. dates_of m x = map (reparsed \<circ> fst) (filter (\<lambda>(e, i). Issuer_ID i = x) ps)"
proof -
  have "grouped []" by (simp add: grouped_def)
  from group_keys_ok [OF assms(1) this] obtain m where
    m: "group_keys (map (\<lambda>(e, i). serialId (NewKnownCertificates e i) []) ps) [] = Inr m" "grouped m"
    "keys m = (\<lambda>(e, i). Issuer_ID i) ` set ps"
    "\<forall>x. dates_of m x = map (reparsed \<circ> fst) (filter (\<lambda>(e, i). Issuer_ID i = x) ps)"
    by (auto simp: dates_of_def)
  from that [OF _ m(2-4)] assms(2) m(1) show ?thesis by (simp add: GetIssuerAndDatesFromCache_def Let_def)
qed

lemma grouped_dates: "grouped m \<Longrightarrow> d \<in> snd ` set m \<Longrightarrow> ExpDates d = dates_of m (Issuer_ID (idt_Issuer d))"
  by (auto simp: grouped_def dates_of_def)

text \<open>
  C12. From the keys of the serial sets, \<^verbatim>\<open>GetIssuerAndDatesFromCache\<close> recovers every issuer, once,
  with the expiration dates of its sets in the order of the keys. Issuer identifiers must not
  contain a colon; the dates come back as read from their text.
\<close>

theorem issuer_dates_from_cache:
  fixes db :: "('b, 'c, 'g) FilesystemDatabase"
  assumes "\<forall>(e, i) \<in> set ps. wf_ExpDate e \<and> CHR '':'' \<notin> set (Issuer_ID i)"
    and "rc_KeysToChan rc ''serials::*'' now (extCache db) =
      Done ((map (\<lambda>(e, i). serialId (NewKnownCertificates e i) []) ps, None), c')"
  shows "\<exists>ids. GetIssuerAndDatesFromCache rc now db = Done (Inr ids, db\<lparr>extCache := c'\<rparr>) \<and>
    distinct (map (Issuer_ID \<circ> idt_Issuer) ids) \<and>
    (Issuer_ID \<circ> idt_Issuer) ` set ids = (\<lambda>(e, i). Issuer_ID i) ` set ps \<and>
    (\<forall>d \<in> set ids. ExpDates d =
       map (reparsed \<circ> fst) (filter (\<lambda>(e, i). Issuer_ID i = Issuer_ID (idt_Issuer d)) ps))"
proof -
  obtain m where m: "GetIssuerAndDatesFromCache rc now db = Done (Inr (map snd m), db\<lparr>extCache := c'\<rparr>)" "grouped m"
    "keys m = (\<lambda>(e, i). Issuer_ID i) ` set ps"
    "\<forall>x. dates_of m x = map (reparsed \<circ> fst) (filter (\<lambda>(e, i). Issuer_ID i = x) ps)"
    by (rule issuer_dates_map [OF assms])
  have f: "map (Issuer_ID \<circ> idt_Issuer) (map snd m) = map fst m"
    using m(2) by (auto simp: grouped_def)
  have "distinct (map (Issuer_ID \<circ> idt_Issuer) (map snd m))"
    unfolding f using m(2) by (simp add: grouped_def)
  moreover have "(Issuer_ID \<circ> idt_Issuer) ` set (map snd m) = (\<lambda>(e, i). Issuer_ID i) ` set ps"
    using arg_cong [OF f, of set] m(3) by (simp add: image_image)
  ultimately show ?thesis using m(1,4) grouped_dates [OF m(2)] by (intro exI [of _ "map snd m"]) auto
qed

theorem issuer_dates_from_cache_witness:
  "\<exists>ids. GetIssuerAndDatesFromCache (MockRemoteCache_ops sample_codec) 0
      (NewFilesystemDatabase () \<lparr>Data = [(''serials::2020-01-01::ca'', [''x'']), (''crl::ca'', [''y''])],
         Expirations = [], Duplicate = 0\<rparr> ()) = Done (Inr ids, NewFilesystemDatabase ()
         \<lparr>Data = [(''serials::2020-01-01::ca'', [''x'']), (''crl::ca'', [''y''])], Expirations = [], Duplicate = 0\<rparr> ()) \<and>
    (Issuer_ID \<circ> idt_Issuer) ` set ids = {''ca''}"
proof -
  let ?c = "\<lparr>Data = [(''serials::2020-01-01::ca'', [''x'']), (''crl::ca'', [''y''])], Expirations = [], Duplicate = 0\<rparr>"
  let ?db = "NewFilesystemDatabase () ?c ()"
  obtain e where e: "NewExpDate ''2020-01-01'' = Inr e"
  proof (cases "NewExpDate ''2020-01-01''")
    case (Inl err)
    moreover have "case NewExpDate ''2020-01-01'' of Inl _ \<Rightarrow> False | Inr _ \<Rightarrow> True" by code_simp
    ultimately show ?thesis by simp
  qed
  have w: "wf_ExpDate e" "ExpDate_ID e = ''2020-01-01''"
    using NewExpDate_wf [OF e] NewExpDate_text [OF e] by simp_all
  have m: "filter (filepath_Match ''serials::*'') [''serials::2020-01-01::ca'', ''crl::ca''] = [''serials::2020-01-01::ca'']"
    by code_simp
  have k: "rc_KeysToChan (MockRemoteCache_ops sample_codec) ''serials::*'' 0 (extCache ?db) =
      Done ((map (\<lambda>(e, i). serialId (NewKnownCertificates e i) []) [(e, NewIssuerFromString ''ca'')], None), ?c)"
    using m w(2)
    by (simp add: mock_ops_simps Mock_KeysToChan_def NewFilesystemDatabase_def serialId_def kc_id_def kSerials_def
        NewKnownCertificates_def)
  from issuer_dates_from_cache [OF _ k] w(1) show ?thesis by (auto simp: NewFilesystemDatabase_def)
qed

end
