(* ===== verification/Local_Disk.thy ===== *)
theory Local_Disk
  imports Storage_Backend Go_Os
begin

text \<open>
  \<^verbatim>\<open>storage/localdiskbackend.go\<close>: the storage backend on a directory of files, in which the aggregation
  programs write one file of serial numbers per issuer.

  The state of the backend is the disk: its operations are those of \<open>Go_Os\<close> on a world. File modes
  are left out. \<^verbatim>\<open>os.File.Write\<close> returns an error whenever it writes less than it was given, so the
  code's check of the count is never reached. The JSON of a log state is the argument \<open>js\<close>.

  The locale \<open>known_lists\<close> is the contract that the aggregation programs rely on: after a list was
  stored without an error it is what is held for the issuer, and the lists of other issuers are as
  they were. \<open>local_disk\<close> derives it from the laws of files for issuers whose identifier is a file name.
\<close>

record LocalDiskBackend =
  rootPath :: string

definition kStateDirName :: string where "kStateDirName = ''state''"
definition kSuffixCertificates :: string where "kSuffixCertificates = ''.pem''"
definition kDirtyMarker :: string where "kDirtyMarker = ''dirty''"

definition NewLocalDiskBackend :: "string \<Rightarrow> LocalDiskBackend" where
  "NewLocalDiskBackend aPath = \<lparr>rootPath = aPath\<rparr>"

definition isDirectory :: "'w os_ops \<Rightarrow> string \<Rightarrow> 'w \<Rightarrow> bool" where
  "isDirectory os aPath w = os_IsDir os aPath w"

definition makeDirectoryIfNotExist :: "'w os_ops \<Rightarrow> string \<Rightarrow> 'w \<Rightarrow> go_error option \<times> 'w" where
  "makeDirectoryIfNotExist os ident w =
     (let dirPath = filepath_Split_dir ident
      in if \<not> isDirectory os dirPath w then os_MkdirAll os dirPath w else (None, w))"

definition ld_store :: "'w os_ops \<Rightarrow> string \<Rightarrow> bytes \<Rightarrow> 'w \<Rightarrow> go_error option \<times> 'w" where
  "ld_store os path data w =
     (case makeDirectoryIfNotExist os path w of
        (Some err, w1) \<Rightarrow> (Some err, w1)
      | (None, w1) \<Rightarrow>
          (case os_OpenFile os path O_TRUNC_CREATE_WRONLY w1 of
             (Some err, w2) \<Rightarrow> (Some err, w2)
           | (None, w2) \<Rightarrow>
               (case os_Write os path data w2 of
                  (Some err, w3) \<Rightarrow> (Some err, snd (os_Close os path w3))
                | (None, w3) \<Rightarrow> os_Close os path w3)))"

definition ld_load :: "'w os_ops \<Rightarrow> string \<Rightarrow> 'w \<Rightarrow> bytes res" where
  "ld_load os path w =
     (case os_Open os path w of
        Some err \<Rightarrow> ([], Some err)
      | None \<Rightarrow>
          (case os_ReadFile os path w of
             Inl err \<Rightarrow> ([], Some err)
           | Inr data \<Rightarrow> (data, fst (os_Close os path w))))"

definition LD_MarkDirty :: "'w os_ops \<Rightarrow> string \<Rightarrow> 'w \<Rightarrow> go_error option \<times> 'w" where
  "LD_MarkDirty os ident w = ld_store os (filepath_Join [ident, kDirtyMarker]) [0] w"

subsection \<open>Walks\<close>

definition list_dates_fn ::
  "time \<Rightarrow> string \<Rightarrow> bool \<Rightarrow> go_error option \<Rightarrow> ExpDate list \<Rightarrow> walk_answer \<times> ExpDate list" where
  "list_dates_fn aNotBefore name isDir err expDates =
     (case err of
        Some e \<Rightarrow> (WalkError e, expDates)
      | None \<Rightarrow>
          (if isDir
           then (if name = kStateDirName then (SkipDir, expDates)
                 else
                   (case NewExpDate name of
                      Inr expDate \<Rightarrow>
                        (if \<not> IsExpiredAt expDate aNotBefore then (SkipDir, expDates @ [expDate])
                         else (WalkOn, expDates))
                    | Inl _ \<Rightarrow> (WalkOn, expDates)))
           else (WalkOn, expDates)))"

text \<open>\<^verbatim>\<open>time.Date\<close> of year, month and day: the start of the day.\<close>

definition LD_ListExpirationDates :: "'w os_ops \<Rightarrow> LocalDiskBackend \<Rightarrow> time \<Rightarrow> 'w \<Rightarrow> ExpDate list res" where
  "LD_ListExpirationDates os db aNotBefore w =
     (let (err, expDates) =
        filepath_Walk (list_dates_fn (time_Truncate aNotBefore Day)) (os_Tree os (rootPath db) w) []
      in (expDates, err))"

definition list_issuers_fn ::
  "string \<Rightarrow> bool \<Rightarrow> go_error option \<Rightarrow> Issuer list \<Rightarrow> walk_answer \<times> Issuer list" where
  "list_issuers_fn name isDir err issuers =
     (case err of
        Some e \<Rightarrow> (WalkError e, issuers)
      | None \<Rightarrow>
          (if strings_HasSuffix name kSuffixCertificates
           then (WalkOn, issuers @ [NewIssuerFromString (strings_TrimSuffix name kSuffixCertificates)])
           else (WalkOn, issuers)))"

definition LD_ListIssuersForExpirationDate ::
  "'w os_ops \<Rightarrow> LocalDiskBackend \<Rightarrow> ExpDate \<Rightarrow> 'w \<Rightarrow> Issuer list res" where
  "LD_ListIssuersForExpirationDate os db expDate w =
     (let (err, issuers) =
        filepath_Walk list_issuers_fn (os_Tree os (filepath_Join [rootPath db, ExpDate_ID expDate]) w) []
      in (issuers, err))"

definition stream_serials_fn ::
  "ExpDate \<Rightarrow> Issuer \<Rightarrow> string \<Rightarrow> bool \<Rightarrow> go_error option \<Rightarrow> UniqueCertIdentifier list
    \<Rightarrow> walk_answer \<times> UniqueCertIdentifier list" where
  "stream_serials_fn expDate issuer name isDir err sent =
     (case err of
        Some e \<Rightarrow> (WalkError e, sent)
      | None \<Rightarrow>
          (if strings_HasSuffix name kSuffixCertificates
           then (case NewSerialFromIDString (strings_TrimSuffix name kSuffixCertificates) of
                   Inl e \<Rightarrow> (WalkError e, sent)
                 | Inr sn \<Rightarrow>
                     (WalkError (Errorf ''Unimplemented''),
                      sent @ [\<lparr>uci_ExpDate = expDate, uci_Issuer = issuer, SerialNum = sn\<rparr>]))
           else (WalkOn, sent)))"

definition LD_StreamSerialsForExpirationDateAndIssuer ::
  "'w os_ops \<Rightarrow> LocalDiskBackend \<Rightarrow> ExpDate \<Rightarrow> Issuer \<Rightarrow> 'w \<Rightarrow> UniqueCertIdentifier list res" where
  "LD_StreamSerialsForExpirationDateAndIssuer os db expDate issuer w =
     (let (err, sent) =
        filepath_Walk (stream_serials_fn expDate issuer)
          (os_Tree os (filepath_Join [rootPath db, ExpDate_ID expDate, Issuer_ID issuer]) w) []
      in (sent, err))"

definition LD_ListSerialsForExpirationDateAndIssuer ::
  "'w os_ops \<Rightarrow> LocalDiskBackend \<Rightarrow> ExpDate \<Rightarrow> Issuer \<Rightarrow> 'w \<Rightarrow> Serial list res" where
  "LD_ListSerialsForExpirationDateAndIssuer os db expDate issuer w =
     (case LD_StreamSerialsForExpirationDateAndIssuer os db expDate issuer w of
        (_, Some err) \<Rightarrow> ([], Some err)
      | (sent, None) \<Rightarrow> (map SerialNum sent, None))"

subsection \<open>Storing\<close>

definition LD_AllocateExpDateAndIssuer ::
  "'w os_ops \<Rightarrow> LocalDiskBackend \<Rightarrow> ExpDate \<Rightarrow> Issuer \<Rightarrow> 'w \<Rightarrow> go_error option \<times> 'w" where
  "LD_AllocateExpDateAndIssuer os db expDate issuer w =
     makeDirectoryIfNotExist os (filepath_Join [rootPath db, ExpDate_ID expDate, Issuer_ID issuer]) w"

definition log_path :: "LocalDiskBackend \<Rightarrow> string \<Rightarrow> string" where
  "log_path db ident = filepath_Join [rootPath db, kStateDirName, ident]"

definition LD_StoreLogState ::
  "json_codec \<Rightarrow> 'w os_ops \<Rightarrow> LocalDiskBackend \<Rightarrow> CertificateLog \<Rightarrow> 'w \<Rightarrow> go_error option \<times> 'w" where
  "LD_StoreLogState js os db log w =
     (case js_Marshal js log of
        Inl err \<Rightarrow> (Some err, w)
      | Inr encoded \<Rightarrow> ld_store os (log_path db (CertificateLog_ID log)) encoded w)"

definition LD_LoadLogState ::
  "json_codec \<Rightarrow> 'w os_ops \<Rightarrow> LocalDiskBackend \<Rightarrow> string \<Rightarrow> 'w \<Rightarrow> CertificateLog option res" where
  "LD_LoadLogState js os db logURL w =
     (case ld_load os (log_path db (CertificateLogIDFromShortURL logURL)) w of
        (_, Some err) \<Rightarrow> (Some (new_log logURL), None)
      | (data, None) \<Rightarrow>
          (case js_Unmarshal js data of
             Inl err \<Rightarrow> (None, Some err)
           | Inr log \<Rightarrow> (Some log, None)))"

text \<open>One line per serial number; the context is looked at before each.\<close>

definition serial_line :: "Serial \<Rightarrow> bytes" where
  "serial_line s = bytes_of_string (HexString s @ [CHR 0x0A])"

fun write_serials :: "'w os_ops \<Rightarrow> string \<Rightarrow> Serial list \<Rightarrow> 'w \<Rightarrow> go_error option \<times> 'w" where
  "write_serials os path [] w = (None, w)"
| "write_serials os path (s # ss) w =
     (case ctx_Err os w of
        Some err \<Rightarrow> (Some err, w)
      | None \<Rightarrow>
          (case os_Write os path (serial_line s) w of
             (Some err, w1) \<Rightarrow> (Some err, w1)
           | (None, w1) \<Rightarrow> write_serials os path ss w1))"

definition known_path :: "LocalDiskBackend \<Rightarrow> string \<Rightarrow> string" where
  "known_path db ident = filepath_Join [rootPath db, ident]"

definition LD_StoreKnownCertificateList ::
  "'w os_ops \<Rightarrow> LocalDiskBackend \<Rightarrow> Issuer \<Rightarrow> Serial list \<Rightarrow> 'w \<Rightarrow> go_error option \<times> 'w" where
  "LD_StoreKnownCertificateList os db issuer serials w =
     (let path = known_path db (Issuer_ID issuer)
      in case makeDirectoryIfNotExist os path w of
           (Some err, w1) \<Rightarrow> (Some err, w1)
         | (None, w1) \<Rightarrow>
             (case os_OpenFile os path O_TRUNC_CREATE_WRONLY w1 of
                (Some err, w2) \<Rightarrow> (Some err, w2)
              | (None, w2) \<Rightarrow>
                  (let (r, w3) = write_serials os path serials w2
                   in (r, snd (os_Close os path w3)))))"

definition LocalDisk_ops :: "json_codec \<Rightarrow> 'w os_ops \<Rightarrow> LocalDiskBackend \<Rightarrow> 'w StorageBackend" where
  "LocalDisk_ops js os db = \<lparr>
     sb_MarkDirty = LD_MarkDirty os,
     sb_StoreCertificatePEM = (\<lambda>s e i pem w. (Some (Errorf ''Unimplemented''), w)),
     sb_StoreLogState = LD_StoreLogState js os db,
     sb_StoreKnownCertificateList = LD_StoreKnownCertificateList os db,
     sb_LoadCertificatePEM = (\<lambda>s e i w. ([], Some (Errorf ''Unimplemented''))),
     sb_LoadLogState = LD_LoadLogState js os db,
     sb_AllocateExpDateAndIssuer = LD_AllocateExpDateAndIssuer os db,
     sb_ListExpirationDates = LD_ListExpirationDates os db,
     sb_ListIssuersForExpirationDate = LD_ListIssuersForExpirationDate os db,
     sb_ListSerialsForExpirationDateAndIssuer = LD_ListSerialsForExpirationDateAndIssuer os db,
     sb_StreamSerialsForExpirationDateAndIssuer = LD_StreamSerialsForExpirationDateAndIssuer os db\<rparr>"

subsection \<open>What the aggregation programs rely on\<close>

locale known_lists =
  fixes sb :: "'b StorageBackend"
    and lists :: "'b \<Rightarrow> string \<Rightarrow> Serial list option"
    and named :: "string \<Rightarrow> bool"
  assumes store_known: "sb_StoreKnownCertificateList sb i ss b = (None, b') \<Longrightarrow> named (Issuer_ID i) \<Longrightarrow>
      lists b' (Issuer_ID i) = Some ss"
    and store_other: "sb_StoreKnownCertificateList sb i ss b = (None, b') \<Longrightarrow> named (Issuer_ID i) \<Longrightarrow>
      named k \<Longrightarrow> k \<noteq> Issuer_ID i \<Longrightarrow> lists b' k = lists b k"

subsection \<open>Lemmas: files of serial numbers\<close>

text \<open>
  The serial numbers of such a file: every line is an even number of hexadecimal digits and ends with
  a newline, otherwise there is no reading.
\<close>

definition read_known :: "bytes \<Rightarrow> Serial list option" where
  "read_known bs =
     (let parts = strings_Split (string_of_bytes bs) [CHR 0x0A]
      in if last parts = [] \<and> list_all (\<lambda>l. snd (hex_DecodeString l) = None) (butlast parts)
         then Some (map (\<lambda>l. Serial (fst (hex_DecodeString l))) (butlast parts))
         else None)"

lemma newline_not_hex: "CHR 0x0A \<notin> set (HexString s)"
  using set_hex_EncodeToString [of "serial s"] by (auto simp: HexString_def hextable_def)

lemma split_serial_lines:
  "strings_Split (string_of_bytes (concat (map serial_line ss))) [CHR 0x0A] = map HexString ss @ [[]]"
proof (induction ss)
  case Nil
  show ?case by (simp add: string_of_bytes_def strings_Split_last)
next
  case (Cons s ss)
  have "string_of_bytes (concat (map serial_line (s # ss))) =
      HexString s @ [CHR 0x0A] @ string_of_bytes (concat (map serial_line ss))"
    by (simp add: serial_line_def string_of_bytes_def bytes_of_string_def comp_def)
  then show ?case using Cons newline_not_hex strings_Split_part [of "[CHR 0x0A]" "HexString s"] by simp
qed

lemma read_known_lines: "read_known (concat (map serial_line ss)) = Some ss"
  by (simp add: read_known_def split_serial_lines HexString_def comp_def list_all_iff)

text \<open>The format of a line: two digits for each octet and a newline.\<close>

definition hex_line :: "Serial \<Rightarrow> bytes" where
  "hex_line s =
     bytes_of_string (concat (map (\<lambda>b. [''0123456789abcdef'' ! (unat b div 16), ''0123456789abcdef'' ! (unat b mod 16)]) (serial s)))
     @ [0x0A]"

lemma serial_line_hex: "serial_line s = hex_line s"
proof -
  have "byte_of_char (CHR 0x0A) = 0x0A" by code_simp
  then show ?thesis
    by (simp add: serial_line_def hex_line_def HexString_def hex_EncodeToString_def hex_byte_def [abs_def] hextable_def bytes_of_string_def)
qed

locale local_disk = disk os content
  for os :: "'w os_ops" and content :: "'w \<Rightarrow> string \<Rightarrow> bytes option" +
  fixes js :: json_codec and db :: LocalDiskBackend
begin

lemma makeDirectory_keeps: "makeDirectoryIfNotExist os p w = (e, w') \<Longrightarrow> content w' = content w"
  by (auto simp: makeDirectoryIfNotExist_def Let_def split: if_splits dest: mkdir_keeps)

lemma write_serials_content:
  "write_serials os p ss w = (None, w') \<Longrightarrow> content w p = Some old \<Longrightarrow>
   content w' = (content w)(p \<mapsto> old @ concat (map serial_line ss))"
proof (induction ss arbitrary: w old)
  case (Cons s ss)
  from Cons.prems(1) obtain w1 where w1: "os_Write os p (serial_line s) w = (None, w1)" "write_serials os p ss w1 = (None, w')"
    by (auto split: option.splits prod.splits)
  have "content w1 = (content w)(p \<mapsto> old @ serial_line s)" using write_content [OF w1(1) Cons.prems(2)] .
  then show ?case using Cons.IH [OF w1(2), of "old @ serial_line s"] by (simp add: fun_eq_iff)
qed (auto simp: fun_eq_iff)

lemma store_known_content:
  assumes "LD_StoreKnownCertificateList os db i ss w = (None, w')"
  shows "content w' = (content w)(known_path db (Issuer_ID i) \<mapsto> concat (map serial_line ss))"
proof -
  let ?p = "known_path db (Issuer_ID i)"
  obtain w1 w2 w3 where s: "makeDirectoryIfNotExist os ?p w = (None, w1)"
      "os_OpenFile os ?p O_TRUNC_CREATE_WRONLY w1 = (None, w2)" "write_serials os ?p ss w2 = (None, w3)"
      "w' = snd (os_Close os ?p w3)"
    using assms by (auto simp: LD_StoreKnownCertificateList_def Let_def split: prod.splits option.splits)
  have "content w2 = (content w)(?p \<mapsto> [])" using trunc_content [OF s(2)] makeDirectory_keeps [OF s(1)] by simp
  moreover from this have "content w3 = (content w2)(?p \<mapsto> [] @ concat (map serial_line ss))"
    using write_serials_content [OF s(3), of "[]"] by simp
  moreover have "content w' = content w3" using close_keeps s(4) by (metis prod.collapse)
  ultimately show ?thesis by simp
qed

lemma ld_store_content:
  assumes "ld_store os p bs w = (None, w')"
  shows "content w' = (content w)(p \<mapsto> bs)"
proof -
  obtain w1 w2 w3 where s: "makeDirectoryIfNotExist os p w = (None, w1)"
      "os_OpenFile os p O_TRUNC_CREATE_WRONLY w1 = (None, w2)" "os_Write os p bs w2 = (None, w3)"
      "os_Close os p w3 = (None, w')"
    using assms by (auto simp: ld_store_def split: prod.splits option.splits)
  have "content w2 = (content w)(p \<mapsto> [])" using trunc_content [OF s(2)] makeDirectory_keeps [OF s(1)] by simp
  moreover from this have "content w3 = (content w2)(p \<mapsto> [] @ bs)" using write_content [OF s(3), of "[]"] by simp
  ultimately show ?thesis using close_keeps [OF s(4)] by simp
qed

lemma ld_load_content:
  "content w p = Some bs \<Longrightarrow> fst (os_Close os p w) = None \<Longrightarrow> ld_load os p w = (bs, None)"
  using open_exists [of p w] by (simp add: ld_load_def read_content)

lemma log_state_kept:
  assumes "js_Marshal js log = Inr bs" and "js_Unmarshal js bs = Inr log"
    and "LD_StoreLogState js os db log w = (None, w')"
    and "fst (os_Close os (log_path db (CertificateLog_ID log)) w') = None"
  shows "LD_LoadLogState js os db (ShortURL log) w' = (Some log, None)"
proof -
  have "content w' (log_path db (CertificateLog_ID log)) = Some bs"
    using assms(1,3) ld_store_content by (simp add: LD_StoreLogState_def)
  from ld_load_content [OF this assms(4)] show ?thesis
    by (simp add: LD_LoadLogState_def CertificateLog_ID_def assms(2))
qed

end

sublocale local_disk \<subseteq> kl: known_lists "LocalDisk_ops js os db"
  "\<lambda>w k. Option.bind (content w (known_path db k)) read_known" file_name
  by unfold_locales
    (auto simp: LocalDisk_ops_def read_known_lines known_path_def filepath_Join_inject dest!: store_known_content)

interpretation sim_ld: local_disk sim_os sim_content sample_codec "NewLocalDiskBackend ''r''"
  by unfold_locales

text \<open>On the simulated disk storing a list works until the context is cancelled.\<close>

lemma write_serials_sim:
  "sim_files w p \<noteq> None \<Longrightarrow> \<not> sim_cancelled w \<Longrightarrow> \<exists>w'. write_serials sim_os p ss w = (None, w') \<and> \<not> sim_cancelled w'"
proof (induction ss arbitrary: w)
  case (Cons sn ss)
  obtain bs t where f: "sim_files w p = Some (bs, t)" using Cons.prems(1) by auto
  show ?case using Cons.IH Cons.prems(2) f by (simp add: sim_Write_def)
qed simp

lemma store_known_sim:
  assumes "\<not> sim_cancelled w"
  shows "\<exists>w'. LD_StoreKnownCertificateList sim_os db i ss w = (None, w') \<and> \<not> sim_cancelled w'"
proof -
  let ?p = "known_path db (Issuer_ID i)"
  let ?w = "w\<lparr>sim_files := (sim_files w)(?p \<mapsto> ([], sim_now w))\<rparr>"
  obtain w' where "write_serials sim_os ?p ss ?w = (None, w')" "\<not> sim_cancelled w'"
    using write_serials_sim [of ?w ?p ss] assms by auto
  then show ?thesis
    by (simp add: LD_StoreKnownCertificateList_def makeDirectoryIfNotExist_def isDirectory_def sim_OpenFile_def)
qed

text \<open>The identifier of an issuer's key is a file name.\<close>

lemma file_name_b64: "bs \<noteq> [] \<Longrightarrow> file_name (b64_EncodeToString bs)"
proof -
  assume "bs \<noteq> []"
  then have "4 \<le> length (b64_EncodeToString bs)"
    unfolding length_b64_EncodeToString by (cases bs) simp_all
  then show ?thesis using set_b64_EncodeToString [of bs] by (auto simp: file_name_def b64_alphabet_def)
qed

lemma file_name_NewIssuer: "file_name (Issuer_ID (NewIssuer c))"
  using length_sha256_Sum256 by (simp add: Sha256DigestURLEncodedBase64_def file_name_b64 flip: length_greater_0_conv)

subsection \<open>Properties\<close>

text \<open>
  C28. When \<^verbatim>\<open>StoreKnownCertificateList\<close> of the local disk backend returns no error, the file named after the
  issuer holds exactly one line per serial number, in order, whatever it held before: two lower case
  hexadecimal digits for each octet and a newline. No other file has changed, and from these bytes the serial
  numbers can be read back with every octet. When the identifier of the issuer is a file name, the
  list of every other issuer whose identifier is a file name is as before.
\<close>

theorem known_list_on_disk:
  assumes "disk os content"
    and "LD_StoreKnownCertificateList os db issuer serials w = (None, w')"
  shows "\<exists>bs. content w' = (content w)(known_path db (Issuer_ID issuer) \<mapsto> bs) \<and>
    bs = concat (map hex_line serials) \<and>
    read_known bs = Some serials \<and>
    (file_name (Issuer_ID issuer) \<longrightarrow> (\<forall>k. file_name k \<longrightarrow> k \<noteq> Issuer_ID issuer \<longrightarrow>
       content w' (known_path db k) = content w (known_path db k)))"
  using local_disk.store_known_content [OF local_disk.intro [OF assms(1)] assms(2)] read_known_lines [of serials]
  by (auto simp: known_path_def filepath_Join_inject serial_line_hex [abs_def])

definition empty_sim :: sim where
  "empty_sim = \<lparr>sim_files = Map.empty, sim_replies = [], sim_now = 9, sim_cancelled = False, sim_dns = [],
     sim_tree = (\<lambda>p. FsBad p not_exist)\<rparr>"

theorem known_list_on_disk_witness:
  "\<exists>w' bs. LD_StoreKnownCertificateList sim_os (NewLocalDiskBackend ''r'') (NewIssuerFromString ''ca'')
      [Serial [0, 0xA5], Serial [1]] empty_sim = (None, w') \<and>
    sim_content w' (known_path (NewLocalDiskBackend ''r'') ''ca'') = Some bs \<and> bs = bytes_of_string ''00a5'' @ 10 # bytes_of_string ''01'' @ [10] \<and>
    read_known bs = Some [Serial [0, 0xA5], Serial [1]]"
proof -
  obtain w' where w: "LD_StoreKnownCertificateList sim_os (NewLocalDiskBackend ''r'') (NewIssuerFromString ''ca'')
      [Serial [0, 0xA5], Serial [1]] empty_sim = (None, w')"
    by (simp add: LD_StoreKnownCertificateList_def Let_def makeDirectoryIfNotExist_def isDirectory_def sim_defs
        empty_sim_def)
  have "concat (map hex_line [Serial [0, 0xA5], Serial [1]]) = bytes_of_string ''00a5'' @ 10 # bytes_of_string ''01'' @ [10]"
    by code_simp
  with known_list_on_disk [OF sim.disk_axioms w] w show ?thesis by (intro exI [of _ w']) auto
qed

text \<open>
  C30. Loading a log state from the local disk: a fresh state that starts at entry 0, not an error, when there
  is no file for the URL or when closing the file after reading reports an error; the error of the
  JSON package when the content cannot be decoded; otherwise the decoded state. So a state that was
  stored without an error is what is loaded for the same URL, if the package decodes what it encoded
  and closing the file succeeds.
\<close>

theorem disk_log_state_round_trip:
  assumes "disk os content"
  shows "LD_LoadLogState js os db u w =
      (case content w (log_path db (CertificateLogIDFromShortURL u)) of
         None \<Rightarrow> (Some (new_log u), None)
       | Some bs \<Rightarrow>
           if fst (os_Close os (log_path db (CertificateLogIDFromShortURL u)) w) \<noteq> None then (Some (new_log u), None)
           else (case js_Unmarshal js bs of Inl err \<Rightarrow> (None, Some err) | Inr log \<Rightarrow> (Some log, None))) \<and>
    (LD_StoreLogState js os db log w = (None, w') \<longrightarrow> js_Marshal js log = Inr data \<longrightarrow> js_Unmarshal js data = Inr log \<longrightarrow>
      fst (os_Close os (log_path db (CertificateLog_ID log)) w') = None \<longrightarrow>
      LD_LoadLogState js os db (ShortURL log) w' = (Some log, None))"
proof (intro conjI impI)
  show "LD_LoadLogState js os db u w =
      (case content w (log_path db (CertificateLogIDFromShortURL u)) of
         None \<Rightarrow> (Some (new_log u), None)
       | Some bs \<Rightarrow>
           if fst (os_Close os (log_path db (CertificateLogIDFromShortURL u)) w) \<noteq> None then (Some (new_log u), None)
           else (case js_Unmarshal js bs of Inl err \<Rightarrow> (None, Some err) | Inr log \<Rightarrow> (Some log, None)))"
    using disk.open_exists [OF assms, of "log_path db (CertificateLogIDFromShortURL u)" w]
    by (auto simp: LD_LoadLogState_def ld_load_def disk.read_content [OF assms] split: option.splits sum.splits)
qed (rule local_disk.log_state_kept [OF local_disk.intro [OF assms]])

theorem disk_log_state_round_trip_witness:
  "\<exists>w'. LD_StoreLogState sample_codec sim_os (NewLocalDiskBackend ''r'') (new_log ''u'') empty_sim = (None, w') \<and>
     LD_LoadLogState sample_codec sim_os (NewLocalDiskBackend ''r'') ''u'' w' = (Some (new_log ''u''), None)"
proof -
  obtain w' where w: "LD_StoreLogState sample_codec sim_os (NewLocalDiskBackend ''r'') (new_log ''u'') empty_sim = (None, w')"
    by (simp add: LD_StoreLogState_def sample_codec_def new_log_def ld_store_def makeDirectoryIfNotExist_def Let_def
        isDirectory_def sim_defs empty_sim_def)
  have m: "js_Marshal sample_codec (new_log ''u'') = Inr (bytes_of_string ''u'')"
    "js_Unmarshal sample_codec (bytes_of_string ''u'') = Inr (new_log ''u'')"
    by (simp_all add: sample_codec_def new_log_def)
  show ?thesis
    using conjunct2 [OF disk_log_state_round_trip [OF sim.disk_axioms], rule_format, OF w m] w by (simp add: new_log_def)
qed

end
