(* ===== verification/Aggregate_Crls.thy ===== *)
theory Aggregate_Crls
  imports "HOL-Library.Multiset" Crl_Auditor Crl_Decode Filesystem_Database Local_Disk
begin

text \<open>
  \<^verbatim>\<open>cmd/aggregate-crls/aggregate-crls.go\<close>: find the CRLs of every issuer of the root program, download and
  verify them, collect the revoked serial numbers and decide which issuers are enrolled.

  The engine's state is a record: the issuers, the auditor and the world, on which both the operations
  of \<open>Go_Os\<close> and the storage backend \<open>sb\<close> act. The parser of CRLs and the check of their signature,
  which are not in the repository, are the argument \<open>lib\<close>. Progress bars and log lines are left out;
  a nil certificate, which only tests make, panics where the code first uses it.

  A stage hands its work to a pool of goroutines through a channel. What they share is guarded by
  mutexes, so the model lets one worker at a time handle one unit of work; which worker gets which
  unit and in which order is an argument of the stage, and the theorems hold for all of them.
  Cancellation is seen where the code looks for it.
\<close>

subsection \<open>File names\<close>

definition url_Hostname :: "url \<Rightarrow> string" where
  "url_Hostname u =
     (let h = url_Host u; port = rev (takeWhile (\<lambda>c. c \<noteq> CHR '':'') (rev h));
          host = (if CHR '':'' \<in> set h \<and> list_all is_digit port then take (length h - length port - 1) h else h)
      in if host \<noteq> [] \<and> hd host = CHR ''['' \<and> last host = CHR '']'' then butlast (tl host) else host)"

text \<open>
  \<^verbatim>\<open>strings.ToLower\<close>: ASCII letters, and the two letters beyond ASCII whose lower case is ASCII (the Kelvin sign
  and the dotted capital I). The case of other letters does not matter, the pattern removes them.
\<close>

definition ascii_lower :: "char \<Rightarrow> char" where
  "ascii_lower c = (if CHR ''A'' \<le> c \<and> c \<le> CHR ''Z'' then char_of (of_char c + 32 :: nat) else c)"

fun strings_ToLower :: "string \<Rightarrow> string" where
  "strings_ToLower [] = []"
| "strings_ToLower (c # s) =
     (if prefix [CHR 0xE2, CHR 0x84, CHR 0xAA] (c # s) then CHR ''k'' # strings_ToLower (drop 2 s)
      else if prefix [CHR 0xC4, CHR 0xB0] (c # s) then CHR ''i'' # strings_ToLower (drop 1 s)
      else ascii_lower c # strings_ToLower s)"

text \<open>What \<^verbatim>\<open>illegalPath\<close> leaves.\<close>

definition legal_char :: "char \<Rightarrow> bool" where
  "legal_char c \<longleftrightarrow> (CHR ''0'' \<le> c \<and> c \<le> CHR ''9'') \<or> (CHR ''A'' \<le> c \<and> c \<le> CHR ''Z'') \<or>
     (CHR ''a'' \<le> c \<and> c \<le> CHR ''z'') \<or> c = CHR ''~'' \<or> c = CHR ''-'' \<or> c = CHR ''.'' \<or> c = CHR ''/''"

definition makeFilenameFromUrl :: "url \<Rightarrow> string" where
  "makeFilenameFromUrl crlUrl =
     (let filename = filter legal_char (strings_ToLower (url_Hostname crlUrl @ ''-'' @ path_Base (url_Path crlUrl)));
          hash = sha256_Sum256 (bytes_of_string (url_String crlUrl))
      in strings_TrimSuffix filename ''.crl'' @ ''-'' @ hex_EncodeToString (take 8 hash) @ ''.crl'')"

subsection \<open>Finding CRLs\<close>

text \<open>One worker, with the issuers it receives and whether the context is done when it looks.\<close>

fun findCrlWorker ::
  "'c RemoteCache \<Rightarrow> time \<Rightarrow> (Issuer \<times> bool) list \<Rightarrow> IssuerCrlMap \<Rightarrow> ('b, 'c, 'g) FilesystemDatabase
    \<Rightarrow> (IssuerCrlMap option \<times> ('b, 'c, 'g) FilesystemDatabase) run" where
  "findCrlWorker rc now [] issuerCrls db = Done (Some issuerCrls, db)"
| "findCrlWorker rc now ((issuer, done) # issuerChan) issuerCrls db =
     (if done then Done (None, db)
      else
        (let (meta, db1) = GetIssuerMetadata issuer db;
             crls = (case map_of issuerCrls (Issuer_ID issuer) of None \<Rightarrow> [] | Some m \<Rightarrow> m)
         in run_bind (CRLs rc meta now (extCache db1)) (\<lambda>(crlSet, c1).
              findCrlWorker rc now issuerChan
                (AList.update (Issuer_ID issuer) (fold (\<lambda>url m. AList.update url True m) crlSet crls) issuerCrls)
                (db1\<lparr>extCache := c1\<rparr>))))"

text \<open>The workers of the stage and the merging of their results.\<close>

fun findCrlWorkers ::
  "'c RemoteCache \<Rightarrow> time \<Rightarrow> (Issuer \<Rightarrow> bool) \<Rightarrow> Issuer list list \<Rightarrow> IssuerCrlMap \<Rightarrow> ('b, 'c, 'g) FilesystemDatabase
    \<Rightarrow> (IssuerCrlMap \<times> ('b, 'c, 'g) FilesystemDatabase) run" where
  "findCrlWorkers rc now seen [] mergedCrls db = Done (mergedCrls, db)"
| "findCrlWorkers rc now seen (issuers # parts) mergedCrls db =
     run_bind (findCrlWorker rc now (map (\<lambda>i. (i, seen i)) issuers) [] db) (\<lambda>(mapPart, db1).
       findCrlWorkers rc now seen parts
         (case mapPart of None \<Rightarrow> mergedCrls | Some m \<Rightarrow> IssuerCrlMap_Merge mergedCrls m) db1)"

text \<open>
  \<open>deal\<close> says which worker gets which issuers, and \<open>seen\<close> at which issuer a worker sees that the context is
  done: it then sends no result. \<open>done\<close> is the choice of the select at the end: nil when it takes the
  end of the context, otherwise the merge of the results there are, which may be partial.
\<close>

definition identifyCrlsByIssuer ::
  "'c RemoteCache \<Rightarrow> time \<Rightarrow> bool \<Rightarrow> (Issuer \<Rightarrow> bool) \<Rightarrow> (Issuer list \<Rightarrow> Issuer list list) \<Rightarrow> MozIssuers \<Rightarrow> ('b, 'c, 'g) FilesystemDatabase
    \<Rightarrow> (IssuerCrlMap option \<times> ('b, 'c, 'g) FilesystemDatabase) run" where
  "identifyCrlsByIssuer rc now done seen deal mi db =
     run_bind (GetIssuerAndDatesFromCache rc now db) (\<lambda>(r, db1).
       case r of
         Inl err \<Rightarrow> Fatal (err_text err)
       | Inr issuerList \<Rightarrow>
           (let issuers = filter (IsIssuerInProgram mi) (map idt_Issuer issuerList)
            in if done then Done (None, db1)
               else run_bind (findCrlWorkers rc now seen (deal issuers) [] db1) (\<lambda>(m, db2). Done (Some m, db2))))"

subsection \<open>Downloading CRLs\<close>

record CertificateList =
  TBSCertList_Raw :: bytes
  ThisUpdate :: time
  NextUpdate :: time

record crl_lib =
  x509_ParseCRL :: "bytes \<Rightarrow> go_error + CertificateList"
  CheckCRLSignature :: "Certificate \<Rightarrow> CertificateList \<Rightarrow> go_error option"
  HasExpired :: "CertificateList \<Rightarrow> time \<Rightarrow> bool"
  crl_time :: asn1_time

record 'w AggregateEngine =
  ae_issuers :: MozIssuers
  ae_auditor :: CrlAuditor
  ae_world :: 'w

definition allowableAgeOfLocalCRL :: duration where
  "allowableAgeOfLocalCRL = 336 * Hour"

definition loadAndCheckSignatureOfCRL ::
  "crl_lib \<Rightarrow> 'w os_ops \<Rightarrow> string \<Rightarrow> Certificate \<Rightarrow> 'w \<Rightarrow> go_error + (CertificateList \<times> bytes)" where
  "loadAndCheckSignatureOfCRL lib os aPath aIssuerCert w =
     (case os_ReadFile os aPath w of
        Inl err \<Rightarrow> Inl (Errorf (''Error reading CRL, will not process revocations: '' @ err_text err))
      | Inr crlBytes \<Rightarrow>
          (case x509_ParseCRL lib crlBytes of
             Inl err \<Rightarrow> Inl (Errorf (''Error parsing, will not process revocations: '' @ err_text err))
           | Inr crl \<Rightarrow>
               (case CheckCRLSignature lib aIssuerCert crl of
                  Some err \<Rightarrow> Inl (Errorf (''Invalid signature on CRL, will not process revocations: '' @ err_text err))
                | None \<Rightarrow> Inr (crl, sha256_Sum256 crlBytes))))"

definition CrlVerifier_IsValid :: "crl_lib \<Rightarrow> 'w os_ops \<Rightarrow> Certificate \<Rightarrow> string \<Rightarrow> 'w \<Rightarrow> go_error option" where
  "CrlVerifier_IsValid lib os expectedIssuerCert path w =
     (case loadAndCheckSignatureOfCRL lib os path expectedIssuerCert w of Inl err \<Rightarrow> Some err | Inr _ \<Rightarrow> None)"

text \<open>\<^verbatim>\<open>GetCertificateForIssuer\<close> as the workers use it: an unknown issuer ends the process.\<close>

definition issuer_cert :: "MozIssuers \<Rightarrow> Issuer \<Rightarrow> Certificate run" where
  "issuer_cert mi issuer =
     run_bind (GetCertificateForIssuer mi issuer) (\<lambda>r. case r of
         Inl err \<Rightarrow> Fatal (''['' @ Issuer_ID issuer @ ''] Could not find certificate for issuer: '' @ err_text err)
       | Inr None \<Rightarrow> Panic ''nil pointer dereference''
       | Inr (Some cert) \<Rightarrow> Done cert)"

definition crl_path :: "string \<Rightarrow> Issuer \<Rightarrow> url \<Rightarrow> string" where
  "crl_path crlpath issuer crlUrl = filepath_Join [crlpath, Issuer_ID issuer, makeFilenameFromUrl crlUrl]"

definition crlFetchWorkerProcessOne ::
  "crl_lib \<Rightarrow> 'w os_ops \<Rightarrow> string \<Rightarrow> url \<Rightarrow> Issuer \<Rightarrow> 'w AggregateEngine \<Rightarrow> (string res \<times> 'w AggregateEngine) run" where
  "crlFetchWorkerProcessOne lib os crlpath crlUrl issuer ae =
     (case os_MkdirAll os (filepath_Join [crlpath, Issuer_ID issuer]) (ae_world ae) of
        (Some err, w1) \<Rightarrow> Done (([], Some err), ae\<lparr>ae_world := w1\<rparr>)
      | (None, w1) \<Rightarrow>
          run_bind (issuer_cert (ae_issuers ae) issuer) (\<lambda>cert.
            let finalPath = crl_path crlpath issuer crlUrl in
            case DownloadAndVerifyFileSync os (CrlVerifier_IsValid lib os cert) (Issuer_ID issuer)
                   (url_String crlUrl) finalPath 3 w1 of
              ((fileOnDiskIsAcceptable, dlErr), calls, w2) \<Rightarrow>
                run_bind (audit_calls (ae_issuers ae) (os_Now os w2) (IssuerIdent issuer) calls (ae_auditor ae)) (\<lambda>a1.
                  if \<not> fileOnDiskIsAcceptable then Done (([], dlErr), ae\<lparr>ae_auditor := a1, ae_world := w2\<rparr>)
                  else
                    (case GetSizeAndDateOfFile os finalPath w2 of
                       Inl err \<Rightarrow> Done (([], Some err), ae\<lparr>ae_auditor := a1, ae_world := w2\<rparr>)
                     | Inr (localSize, localDate) \<Rightarrow>
                         (let age = time_Sub (os_Now os w2) localDate
                          in run_bind
                               (if age > allowableAgeOfLocalCRL
                                then Audit_Old (ae_issuers ae) (os_Now os w2) (IssuerIdent issuer) (url_String crlUrl) age a1
                                else Done a1)
                               (\<lambda>a2. Done ((finalPath, None), ae\<lparr>ae_auditor := a2, ae_world := w2\<rparr>)))))))"

text \<open>The URLs of one issuer; \<open>None\<close> when the context was done and the worker left.\<close>

fun fetch_urls ::
  "crl_lib \<Rightarrow> 'w os_ops \<Rightarrow> string \<Rightarrow> Issuer \<Rightarrow> url list \<Rightarrow> UrlPath list \<Rightarrow> 'w AggregateEngine
    \<Rightarrow> (UrlPath list option \<times> 'w AggregateEngine) run" where
  "fetch_urls lib os crlpath issuer [] urlPaths ae = Done (Some urlPaths, ae)"
| "fetch_urls lib os crlpath issuer (crlUrl # urls) urlPaths ae =
     (if ctx_Err os (ae_world ae) \<noteq> None then Done (None, ae)
      else
        run_bind (crlFetchWorkerProcessOne lib os crlpath crlUrl issuer ae) (\<lambda>((path, err), ae1).
          fetch_urls lib os crlpath issuer urls (urlPaths @ [\<lparr>up_Url = crlUrl, up_Path = path\<rparr>]) ae1))"

fun crlFetchWorker ::
  "crl_lib \<Rightarrow> 'w os_ops \<Rightarrow> string \<Rightarrow> IssuerCrlUrls list \<Rightarrow> IssuerCrlUrlPaths list \<Rightarrow> 'w AggregateEngine
    \<Rightarrow> (IssuerCrlUrlPaths list \<times> 'w AggregateEngine) run" where
  "crlFetchWorker lib os crlpath [] results ae = Done (results, ae)"
| "crlFetchWorker lib os crlpath (tuple # crlsChan) results ae =
     run_bind (fetch_urls lib os crlpath (icu_Issuer tuple) (Urls tuple) [] ae) (\<lambda>(r, ae1).
       case r of
         None \<Rightarrow> Done (results, ae1)
       | Some urlPaths \<Rightarrow>
           run_bind (GetSubjectForIssuer (ae_issuers ae1) (icu_Issuer tuple)) (\<lambda>s.
             let subj = (case s of Inl err \<Rightarrow> [] | Inr subj \<Rightarrow> subj) in
             crlFetchWorker lib os crlpath crlsChan
               (results @ [\<lparr>icp_Issuer = icu_Issuer tuple, IssuerDN = subj, CrlUrlPaths = urlPaths\<rparr>]) ae1))"

text \<open>The work of the stage: URLs that do not parse are dropped, and issuers left without any.\<close>

definition crl_urls :: "url_Parse \<Rightarrow> crl_set \<Rightarrow> url list" where
  "crl_urls up crlMap =
     List.map_filter (\<lambda>(iUrl, _). case up (strings_TrimSpace iUrl) of Inl err \<Rightarrow> None | Inr urlObj \<Rightarrow> Some urlObj) crlMap"

definition crl_work :: "url_Parse \<Rightarrow> IssuerCrlMap \<Rightarrow> IssuerCrlUrls list" where
  "crl_work up issuerToUrls =
     List.map_filter (\<lambda>(issuer, crlMap).
         let urls = crl_urls up crlMap
         in if urls = [] then None else Some \<lparr>icu_Issuer = NewIssuerFromString issuer, Urls = urls\<rparr>) issuerToUrls"

definition downloadCRLs ::
  "url_Parse \<Rightarrow> crl_lib \<Rightarrow> 'w os_ops \<Rightarrow> string \<Rightarrow> (IssuerCrlUrls list \<Rightarrow> IssuerCrlUrls list) \<Rightarrow> IssuerCrlMap
    \<Rightarrow> 'w AggregateEngine \<Rightarrow> (IssuerCrlUrlPaths list \<times> 'w AggregateEngine) run" where
  "downloadCRLs up lib os crlpath order issuerToUrls ae =
     crlFetchWorker lib os crlpath (order (crl_work up issuerToUrls)) [] ae"

subsection \<open>Verifying against the previous CRL\<close>

text \<open>\<^verbatim>\<open>verifyCRL\<close>, which only the tests call. A nil CRL is \<open>None\<close>.\<close>

definition verifyCRL ::
  "crl_lib \<Rightarrow> 'w os_ops \<Rightarrow> Issuer \<Rightarrow> DownloadTracer \<Rightarrow> url \<Rightarrow> string \<Rightarrow> Certificate \<Rightarrow> string \<Rightarrow> 'w AggregateEngine
    \<Rightarrow> (CertificateList option res \<times> 'w AggregateEngine) run" where
  "verifyCRL lib os aIssuer dlTracer crlUrl aPath aIssuerCert aPreviousPath ae =
     (let w = ae_world ae; mi = ae_issuers ae; now = os_Now os w; ident = IssuerIdent aIssuer; u = url_String crlUrl;
          audit = (\<lambda>r res. run_bind r (\<lambda>a. Done (res, ae\<lparr>ae_auditor := a\<rparr>)));
          finish = (\<lambda>crl. if HasExpired lib crl now
            then audit (Audit_Expired mi now ident u (NextUpdate crl) (ae_auditor ae)) (Some crl, None)
            else Done ((Some crl, None), ae))
      in case loadAndCheckSignatureOfCRL lib os aPath aIssuerCert w of
           Inl err \<Rightarrow> audit (Audit_FailedVerifyUrl mi now ident u dlTracer err (ae_auditor ae)) (None, Some err)
         | Inr (crl, _) \<Rightarrow>
             (case os_Stat os aPreviousPath w of
                Inl _ \<Rightarrow> finish crl
              | Inr _ \<Rightarrow>
                  (case loadAndCheckSignatureOfCRL lib os aPreviousPath aIssuerCert w of
                     Inl err \<Rightarrow> audit (Audit_FailedVerifyPath mi now ident u aPreviousPath err (ae_auditor ae)) (None, Some err)
                   | Inr (previousCrl, _) \<Rightarrow>
                       (if ThisUpdate crl < ThisUpdate previousCrl
                        then audit (FailedOlderThanPrevious mi now ident u dlTracer (ThisUpdate previousCrl) (ThisUpdate crl) (ae_auditor ae))
                          (Some previousCrl, Some (Errorf (''['' @ aPath @ ''] CRL is older than the previous CRL (previous=''
                             @ time_String (ThisUpdate previousCrl) @ '', this='' @ time_String (ThisUpdate crl) @ '')'')))
                        else finish crl))))"

subsection \<open>Collecting revocations\<close>

text \<open>
  One CRL of an issuer. The result says whether the issuer can still be enrolled and which serial
  numbers the CRL adds.
\<close>

definition aggregate_crl ::
  "crl_lib \<Rightarrow> 'w os_ops \<Rightarrow> Issuer \<Rightarrow> Certificate \<Rightarrow> UrlPath \<Rightarrow> 'w AggregateEngine
    \<Rightarrow> ((bool \<times> Serial list) \<times> 'w AggregateEngine) run" where
  "aggregate_crl lib os issuer cert crlUrlPath ae =
     (let w = ae_world ae; mi = ae_issuers ae; now = os_Now os w; ident = IssuerIdent issuer;
          u = url_String (up_Url crlUrlPath); path = up_Path crlUrlPath;
          audit = (\<lambda>r res. run_bind r (\<lambda>a. Done (res, ae\<lparr>ae_auditor := a\<rparr>)))
      in if path = [] then Done ((False, []), ae)
         else
           (case loadAndCheckSignatureOfCRL lib os path cert w of
              Inl err \<Rightarrow> audit (Audit_FailedVerifyPath mi now ident u path err (ae_auditor ae)) (False, [])
            | Inr (crl, sha256sum) \<Rightarrow>
                (case processCRL (crl_time lib) (TBSCertList_Raw crl) of
                   Inl err \<Rightarrow> audit (FailedProcessLocal mi now ident u path err (ae_auditor ae)) (False, [])
                 | Inr revokedSerials \<Rightarrow>
                     (if revokedSerials = []
                      then audit (NoRevocations mi now ident u path (ae_auditor ae)) (True, [])
                      else audit (ValidAndProcessed mi now ident u path (int (length revokedSerials))
                             (time_Sub now (ThisUpdate crl)) sha256sum (ae_auditor ae)) (True, revokedSerials)))))"

text \<open>The CRLs of one issuer; \<open>None\<close> when the context was done and the worker left.\<close>

fun aggregate_paths ::
  "crl_lib \<Rightarrow> 'w os_ops \<Rightarrow> Issuer \<Rightarrow> Certificate \<Rightarrow> UrlPath list \<Rightarrow> bool \<Rightarrow> Serial list \<Rightarrow> 'w AggregateEngine
    \<Rightarrow> ((bool \<times> Serial list) option \<times> 'w AggregateEngine) run" where
  "aggregate_paths lib os issuer cert [] anyCrlFailed serials ae = Done (Some (anyCrlFailed, serials), ae)"
| "aggregate_paths lib os issuer cert (p # ps) anyCrlFailed serials ae =
     (if ctx_Err os (ae_world ae) \<noteq> None then Done (None, ae)
      else
        run_bind (aggregate_crl lib os issuer cert p ae) (\<lambda>((ok, revoked), ae1).
          aggregate_paths lib os issuer cert ps (anyCrlFailed \<or> \<not> ok) (serials @ revoked) ae1))"

text \<open>
  One issuer. The code counts the serial numbers as it appends them; the count is the length of the
  list. The result says whether the worker goes on.
\<close>

definition aggregate_issuer ::
  "crl_lib \<Rightarrow> 'w os_ops \<Rightarrow> 'w StorageBackend \<Rightarrow> IssuerCrlUrlPaths \<Rightarrow> 'w AggregateEngine \<Rightarrow> (bool \<times> 'w AggregateEngine) run" where
  "aggregate_issuer lib os sb tuple ae =
     run_bind (issuer_cert (ae_issuers ae) (icp_Issuer tuple)) (\<lambda>cert.
       run_bind (aggregate_paths lib os (icp_Issuer tuple) cert (CrlUrlPaths tuple) False [] ae) (\<lambda>(r, ae1).
         case r of
           None \<Rightarrow> Done (False, ae1)
         | Some (anyCrlFailed, serials) \<Rightarrow>
             (if \<not> anyCrlFailed \<and> length serials > 0
              then
                (case sb_StoreKnownCertificateList sb (icp_Issuer tuple) serials (ae_world ae1) of
                   (Some err, _) \<Rightarrow> Fatal (''['' @ Issuer_ID (icp_Issuer tuple) @ ''] Could not save revoked certificates file: '' @ err_text err)
                 | (None, w2) \<Rightarrow>
                     Done (True, ae1\<lparr>ae_issuers := Enroll (icp_Issuer tuple) (ae_issuers ae1), ae_world := w2\<rparr>))
              else Done (True, ae1))))"

fun aggregateCRLWorker ::
  "crl_lib \<Rightarrow> 'w os_ops \<Rightarrow> 'w StorageBackend \<Rightarrow> IssuerCrlUrlPaths list \<Rightarrow> 'w AggregateEngine \<Rightarrow> 'w AggregateEngine run" where
  "aggregateCRLWorker lib os sb [] ae = Done ae"
| "aggregateCRLWorker lib os sb (tuple # workChan) ae =
     run_bind (aggregate_issuer lib os sb tuple ae) (\<lambda>(go, ae1).
       if go then aggregateCRLWorker lib os sb workChan ae1 else Done ae1)"

definition aggregateCRLs ::
  "crl_lib \<Rightarrow> 'w os_ops \<Rightarrow> 'w StorageBackend \<Rightarrow> (IssuerCrlUrlPaths list \<Rightarrow> IssuerCrlUrlPaths list) \<Rightarrow> IssuerCrlUrlPaths list
    \<Rightarrow> 'w AggregateEngine \<Rightarrow> 'w AggregateEngine run" where
  "aggregateCRLs lib os sb order crlPaths ae = aggregateCRLWorker lib os sb (order crlPaths) ae"

subsection \<open>The program\<close>

text \<open>
  The body of \<^verbatim>\<open>main\<close> from the stages on. The program ends without writing anything when the context is done
  after the first or the second stage; failures of the audit report are only logged.
\<close>

definition write_audit :: "(CrlAuditEntry list \<Rightarrow> go_error + bytes) \<Rightarrow> 'w os_ops \<Rightarrow> string \<Rightarrow> 'w AggregateEngine \<Rightarrow> 'w AggregateEngine" where
  "write_audit enc os auditpath ae =
     (case os_OpenFile os auditpath O_TRUNC_CREATE_WRONLY (ae_world ae) of
        (Some err, w1) \<Rightarrow> ae\<lparr>ae_world := w1\<rparr>
      | (None, w1) \<Rightarrow>
          ae\<lparr>ae_world := snd (os_Close os auditpath (snd (WriteReport enc (os_Write os auditpath) (ae_auditor ae) w1)))\<rparr>)"

definition aggregate_crls_main ::
  "'c RemoteCache \<Rightarrow> time \<Rightarrow> bool \<Rightarrow> (Issuer \<Rightarrow> bool) \<Rightarrow> (Issuer list \<Rightarrow> Issuer list list) \<Rightarrow> url_Parse \<Rightarrow> crl_lib \<Rightarrow> 'w os_ops \<Rightarrow> 'w StorageBackend
    \<Rightarrow> string \<Rightarrow> string \<Rightarrow> string \<Rightarrow> (IssuerCrlUrls list \<Rightarrow> IssuerCrlUrls list)
    \<Rightarrow> (IssuerCrlUrlPaths list \<Rightarrow> IssuerCrlUrlPaths list) \<Rightarrow> (EnrolledIssuer list \<Rightarrow> go_error + bytes)
    \<Rightarrow> (CrlAuditEntry list \<Rightarrow> go_error + bytes) \<Rightarrow> ('b, 'c, 'g) FilesystemDatabase \<Rightarrow> 'w AggregateEngine
    \<Rightarrow> 'w AggregateEngine run" where
  "aggregate_crls_main rc now done seen deal up lib os sb crlpath enrolledpath auditpath order1 order2 enc1 enc2 db ae =
     run_bind (identifyCrlsByIssuer rc now done seen deal (ae_issuers ae) db) (\<lambda>(mergedCrls, _).
       case mergedCrls of
         None \<Rightarrow> Done ae
       | Some crls \<Rightarrow>
           run_bind (downloadCRLs up lib os crlpath order1 crls ae) (\<lambda>(crlPaths, ae1).
             if ctx_Err os (ae_world ae1) \<noteq> None then Done ae1
             else
               run_bind (aggregateCRLs lib os sb order2 crlPaths ae1) (\<lambda>ae2.
                 run_bind (SaveIssuersList enc1 os enrolledpath (ae_issuers ae2) (ae_world ae2)) (\<lambda>(err, w3).
                   case err of
                     Some e \<Rightarrow> Fatal (''Unable to save the crlite-informed intermediate issuers to '' @ enrolledpath @ '': '' @ err_text e)
                   | None \<Rightarrow> Done (write_audit enc2 os auditpath (ae2\<lparr>ae_world := w3\<rparr>))))))"

subsection \<open>Lemmas: one issuer\<close>

text \<open>The serial numbers a CRL file adds, or nothing when it is missing, unsigned or cannot be decoded.\<close>

definition crl_serials :: "crl_lib \<Rightarrow> 'w os_ops \<Rightarrow> Certificate \<Rightarrow> 'w \<Rightarrow> UrlPath \<Rightarrow> Serial list option" where
  "crl_serials lib os cert w p =
     (if up_Path p = [] then None
      else
        (case loadAndCheckSignatureOfCRL lib os (up_Path p) cert w of
           Inl _ \<Rightarrow> None
         | Inr (crl, _) \<Rightarrow>
             (case processCRL (crl_time lib) (TBSCertList_Raw crl) of Inl _ \<Rightarrow> None | Inr sns \<Rightarrow> Some sns)))"

definition the_default :: "'a \<Rightarrow> 'a option \<Rightarrow> 'a" where
  [simp]: "the_default d x = (case x of None \<Rightarrow> d | Some y \<Rightarrow> y)"

definition all_serials :: "crl_lib \<Rightarrow> 'w os_ops \<Rightarrow> Certificate \<Rightarrow> 'w \<Rightarrow> UrlPath list \<Rightarrow> Serial list" where
  "all_serials lib os cert w ps = concat (map (\<lambda>p. the_default [] (crl_serials lib os cert w p)) ps)"

text \<open>Every CRL of the issuer could be read and there is a revocation.\<close>

definition complete :: "crl_lib \<Rightarrow> 'w os_ops \<Rightarrow> Certificate \<Rightarrow> 'w \<Rightarrow> UrlPath list \<Rightarrow> bool" where
  "complete lib os cert w ps \<longleftrightarrow>
     list_all (\<lambda>p. crl_serials lib os cert w p \<noteq> None) ps \<and> all_serials lib os cert w ps \<noteq> []"

lemma aggregate_crl_result:
  assumes "moz_inv (ae_issuers ae)"
  shows "\<exists>a. aggregate_crl lib os issuer cert p ae =
    Done ((crl_serials lib os cert (ae_world ae) p \<noteq> None, the_default [] (crl_serials lib os cert (ae_world ae) p)),
      ae\<lparr>ae_auditor := a\<rparr>)"
proof -
  have e: "\<exists>a. append_entry (ae_issuers ae) now kind i u f (ae_auditor ae) = Done a" for now kind i u f
    using append_entry_total [OF assms] by blast
  show ?thesis
  proof (cases "up_Path p = []")
    case True
    then have "aggregate_crl lib os issuer cert p ae = Done ((False, []), ae\<lparr>ae_auditor := ae_auditor ae\<rparr>)"
      by (simp add: aggregate_crl_def)
    then show ?thesis using True by (intro exI [of _ "ae_auditor ae"]) (simp add: crl_serials_def)
  next
    case False
    show ?thesis
    proof (cases "loadAndCheckSignatureOfCRL lib os (up_Path p) cert (ae_world ae)")
      case (Inl err)
      then show ?thesis using False e by (auto simp: aggregate_crl_def crl_serials_def audit_defs Let_def) (metis run_bind.simps(1))
    next
      case (Inr cs)
      obtain crl sha where cs: "cs = (crl, sha)" by fastforce
      show ?thesis
      proof (cases "processCRL (crl_time lib) (TBSCertList_Raw crl)")
        case Inl
        then show ?thesis using False Inr cs e
          by (auto simp: aggregate_crl_def crl_serials_def audit_defs Let_def) (metis run_bind.simps(1))
      next
        case (Inr sns)
        then show ?thesis using False \<open>loadAndCheckSignatureOfCRL lib os (up_Path p) cert (ae_world ae) = Inr cs\<close> cs e
          by (cases "sns = []") (auto simp: aggregate_crl_def crl_serials_def audit_defs Let_def, (metis run_bind.simps(1))+)
      qed
    qed
  qed
qed

lemma aggregate_paths_result:
  assumes "moz_inv (ae_issuers ae)" and "ctx_Err os (ae_world ae) = None"
  shows "\<exists>a. aggregate_paths lib os issuer cert ps failed sns ae =
    Done (Some (failed \<or> \<not> list_all (\<lambda>p. crl_serials lib os cert (ae_world ae) p \<noteq> None) ps,
        sns @ all_serials lib os cert (ae_world ae) ps), ae\<lparr>ae_auditor := a\<rparr>)"
  using assms
proof (induction ps arbitrary: failed sns ae)
  case Nil
  show ?case by (intro exI [of _ "ae_auditor ae"]) (simp add: all_serials_def)
next
  case (Cons p ps)
  obtain a1 where a1: "aggregate_crl lib os issuer cert p ae =
    Done ((crl_serials lib os cert (ae_world ae) p \<noteq> None, the_default [] (crl_serials lib os cert (ae_world ae) p)),
      ae\<lparr>ae_auditor := a1\<rparr>)" using aggregate_crl_result [OF Cons.prems(1)] by blast
  show ?case
    using Cons.IH [of "ae\<lparr>ae_auditor := a1\<rparr>" "failed \<or> crl_serials lib os cert (ae_world ae) p = None"
        "sns @ the_default [] (crl_serials lib os cert (ae_world ae) p)"] Cons.prems
    by (auto simp: a1 all_serials_def)
qed

lemma aggregate_issuer_result:
  assumes "moz_inv (ae_issuers ae)" and "ctx_Err os (ae_world ae) = None"
    and "issuer_cert (ae_issuers ae) (icp_Issuer t) = Done cert"
  shows "\<exists>a. aggregate_issuer lib os sb t ae =
    (if complete lib os cert (ae_world ae) (CrlUrlPaths t)
     then (case sb_StoreKnownCertificateList sb (icp_Issuer t) (all_serials lib os cert (ae_world ae) (CrlUrlPaths t)) (ae_world ae) of
             (Some err, _) \<Rightarrow> Fatal (''['' @ Issuer_ID (icp_Issuer t) @ ''] Could not save revoked certificates file: '' @ err_text err)
           | (None, w2) \<Rightarrow> Done (True, ae\<lparr>ae_issuers := Enroll (icp_Issuer t) (ae_issuers ae), ae_auditor := a, ae_world := w2\<rparr>))
     else Done (True, ae\<lparr>ae_auditor := a\<rparr>))"
proof -
  obtain a where "aggregate_paths lib os (icp_Issuer t) cert (CrlUrlPaths t) False [] ae =
    Done (Some (\<not> list_all (\<lambda>p. crl_serials lib os cert (ae_world ae) p \<noteq> None) (CrlUrlPaths t),
        all_serials lib os cert (ae_world ae) (CrlUrlPaths t)), ae\<lparr>ae_auditor := a\<rparr>)"
    using aggregate_paths_result [OF assms(1,2), of lib "icp_Issuer t" cert "CrlUrlPaths t" False "[]"] by auto
  then show ?thesis
    by (intro exI [of _ a]) (simp add: aggregate_issuer_def assms(3) complete_def split: prod.split option.split)
qed

subsection \<open>Lemmas: the stage\<close>

definition cert_of :: "MozIssuers \<Rightarrow> Issuer \<Rightarrow> Certificate" where
  "cert_of mi i = the (ic_cert (hd (certs_at mi (Issuer_ID i))))"

lemma issuer_cert_of: "issuer_cert mi i = Done c \<Longrightarrow> cert_of mi i = c"
  by (auto simp: issuer_cert_def GetCertificateForIssuer_def first_cert_def cert_of_def certs_at_def
      split: option.splits list.splits)

lemma Enroll_certs: "certs_at (Enroll i mi) k = certs_at mi k"
  by (auto simp: certs_at_def Enroll_map split: option.splits)

lemma GetCertificate_Enroll: "GetCertificateForIssuer (Enroll i mi) j = GetCertificateForIssuer mi j"
  by (auto simp: GetCertificateForIssuer_def Enroll_map first_cert_def split: option.splits)

lemma issuer_cert_Enroll [simp]:
  "issuer_cert (Enroll i mi) j = issuer_cert mi j" "cert_of (Enroll i mi) j = cert_of mi j"
  by (simp_all add: issuer_cert_def cert_of_def Enroll_certs GetCertificate_Enroll)

lemma Enroll_enrolled:
  "IsIssuerInProgram mi i \<Longrightarrow>
   IsIssuerEnrolled (Enroll i mi) j \<longleftrightarrow> IsIssuerEnrolled mi j \<or> Issuer_ID j = Issuer_ID i"
  by (auto simp: IsIssuerEnrolled_def IsIssuerInProgram_def Enroll_map split: option.splits if_splits)

lemma issuer_cert_in_program: "issuer_cert mi i = Done c \<Longrightarrow> IsIssuerInProgram mi i"
  by (auto simp: issuer_cert_def GetCertificateForIssuer_def IsIssuerInProgram_def split: option.splits)

lemma crl_serials_cong:
  "up_Path p = [] \<or> os_ReadFile os (up_Path p) w' = os_ReadFile os (up_Path p) w \<Longrightarrow>
   crl_serials lib os cert w' p = crl_serials lib os cert w p"
  by (auto simp: crl_serials_def loadAndCheckSignatureOfCRL_def)

lemma complete_cong:
  assumes "\<forall>p \<in> set ps. up_Path p = [] \<or> os_ReadFile os (up_Path p) w' = os_ReadFile os (up_Path p) w"
  shows "complete lib os cert w' ps = complete lib os cert w ps" "all_serials lib os cert w' ps = all_serials lib os cert w ps"
proof -
  have c: "crl_serials lib os cert w' p = crl_serials lib os cert w p" if "p \<in> set ps" for p
    using assms that by (intro crl_serials_cong) blast
  show a: "all_serials lib os cert w' ps = all_serials lib os cert w ps"
    using c by (simp add: all_serials_def cong: map_cong)
  show "complete lib os cert w' ps = complete lib os cert w ps"
    using c a by (auto simp: complete_def list_all_iff)
qed

text \<open>What the tuple of an issuer leads to, with the files and the issuers at the start of the stage.\<close>

definition enrols :: "crl_lib \<Rightarrow> 'w os_ops \<Rightarrow> 'w AggregateEngine \<Rightarrow> IssuerCrlUrlPaths \<Rightarrow> bool" where
  "enrols lib os ae t \<longleftrightarrow> complete lib os (cert_of (ae_issuers ae) (icp_Issuer t)) (ae_world ae) (CrlUrlPaths t)"

definition revoked :: "crl_lib \<Rightarrow> 'w os_ops \<Rightarrow> 'w AggregateEngine \<Rightarrow> IssuerCrlUrlPaths \<Rightarrow> Serial list" where
  "revoked lib os ae t = all_serials lib os (cert_of (ae_issuers ae) (icp_Issuer t)) (ae_world ae) (CrlUrlPaths t)"

text \<open>A unit of work whose issuer has a certificate and a name, and whose paths are those of CRLs.\<close>

definition workable :: "(string \<Rightarrow> bool) \<Rightarrow> (string \<Rightarrow> bool) \<Rightarrow> MozIssuers \<Rightarrow> IssuerCrlUrlPaths \<Rightarrow> bool" where
  "workable named crl_file mi t \<longleftrightarrow> named (Issuer_ID (icp_Issuer t)) \<and> (\<exists>c. issuer_cert mi (icp_Issuer t) = Done c) \<and>
     (\<forall>p \<in> set (CrlUrlPaths t). up_Path p = [] \<or> crl_file (up_Path p))"

text \<open>
  Storing the list of an issuer works while the context is alive, keeps it alive and does not touch the
  files of CRLs.
\<close>

locale crl_stage = known_lists sb lists named
  for sb :: "'w StorageBackend" and lists :: "'w \<Rightarrow> string \<Rightarrow> Serial list option" and named :: "string \<Rightarrow> bool" +
  fixes os :: "'w os_ops" and crl_file :: "string \<Rightarrow> bool"
  assumes store_ok: "ctx_Err os w = None \<Longrightarrow> named (Issuer_ID i) \<Longrightarrow>
      \<exists>w'. sb_StoreKnownCertificateList sb i ss w = (None, w')"
    and store_ctx: "sb_StoreKnownCertificateList sb i ss w = (None, w') \<Longrightarrow> ctx_Err os w = None \<Longrightarrow> ctx_Err os w' = None"
    and store_reads: "sb_StoreKnownCertificateList sb i ss w = (None, w') \<Longrightarrow> named (Issuer_ID i) \<Longrightarrow> crl_file p \<Longrightarrow>
      os_ReadFile os p w' = os_ReadFile os p w"
begin

lemma aggregate_one:
  assumes "moz_inv (ae_issuers ae)" and "ctx_Err os (ae_world ae) = None" and "workable named crl_file (ae_issuers ae) t"
  shows "\<exists>ae'. aggregate_issuer lib os sb t ae = Done (True, ae') \<and> ctx_Err os (ae_world ae') = None \<and>
    ae_issuers ae' = (if enrols lib os ae t then Enroll (icp_Issuer t) (ae_issuers ae) else ae_issuers ae) \<and>
    (\<forall>p. crl_file p \<longrightarrow> os_ReadFile os p (ae_world ae') = os_ReadFile os p (ae_world ae)) \<and>
    (enrols lib os ae t \<longrightarrow> lists (ae_world ae') (Issuer_ID (icp_Issuer t)) = Some (revoked lib os ae t)) \<and>
    (\<forall>k. named k \<longrightarrow> (enrols lib os ae t \<longrightarrow> k \<noteq> Issuer_ID (icp_Issuer t)) \<longrightarrow> lists (ae_world ae') k = lists (ae_world ae) k)"
proof -
  let ?i = "icp_Issuer t"
  obtain c where c: "issuer_cert (ae_issuers ae) ?i = Done c" and n: "named (Issuer_ID ?i)"
    using assms(3) by (auto simp: workable_def)
  have cc: "cert_of (ae_issuers ae) ?i = c" using issuer_cert_of [OF c] .
  obtain w2 where w2: "sb_StoreKnownCertificateList sb ?i (revoked lib os ae t) (ae_world ae) = (None, w2)"
    using store_ok [OF assms(2) n] by blast
  obtain a where a: "aggregate_issuer lib os sb t ae =
    (if enrols lib os ae t
     then Done (True, ae\<lparr>ae_issuers := Enroll ?i (ae_issuers ae), ae_auditor := a, ae_world := w2\<rparr>)
     else Done (True, ae\<lparr>ae_auditor := a\<rparr>))"
    using aggregate_issuer_result [OF assms(1,2) c, of lib sb] w2 [unfolded revoked_def cc]
    unfolding enrols_def revoked_def cc by (metis (no_types, lifting) case_prod_conv option.simps(4))
  show ?thesis
    using a store_ctx [OF w2 assms(2)] store_reads [OF w2 n] store_known [OF w2 n] store_other [OF w2 n] assms(2)
    by (cases "enrols lib os ae t") auto
qed

lemma aggregate_all:
  assumes "moz_inv (ae_issuers ae)" and "ctx_Err os (ae_world ae) = None"
    and "\<forall>t \<in> set ts. workable named crl_file (ae_issuers ae) t" and "distinct (map (\<lambda>t. Issuer_ID (icp_Issuer t)) ts)"
  shows "\<exists>ae'. aggregateCRLWorker lib os sb ts ae = Done ae' \<and>
    (\<forall>j. IsIssuerEnrolled (ae_issuers ae') j \<longleftrightarrow> IsIssuerEnrolled (ae_issuers ae) j \<or>
       (\<exists>t \<in> set ts. enrols lib os ae t \<and> Issuer_ID (icp_Issuer t) = Issuer_ID j)) \<and>
    (\<forall>t \<in> set ts. enrols lib os ae t \<longrightarrow>
       lists (ae_world ae') (Issuer_ID (icp_Issuer t)) = Some (revoked lib os ae t)) \<and>
    (\<forall>k. named k \<longrightarrow> (\<forall>t \<in> set ts. enrols lib os ae t \<longrightarrow> k \<noteq> Issuer_ID (icp_Issuer t)) \<longrightarrow>
       lists (ae_world ae') k = lists (ae_world ae) k)"
  using assms
proof (induction ts arbitrary: ae)
  case (Cons t ts)
  let ?ti = "Issuer_ID (icp_Issuer t)"
  have wt: "workable named crl_file (ae_issuers ae) t" using Cons.prems(3) by simp
  obtain ae1 where s: "aggregate_issuer lib os sb t ae = Done (True, ae1)" "ctx_Err os (ae_world ae1) = None"
    and mi: "ae_issuers ae1 = (if enrols lib os ae t then Enroll (icp_Issuer t) (ae_issuers ae) else ae_issuers ae)"
    and rd: "\<forall>p. crl_file p \<longrightarrow> os_ReadFile os p (ae_world ae1) = os_ReadFile os p (ae_world ae)"
    and own: "enrols lib os ae t \<longrightarrow> lists (ae_world ae1) ?ti = Some (revoked lib os ae t)"
    and other: "\<forall>k. named k \<longrightarrow> (enrols lib os ae t \<longrightarrow> k \<noteq> ?ti) \<longrightarrow> lists (ae_world ae1) k = lists (ae_world ae) k"
    using aggregate_one [OF Cons.prems(1,2) wt] by blast
  have same: "enrols lib os ae1 u = enrols lib os ae u \<and> revoked lib os ae1 u = revoked lib os ae u" if "u \<in> set ts" for u
  proof -
    have "\<forall>p \<in> set (CrlUrlPaths u). up_Path p = [] \<or> os_ReadFile os (up_Path p) (ae_world ae1) = os_ReadFile os (up_Path p) (ae_world ae)"
      using Cons.prems(3) that rd by (auto simp: workable_def)
    from complete_cong [OF this] show ?thesis by (simp add: enrols_def revoked_def mi)
  qed
  have "moz_inv (ae_issuers ae1)" using Cons.prems(1) by (simp add: mi moz_inv_Enroll)
  moreover have "\<forall>u \<in> set ts. workable named crl_file (ae_issuers ae1) u" using Cons.prems(3) by (simp add: workable_def mi)
  moreover have "distinct (map (\<lambda>t. Issuer_ID (icp_Issuer t)) ts)" using Cons.prems(4) by simp
  ultimately obtain ae2 where r: "aggregateCRLWorker lib os sb ts ae1 = Done ae2"
    and en: "\<forall>j. IsIssuerEnrolled (ae_issuers ae2) j \<longleftrightarrow> IsIssuerEnrolled (ae_issuers ae1) j \<or>
       (\<exists>u \<in> set ts. enrols lib os ae1 u \<and> Issuer_ID (icp_Issuer u) = Issuer_ID j)"
    and li: "\<forall>u \<in> set ts. enrols lib os ae1 u \<longrightarrow> lists (ae_world ae2) (Issuer_ID (icp_Issuer u)) = Some (revoked lib os ae1 u)"
    and ot: "\<forall>k. named k \<longrightarrow> (\<forall>u \<in> set ts. enrols lib os ae1 u \<longrightarrow> k \<noteq> Issuer_ID (icp_Issuer u)) \<longrightarrow>
       lists (ae_world ae2) k = lists (ae_world ae1) k"
    using Cons.IH [OF _ s(2)] by blast
  have ip: "IsIssuerInProgram (ae_issuers ae) (icp_Issuer t)" using wt issuer_cert_in_program by (auto simp: workable_def)
  have "named ?ti" using wt by (simp add: workable_def)
  moreover have "?ti \<noteq> Issuer_ID (icp_Issuer u)" if "u \<in> set ts" for u using Cons.prems(4) that by force
  ultimately have keep: "lists (ae_world ae2) ?ti = lists (ae_world ae1) ?ti" using ot by blast
  have "aggregateCRLWorker lib os sb (t # ts) ae = Done ae2" using s(1) r by simp
  moreover have "IsIssuerEnrolled (ae_issuers ae2) j \<longleftrightarrow> IsIssuerEnrolled (ae_issuers ae) j \<or>
       (\<exists>u \<in> set (t # ts). enrols lib os ae u \<and> Issuer_ID (icp_Issuer u) = Issuer_ID j)" for j
    using en same mi Enroll_enrolled [OF ip, of j] by auto
  moreover have "\<forall>u \<in> set (t # ts). enrols lib os ae u \<longrightarrow>
       lists (ae_world ae2) (Issuer_ID (icp_Issuer u)) = Some (revoked lib os ae u)"
    using li same own keep by auto
  moreover have "lists (ae_world ae2) k = lists (ae_world ae) k"
    if "named k" "\<forall>u \<in> set (t # ts). enrols lib os ae u \<longrightarrow> k \<noteq> Issuer_ID (icp_Issuer u)" for k
    using that ot other same by auto
  ultimately show ?case by blast
qed simp

end

subsection \<open>The stage on the local disk\<close>

definition outside_known :: "LocalDiskBackend \<Rightarrow> string \<Rightarrow> bool" where
  "outside_known db p \<longleftrightarrow> (\<forall>k. file_name k \<longrightarrow> p \<noteq> known_path db k)"

interpretation sim_crls: crl_stage "LocalDisk_ops sample_codec sim_os (NewLocalDiskBackend ''r'')"
  "\<lambda>w k. Option.bind (sim_content w (known_path (NewLocalDiskBackend ''r'') k)) read_known" file_name
  sim_os "outside_known (NewLocalDiskBackend ''r'')"
proof unfold_locales
  let ?db = "NewLocalDiskBackend ''r''"
  have op: "sb_StoreKnownCertificateList (LocalDisk_ops sample_codec sim_os ?db) = LD_StoreKnownCertificateList sim_os ?db"
    by (simp add: LocalDisk_ops_def)
  show "\<exists>w'. sb_StoreKnownCertificateList (LocalDisk_ops sample_codec sim_os ?db) i ss w = (None, w')"
    if "ctx_Err sim_os w = None" "file_name (Issuer_ID i)" for w i ss
    using store_known_sim [of w ?db i ss] that unfolding op by (auto split: if_splits)
  show "ctx_Err sim_os w' = None"
    if "sb_StoreKnownCertificateList (LocalDisk_ops sample_codec sim_os ?db) i ss w = (None, w')" "ctx_Err sim_os w = None" for i ss w w'
    using store_known_sim [of w ?db i ss] that unfolding op by (auto split: if_splits)
  show "os_ReadFile sim_os p w' = os_ReadFile sim_os p w"
    if "sb_StoreKnownCertificateList (LocalDisk_ops sample_codec sim_os ?db) i ss w = (None, w')"
      "file_name (Issuer_ID i)" "outside_known ?db p" for i ss w w' p
    using sim_ld.store_known_content [OF that(1) [unfolded op]] that(2,3) sim.read_content
    by (simp add: outside_known_def)
qed

subsection \<open>Lemmas: names of files\<close>

lemma makeFilename_suffix:
  "\<exists>stem. makeFilenameFromUrl u = stem @ ''-'' @ hex_EncodeToString (take 8 (sha256_Sum256 (bytes_of_string (url_String u)))) @ ''.crl''"
  by (simp add: makeFilenameFromUrl_def Let_def)

lemma makeFilename_hash:
  assumes "makeFilenameFromUrl u = makeFilenameFromUrl v"
  shows "take 8 (sha256_Sum256 (bytes_of_string (url_String u))) = take 8 (sha256_Sum256 (bytes_of_string (url_String v)))"
proof -
  obtain a where a: "makeFilenameFromUrl u = a @ ''-'' @ hex_EncodeToString (take 8 (sha256_Sum256 (bytes_of_string (url_String u)))) @ ''.crl''"
    using makeFilename_suffix by blast
  obtain b where b: "makeFilenameFromUrl v = b @ ''-'' @ hex_EncodeToString (take 8 (sha256_Sum256 (bytes_of_string (url_String v)))) @ ''.crl''"
    using makeFilename_suffix by blast
  have "(a @ ''-'') @ (hex_EncodeToString (take 8 (sha256_Sum256 (bytes_of_string (url_String u)))) @ ''.crl'') =
      (b @ ''-'') @ (hex_EncodeToString (take 8 (sha256_Sum256 (bytes_of_string (url_String v)))) @ ''.crl'')"
    using assms a b by simp
  then show ?thesis by (subst (asm) append_eq_append_conv) simp_all
qed

lemma set_strings_ToLower: "set (strings_ToLower s) \<subseteq> {CHR ''k'', CHR ''i''} \<union> ascii_lower ` set s"
proof (induction s rule: strings_ToLower.induct)
  case (2 c s)
  have d: "ascii_lower ` set (drop n s) \<subseteq> ascii_lower ` set (c # s)" for n
    using set_drop_subset [of n s] by auto
  consider "prefix [CHR 0xE2, CHR 0x84, CHR 0xAA] (c # s)"
    | "\<not> prefix [CHR 0xE2, CHR 0x84, CHR 0xAA] (c # s)" "prefix [CHR 0xC4, CHR 0xB0] (c # s)"
    | "\<not> prefix [CHR 0xE2, CHR 0x84, CHR 0xAA] (c # s)" "\<not> prefix [CHR 0xC4, CHR 0xB0] (c # s)" by blast
  then show ?case
  proof cases
    case 1
    then have "set (strings_ToLower (drop 2 s)) \<subseteq> {CHR ''k'', CHR ''i''} \<union> ascii_lower ` set (drop 2 s)" using 2(1) by blast
    moreover have "strings_ToLower (c # s) = CHR ''k'' # strings_ToLower (drop 2 s)"
      by (simp only: strings_ToLower.simps 1 if_True)
    ultimately show ?thesis using d [of 2] by auto
  next
    case 2
    then have "set (strings_ToLower (drop 1 s)) \<subseteq> {CHR ''k'', CHR ''i''} \<union> ascii_lower ` set (drop 1 s)" using "2.IH"(2) by blast
    moreover have "strings_ToLower (c # s) = CHR ''i'' # strings_ToLower (drop 1 s)"
      by (simp only: strings_ToLower.simps 2 if_True if_False)
    ultimately show ?thesis using d [of 1] by auto
  next
    case 3
    then have "set (strings_ToLower s) \<subseteq> {CHR ''k'', CHR ''i''} \<union> ascii_lower ` set s" using "2.IH"(3) by blast
    moreover have "strings_ToLower (c # s) = ascii_lower c # strings_ToLower s"
      by (simp only: strings_ToLower.simps 3 if_False)
    ultimately show ?thesis by auto
  qed
qed simp

lemma ascii_lower_slash:
  assumes "ascii_lower c = CHR ''/''"
  shows "c = CHR ''/''"
proof (rule ccontr)
  assume ne: "c \<noteq> CHR ''/''"
  then have "CHR ''A'' \<le> c" "c \<le> CHR ''Z''" and e: "char_of (of_char c + 32 :: nat) = CHR ''/''"
    using assms by (auto simp: ascii_lower_def split: if_splits)
  then have "65 \<le> (of_char c :: nat)" "(of_char c :: nat) \<le> 90" by (simp_all add: less_eq_char_def)
  moreover have "(of_char (char_of (of_char c + 32 :: nat)) :: nat) = of_char (CHR ''/'')" using e by simp
  ultimately show False by (simp add: of_char_of)
qed

text \<open>The name has no slash unless the URL's path consists of slashes only or its host has one.\<close>

lemma path_Base_no_slash:
  assumes "path_Base p \<noteq> ''/''"
  shows "CHR ''/'' \<notin> set (path_Base p)"
  using assms by (auto simp: path_Base_def Let_def dest: set_takeWhileD split: if_splits)

lemma makeFilename_no_slash:
  assumes "CHR ''/'' \<notin> set (url_Hostname u)" and "path_Base (url_Path u) \<noteq> ''/''"
  shows "CHR ''/'' \<notin> set (makeFilenameFromUrl u)"
proof -
  let ?s = "url_Hostname u @ ''-'' @ path_Base (url_Path u)"
  have "CHR ''/'' \<notin> set ?s" using assms path_Base_no_slash by simp
  then have l: "CHR ''/'' \<notin> set (strings_ToLower ?s)"
    using set_strings_ToLower [of ?s] ascii_lower_slash by fastforce
  have t: "set (strings_TrimSuffix f x) \<subseteq> set f" for f x by (auto simp: strings_TrimSuffix_def dest: in_set_takeD)
  have "CHR ''/'' \<notin> set (hex_EncodeToString bs)" for bs
    using set_hex_EncodeToString [of bs] by (auto simp: hextable_def)
  then show ?thesis using l t [of "filter legal_char (strings_ToLower ?s)" "''.crl''"]
    by (auto simp: makeFilenameFromUrl_def Let_def)
qed

lemma strings_ToLower_append_slash: "strings_ToLower (s @ ''-/'') = strings_ToLower s @ ''-/''"
proof (induction s rule: strings_ToLower.induct)
  case 1
  show ?case by (simp add: ascii_lower_def)
next
  case (2 c s)
  have p: "prefix xs (c # s @ ''-/'') \<longleftrightarrow> prefix xs (c # s)" if "CHR ''-'' \<notin> set xs" for xs
  proof -
    have "\<not> (\<exists>us. xs = (c # s) @ us \<and> prefix us ''-/'' \<and> us \<noteq> [])"
      using that by (auto simp: prefix_Cons)
    then show ?thesis using prefix_append [of xs "c # s" "''-/''"] by auto
  qed
  have len: "n \<le> length s" if "prefix xs (c # s)" "length xs = Suc n" for xs n
    using prefix_length_le [OF that(1)] that(2) by simp
  let ?k = "[CHR 0xE2, CHR 0x84, CHR 0xAA]" and ?i = "[CHR 0xC4, CHR 0xB0]"
  have unf: "strings_ToLower (c # r) =
      (if prefix ?k (c # r) then CHR ''k'' # strings_ToLower (drop 2 r)
       else if prefix ?i (c # r) then CHR ''i'' # strings_ToLower (drop 1 r)
       else ascii_lower c # strings_ToLower r)" for r by (rule strings_ToLower.simps)
  have pk: "prefix ?k (c # s @ ''-/'') \<longleftrightarrow> prefix ?k (c # s)" and pi: "prefix ?i (c # s @ ''-/'') \<longleftrightarrow> prefix ?i (c # s)"
    by (rule p, simp)+
  have d: "drop 2 (s @ ''-/'') = drop 2 s @ ''-/''" if "prefix ?k (c # s)" using len [OF that, of 2] by simp
  have e: "drop 1 (s @ ''-/'') = drop 1 s @ ''-/''" if "prefix ?i (c # s)" using len [OF that, of 1] by simp
  consider "prefix ?k (c # s)" | "\<not> prefix ?k (c # s)" "prefix ?i (c # s)" | "\<not> prefix ?k (c # s)" "\<not> prefix ?i (c # s)" by blast
  then show ?case
  proof cases
    case 1
    then show ?thesis unfolding append_Cons unf pk pi using 2(1) [OF 1] d by (simp only: if_True append_Cons)
  next
    case 2
    then show ?thesis unfolding append_Cons unf pk pi using "2.IH"(2) [OF 2] e by (simp only: if_True if_False append_Cons)
  next
    case 3
    then show ?thesis unfolding append_Cons unf pk pi using "2.IH"(3) [OF 3] by (simp only: if_False append_Cons)
  qed
qed

lemma makeFilename_slash:
  assumes "CHR ''/'' \<notin> set (url_Hostname u)"
  shows "CHR ''/'' \<in> set (makeFilenameFromUrl u) \<longleftrightarrow> path_Base (url_Path u) = ''/''"
proof
  assume b: "path_Base (url_Path u) = ''/''"
  show "CHR ''/'' \<in> set (makeFilenameFromUrl u)"
    by (simp add: makeFilenameFromUrl_def b Let_def strings_ToLower_append_slash strings_TrimSuffix_def legal_char_def
        suffix_def)
qed (use makeFilename_no_slash assms in blast)

subsection \<open>Lemmas: finding CRLs\<close>

definition crl_key :: "string \<Rightarrow> string" where
  "crl_key k = crlId (NewIssuerMetadata (NewIssuerFromString k))"

text \<open>The metadata objects of the database are filed under the identifier of their issuer.\<close>

definition metas_filed :: "('b, 'c, 'g) FilesystemDatabase \<Rightarrow> bool" where
  "metas_filed db \<longleftrightarrow> (\<forall>k im. map_of (db_meta db) k = Some im \<longrightarrow> crlId im = crl_key k)"

lemma GetIssuerMetadata_filed:
  assumes "metas_filed db" and "GetIssuerMetadata i db = (im, db')"
  shows "crlId im = crl_key (Issuer_ID i)" and "metas_filed db'" and "extCache db' = extCache db"
proof -
  have n: "crlId (NewIssuerMetadata i) = crl_key (Issuer_ID i)"
    by (simp add: crl_key_def crlId_def im_id_def NewIssuerMetadata_def)
  show "crlId im = crl_key (Issuer_ID i)" "metas_filed db'" "extCache db' = extCache db"
    using assms n by (auto simp: GetIssuerMetadata_def metas_filed_def Let_def split: option.splits if_splits)
qed

lemma keys_fold_true: "keys (fold (\<lambda>url m. AList.update url True m) xs m) = keys m \<union> set xs"
  by (induction xs arbitrary: m) auto

context reading_cache
begin

lemma findCrlWorker_finds:
  assumes "inv (extCache db)" "metas_filed db"
    and "findCrlWorker rc now (map (\<lambda>i. (i, False)) issuers) m0 db = Done (r, db')" and "wf_map m0"
  shows "\<exists>m. r = Some m \<and> wf_map m \<and>
    (\<forall>k. crls_of m k = crls_of m0 k \<union> (if k \<in> Issuer_ID ` set issuers then live (extCache db) (crl_key k) else {})) \<and>
    inv (extCache db') \<and> metas_filed db' \<and> live (extCache db') = live (extCache db)"
  using assms
proof (induction issuers arbitrary: m0 db)
  case (Cons i issuers)
  obtain im db1 where g: "GetIssuerMetadata i db = (im, db1)" by fastforce
  note gm = GetIssuerMetadata_filed [OF Cons.prems(2) g]
  let ?crls = "case map_of m0 (Issuer_ID i) of None \<Rightarrow> [] | Some m \<Rightarrow> m"
  obtain xs c1 where c: "rc_SetList rc (crlId im) now (extCache db1) = Done ((xs, None), c1)"
    and rest: "findCrlWorker rc now (map (\<lambda>i. (i, False)) issuers)
      (AList.update (Issuer_ID i) (fold (\<lambda>url m. AList.update url True m) xs ?crls) m0) (db1\<lparr>extCache := c1\<rparr>) = Done (r, db')"
    using Cons.prems(3) g
    by (cases "rc_SetList rc (crlId im) now (extCache db1)")
      (auto simp: CRLs_def Let_def split: option.splits prod.splits)
  have l: "set xs = live (extCache db) (crl_key (Issuer_ID i))" "inv c1" "live c1 = live (extCache db)"
    using list_reads [OF _ c] Cons.prems(1) gm by simp_all
  let ?m1 = "AList.update (Issuer_ID i) (fold (\<lambda>url m. AList.update url True m) xs ?crls) m0"
  have m1: "crls_of ?m1 k = crls_of m0 k \<union> (if k = Issuer_ID i then live (extCache db) (crl_key k) else {})" for k
    using l(1) by (cases "map_of m0 (Issuer_ID i)") (auto simp: crls_of_update keys_fold_true crls_of_def)
  have f: "metas_filed (db1\<lparr>extCache := c1\<rparr>)" using gm(2) by (simp add: metas_filed_def)
  have "wf_map ?m1" using Cons.prems(4) by (rule wf_map_update)
  from Cons.IH [OF _ f rest this] l(2,3) obtain m where
    "r = Some m" "wf_map m" "inv (extCache db')" "metas_filed db'" "live (extCache db') = live (extCache db)"
    "\<forall>k. crls_of m k = crls_of ?m1 k \<union> (if k \<in> Issuer_ID ` set issuers then live (extCache db) (crl_key k) else {})"
    by auto
  then show ?case using m1 by auto
qed auto

lemma findCrlWorkers_find:
  assumes "inv (extCache db)" "metas_filed db"
    and "findCrlWorkers rc now (\<lambda>_. False) parts m0 db = Done (m, db')" and "wf_map m0"
  shows "(\<forall>k. crls_of m k = crls_of m0 k \<union>
      (if k \<in> Issuer_ID ` set (concat parts) then live (extCache db) (crl_key k) else {})) \<and> inv (extCache db')"
  using assms
proof (induction parts arbitrary: m0 db)
  case (Cons issuers parts)
  obtain r db1 where w: "findCrlWorker rc now (map (\<lambda>i. (i, False)) issuers) [] db = Done (r, db1)"
    using Cons.prems(3) by (cases "findCrlWorker rc now (map (\<lambda>i. (i, False)) issuers) [] db") auto
  obtain m1 where m1: "r = Some m1" "wf_map m1" "inv (extCache db1)" "metas_filed db1" "live (extCache db1) = live (extCache db)"
    "\<forall>k. crls_of m1 k = crls_of [] k \<union> (if k \<in> Issuer_ID ` set issuers then live (extCache db) (crl_key k) else {})"
    using findCrlWorker_finds [OF Cons.prems(1,2) w] by auto
  have "findCrlWorkers rc now (\<lambda>_. False) parts (IssuerCrlMap_Merge m0 m1) db1 = Done (m, db')" using Cons.prems(3) w m1(1) by simp
  from Cons.IH [OF m1(3,4) this Merge_wf [OF Cons.prems(4)]]
  show ?case using m1(5,6) Merge_crls [OF m1(2), of m0] by (auto simp: crls_of_def [of "[]"])
qed simp

lemma identify_finds:
  assumes "\<And>xs. set (concat (deal xs)) = set xs"
    and "GetIssuerAndDatesFromCache rc now db = Done (Inr issuerList, db1)"
    and "inv (extCache db1)" "metas_filed db"
    and "identifyCrlsByIssuer rc now False (\<lambda>_. False) deal mi db = Done (r, db')"
  shows "\<exists>m. r = Some m \<and> (\<forall>k. crls_of m k =
    (if \<exists>d \<in> set issuerList. Issuer_ID (idt_Issuer d) = k \<and> IsIssuerInProgram mi (idt_Issuer d)
     then live (extCache db1) (crl_key k) else {}))"
proof -
  let ?is = "filter (IsIssuerInProgram mi) (map idt_Issuer issuerList)"
  have f: "metas_filed db1" using assms(2,4)
    by (cases "rc_KeysToChan rc ''serials::*'' now (extCache db)")
      (auto simp: GetIssuerAndDatesFromCache_def Let_def metas_filed_def split: sum.splits option.splits)
  obtain m where r: "r = Some m" and w: "findCrlWorkers rc now (\<lambda>_. False) (deal ?is) [] db1 = Done (m, db')"
    using assms(5) by (cases "findCrlWorkers rc now (\<lambda>_. False) (deal ?is) [] db1") (auto simp: identifyCrlsByIssuer_def assms(2))
  have "crls_of m k = (if k \<in> Issuer_ID ` set ?is then live (extCache db1) (crl_key k) else {})" for k
    using findCrlWorkers_find [OF assms(3) f w] assms(1) by (simp add: crls_of_def [of "[]"])
  then show ?thesis using r by auto
qed

end

subsection \<open>Lemmas: fetching\<close>

lemma clean_parts_ne: "[] \<notin> set acc \<Longrightarrow> [] \<notin> set (clean_parts rooted acc ps)"
  by (induction rooted acc ps rule: clean_parts.induct) (auto split: list.split)

lemma filepath_Clean_ne: "filepath_Clean p \<noteq> []"
proof -
  have "join_slash qs \<noteq> []" if "qs \<noteq> []" "[] \<notin> set qs" for qs
    using that by (cases qs) (auto simp: join_slash_def)
  then show ?thesis using clean_parts_ne [of "[]"] by (auto simp: filepath_Clean_def Let_def)
qed

lemma crl_path_ne: "crl_path crlpath issuer u \<noteq> []"
proof -
  have "makeFilenameFromUrl u \<noteq> []" by (simp add: makeFilenameFromUrl_def Let_def)
  then show ?thesis by (auto simp: crl_path_def filepath_Join_def filepath_Clean_ne split: list.split)
qed

text \<open>The contents of a file that the later stage accepts for an issuer's certificate.\<close>

definition signed_crl :: "crl_lib \<Rightarrow> Certificate \<Rightarrow> bytes option \<Rightarrow> bool" where
  "signed_crl lib cert c \<longleftrightarrow>
     (case c of None \<Rightarrow> False
      | Some bs \<Rightarrow> (case x509_ParseCRL lib bs of Inl _ \<Rightarrow> False | Inr crl \<Rightarrow> CheckCRLSignature lib cert crl = None))"

context disk
begin

lemma verifier_verdict: "CrlVerifier_IsValid lib os cert p w = None \<longleftrightarrow> signed_crl lib cert (content w p)"
  by (auto simp: CrlVerifier_IsValid_def loadAndCheckSignatureOfCRL_def signed_crl_def read_content
      split: option.splits sum.splits)

lemma fetch_one:
  assumes "moz_inv (ae_issuers ae)" and "issuer_cert (ae_issuers ae) issuer = Done cert"
  shows "\<exists>path err ae'. crlFetchWorkerProcessOne lib os crlpath u issuer ae = Done ((path, err), ae') \<and>
    (err = None \<longrightarrow> path = crl_path crlpath issuer u) \<and> (err \<noteq> None \<longrightarrow> path = []) \<and>
    (if fst (os_MkdirAll os (filepath_Join [crlpath, Issuer_ID issuer]) (ae_world ae)) = None
     then err = None \<longleftrightarrow> signed_crl lib cert (content (ae_world ae') (crl_path crlpath issuer u)) else err \<noteq> None) \<and>
    (signed_crl lib cert (content (ae_world ae) (crl_path crlpath issuer u)) \<longrightarrow>
       signed_crl lib cert (content (ae_world ae') (crl_path crlpath issuer u))) \<and>
    (\<forall>q. q \<noteq> crl_path crlpath issuer u \<longrightarrow> q \<noteq> tmp_path (crl_path crlpath issuer u) \<longrightarrow>
       content (ae_world ae') q = content (ae_world ae) q) \<and> ae_issuers ae' = ae_issuers ae"
proof -
  let ?p = "crl_path crlpath issuer u"
  obtain e1 w1 where m: "os_MkdirAll os (filepath_Join [crlpath, Issuer_ID issuer]) (ae_world ae) = (e1, w1)" by fastforce
  note k = mkdir_keeps [OF m]
  show ?thesis
  proof (cases e1)
    case (Some err)
    then show ?thesis
      by (intro exI [of _ "[]"] exI [of _ "Some err"] exI [of _ "ae\<lparr>ae_world := w1\<rparr>"])
        (simp add: crlFetchWorkerProcessOne_def m k)
  next
    case None
    obtain ok dlErr calls w2 where d: "DownloadAndVerifyFileSync os (CrlVerifier_IsValid lib os cert) (Issuer_ID issuer)
        (url_String u) ?p 3 w1 = ((ok, dlErr), calls, w2)" by (metis prod_cases3 surj_pair)
    note dv = download_and_verify [where valid = "signed_crl lib cert", OF verifier_verdict d]
    obtain a1 where a1: "audit_calls (ae_issuers ae) (os_Now os w2) (IssuerIdent issuer) calls (ae_auditor ae) = Done a1"
      using audit_calls_total [OF assms(1)] by blast
    show ?thesis
    proof (cases ok)
      case False
      then have "dlErr \<noteq> None" using dv(3) by blast
      then show ?thesis using False None dv(1,2,5) k
        by (intro exI [of _ "[]"] exI [of _ dlErr] exI [of _ "ae\<lparr>ae_auditor := a1, ae_world := w2\<rparr>"])
          (auto simp: crlFetchWorkerProcessOne_def m d a1 assms(2))
    next
      case True
      then have v: "signed_crl lib cert (content w2 ?p)" using dv(1) by simp
      then have ex: "content w2 ?p \<noteq> None" by (cases "content w2 ?p") (auto simp: signed_crl_def)
      then obtain sz date where st: "GetSizeAndDateOfFile os ?p w2 = Inr (sz, date)"
        using open_exists [of ?p w2] stat_exists [OF ex] ex by (cases "os_Open os ?p w2") (auto simp: GetSizeAndDateOfFile_def)
      have "\<exists>a2. (if time_Sub (os_Now os w2) date > allowableAgeOfLocalCRL
          then Audit_Old (ae_issuers ae) (os_Now os w2) (IssuerIdent issuer) (url_String u) (time_Sub (os_Now os w2) date) a1
          else Done a1) = Done a2"
        using append_entry_total [OF assms(1)] unfolding audit_defs by (metis (no_types, lifting))
      then obtain a2 where a2: "(if time_Sub (os_Now os w2) date > allowableAgeOfLocalCRL
          then Audit_Old (ae_issuers ae) (os_Now os w2) (IssuerIdent issuer) (url_String u) (time_Sub (os_Now os w2) date) a1
          else Done a1) = Done a2" ..
      have "crlFetchWorkerProcessOne lib os crlpath u issuer ae = Done ((?p, None), ae\<lparr>ae_auditor := a2, ae_world := w2\<rparr>)"
        using a2 True None by (cases "time_Sub (os_Now os w2) date > allowableAgeOfLocalCRL") (simp_all add: crlFetchWorkerProcessOne_def m d a1 assms(2) st Let_def)
      then show ?thesis using None v dv(5) k m
        by (intro exI [of _ ?p] exI [of _ None] exI [of _ "ae\<lparr>ae_auditor := a2, ae_world := w2\<rparr>"]) simp
    qed
  qed
qed

end

subsection \<open>A sample\<close>

text \<open>One issuer, and a parser for which every non-empty file is a signed CRL with one revocation.\<close>

definition crl_tbs :: bytes where
  "crl_tbs = der_crl [1] [6, 0] [] (0x17, [50]) (0x18, [51])
     [\<lparr>ce_serial = [0, 0xA5], ce_tag = 0x17, ce_time = [49], ce_ext = [0x30, 0]\<rparr>] [0xA0, 0]"

definition sample_crl_lib :: crl_lib where
  "sample_crl_lib =
     \<lparr>x509_ParseCRL = (\<lambda>bs. if bs = [] then Inl (ExtError ''empty'')
        else Inr \<lparr>TBSCertList_Raw = crl_tbs, ThisUpdate = 0, NextUpdate = 0\<rparr>),
      CheckCRLSignature = (\<lambda>_ _. None), HasExpired = (\<lambda>_ _. False),
      crl_time = (\<lambda>tag content. if content = [] then Inl asn1_syntax else Inr 0)\<rparr>"

definition sample_ca :: Issuer where
  "sample_ca = NewIssuer (text_cert ''A'')"

definition sample_engine :: "sim \<Rightarrow> sim AggregateEngine" where
  "sample_engine w =
     \<lparr>ae_issuers = snd (InsertIssuerFromCertAndPem (text_cert ''A'') ''A'' (NewMozillaIssuers ''t'')),
      ae_auditor = NewCrlAuditor, ae_world = w\<rparr>"

definition sample_url :: url where
  "sample_url = \<lparr>Scheme = ''http'', url_Host = ''ca'', url_Path = ''/a.crl'', url_String = ''http://ca/a.crl''\<rparr>"

lemma sample_engine_inv: "moz_inv (ae_issuers (sample_engine w))"
  by (simp add: sample_engine_def moz_inv_Insert)

lemma sample_engine_cert: "issuer_cert (ae_issuers (sample_engine w)) sample_ca = Done (text_cert ''A'')"
  by (simp add: issuer_cert_def GetCertificateForIssuer_def sample_engine_def sample_ca_def Insert_map cert_id_def
      first_cert_def certs_at_def NewMozillaIssuers_def mk_ic_def)

lemma process_crl_tbs: "processCRL (crl_time sample_crl_lib) crl_tbs = Inr [Serial [0, 0xA5]]"
  by (simp add: sample_crl_lib_def crl_tbs_def) code_simp

lemma known_path_r: "file_name k \<Longrightarrow> known_path (NewLocalDiskBackend ''r'') k = ''r/'' @ k"
  using strings_Split_snoc [of k "''r''"] strings_Split_last [of "''/''" "''r''"]
  by (auto simp: known_path_def NewLocalDiskBackend_def filepath_Join_def filepath_Clean_def join_slash_def
      file_name_def clean_parts_snoc)

subsection \<open>Properties\<close>

text \<open>
  C3. The third stage, over any backend that keeps the lists of serial numbers, any order in which the
  workers take the issuers, and a context that stays alive: it ends; an issuer is enrolled afterwards
  exactly if it was before or every one of its CRLs was there, signed by it and could be decoded, and
  together they revoke at least one certificate; then its stored list is the serial numbers of all
  its CRLs in order; and the lists of the other issuers are those of before.
\<close>

theorem aggregateCRLs_enrols:
  assumes "crl_stage sb held named os crl_file" and "moz_inv (ae_issuers ae)" and "ctx_Err os (ae_world ae) = None"
    and "\<forall>t \<in> set crlPaths. workable named crl_file (ae_issuers ae) t"
    and "distinct (map (\<lambda>t. Issuer_ID (icp_Issuer t)) crlPaths)" and "mset (order crlPaths) = mset crlPaths"
  shows "\<exists>ae'. aggregateCRLs lib os sb order crlPaths ae = Done ae' \<and>
    (\<forall>j. IsIssuerEnrolled (ae_issuers ae') j \<longleftrightarrow> IsIssuerEnrolled (ae_issuers ae) j \<or>
       (\<exists>t \<in> set crlPaths. enrols lib os ae t \<and> Issuer_ID (icp_Issuer t) = Issuer_ID j)) \<and>
    (\<forall>t \<in> set crlPaths. enrols lib os ae t \<longrightarrow>
       held (ae_world ae') (Issuer_ID (icp_Issuer t)) = Some (revoked lib os ae t)) \<and>
    (\<forall>k. named k \<longrightarrow> (\<forall>t \<in> set crlPaths. enrols lib os ae t \<longrightarrow> k \<noteq> Issuer_ID (icp_Issuer t)) \<longrightarrow>
       held (ae_world ae') k = held (ae_world ae) k)"
proof -
  have s: "set (order crlPaths) = set crlPaths" using assms(6) by (rule mset_eq_setD)
  have "distinct (map (\<lambda>t. Issuer_ID (icp_Issuer t)) (order crlPaths))"
    using assms(5,6) by (metis mset_eq_imp_distinct_iff mset_map)
  from crl_stage.aggregate_all [OF assms(1-3), of "order crlPaths" lib] this show ?thesis
    using assms(4) by (simp add: s aggregateCRLs_def)
qed

definition sample_crl_sim :: sim where
  "sample_crl_sim = empty_sim\<lparr>sim_files := [''f'' \<mapsto> ([1], 5)]\<rparr>"

definition sample_tuple :: IssuerCrlUrlPaths where
  "sample_tuple = \<lparr>icp_Issuer = sample_ca, IssuerDN = ''A'', CrlUrlPaths = [\<lparr>up_Url = sample_url, up_Path = ''f''\<rparr>]\<rparr>"

lemma sample_revoked:
  "revoked sample_crl_lib sim_os (sample_engine sample_crl_sim) sample_tuple = [Serial [0, 0xA5]]"
  "enrols sample_crl_lib sim_os (sample_engine sample_crl_sim) sample_tuple"
proof -
  have c: "crl_serials sample_crl_lib sim_os cert (ae_world (sample_engine sample_crl_sim)) \<lparr>up_Url = sample_url, up_Path = ''f''\<rparr> =
      Some [Serial [0, 0xA5]]" for cert
    using process_crl_tbs
    by (simp add: crl_serials_def loadAndCheckSignatureOfCRL_def sim.read_content sim_content_def sample_engine_def
        sample_crl_sim_def) (simp add: sample_crl_lib_def)
  show "revoked sample_crl_lib sim_os (sample_engine sample_crl_sim) sample_tuple = [Serial [0, 0xA5]]"
    "enrols sample_crl_lib sim_os (sample_engine sample_crl_sim) sample_tuple"
    by (simp_all add: revoked_def enrols_def complete_def all_serials_def sample_tuple_def c)
qed

theorem aggregateCRLs_enrols_witness:
  "\<exists>ae'. aggregateCRLs sample_crl_lib sim_os (LocalDisk_ops sample_codec sim_os (NewLocalDiskBackend ''r'')) rev
      [sample_tuple] (sample_engine sample_crl_sim) = Done ae' \<and>
    IsIssuerEnrolled (ae_issuers ae') sample_ca \<and>
    Option.bind (sim_content (ae_world ae') (known_path (NewLocalDiskBackend ''r'') (Issuer_ID sample_ca))) read_known =
      Some [Serial [0, 0xA5]]"
proof -
  have "outside_known (NewLocalDiskBackend ''r'') ''f''" by (auto simp: outside_known_def known_path_r)
  then have "workable file_name (outside_known (NewLocalDiskBackend ''r'')) (ae_issuers (sample_engine sample_crl_sim)) sample_tuple"
    using sample_engine_cert file_name_NewIssuer [of "text_cert ''A''"]
    by (simp add: workable_def sample_tuple_def sample_ca_def)
  then show ?thesis
    using aggregateCRLs_enrols [OF sim_crls.crl_stage_axioms sample_engine_inv, of sample_crl_sim "[sample_tuple]" rev sample_crl_lib]
      sample_revoked
    by (fastforce simp: sample_tuple_def sample_engine_def sample_crl_sim_def empty_sim_def)
qed

text \<open>
  C13. Fetching one CRL, on any disk: without an error the worker returns the path of the CRL and with one it
  returns no path; once the directory is made, it succeeds exactly if the file at that path is a CRL
  signed by the issuer when the call returns, be it new or of an earlier run; a signed CRL that was
  there is never replaced by one that is not; and no other file but the temporary one changes.
\<close>

theorem fetched_crl_signed:
  assumes "disk os content" and "moz_inv (ae_issuers ae)" and "issuer_cert (ae_issuers ae) issuer = Done cert"
  shows "\<exists>path err ae'. crlFetchWorkerProcessOne lib os crlpath u issuer ae = Done ((path, err), ae') \<and>
    (err = None \<longrightarrow> path = crl_path crlpath issuer u) \<and> (err \<noteq> None \<longrightarrow> path = []) \<and>
    (if fst (os_MkdirAll os (filepath_Join [crlpath, Issuer_ID issuer]) (ae_world ae)) = None
     then err = None \<longleftrightarrow> signed_crl lib cert (content (ae_world ae') (crl_path crlpath issuer u)) else err \<noteq> None) \<and>
    (signed_crl lib cert (content (ae_world ae) (crl_path crlpath issuer u)) \<longrightarrow>
       signed_crl lib cert (content (ae_world ae') (crl_path crlpath issuer u))) \<and>
    (\<forall>q. q \<noteq> crl_path crlpath issuer u \<longrightarrow> q \<noteq> tmp_path (crl_path crlpath issuer u) \<longrightarrow>
       content (ae_world ae') q = content (ae_world ae) q) \<and> ae_issuers ae' = ae_issuers ae"
  using disk.fetch_one [OF assms] .

theorem fetched_crl_signed_witness:
  "\<exists>path err ae'. crlFetchWorkerProcessOne sample_crl_lib sim_os ''c'' sample_url sample_ca (sample_engine empty_sim) =
     Done ((path, err), ae') \<and> (err \<noteq> None \<longrightarrow> path = [])"
  using fetched_crl_signed [OF sim.disk_axioms sample_engine_inv sample_engine_cert, of sample_crl_lib "''c''" sample_url empty_sim]
  by blast

text \<open>
  C14. The first stage, over any cache whose reads see its live members, however the issuers are dealt to
  the workers, when no worker and not the final choice sees the context done (the stage is not
  interrupted), when the keys of the cache can be listed and the metadata objects
  stand under their issuers: when it returns, every issuer of the root program for which the cache has
  certificates is mapped to the CRL URLs the cache knows for it, and no other issuer to any.
\<close>

theorem identified_crls:
  assumes "reading_cache rc ok live now" and "\<And>xs. set (concat (deal xs)) = set xs"
    and "GetIssuerAndDatesFromCache rc now db = Done (Inr issuerList, db1)"
    and "ok (extCache db1)" and "metas_filed db"
    and "identifyCrlsByIssuer rc now False (\<lambda>_. False) deal mi db = Done (r, db')"
  shows "\<exists>m. r = Some m \<and> (\<forall>k. crls_of m k =
    (if \<exists>d \<in> set issuerList. Issuer_ID (idt_Issuer d) = k \<and> IsIssuerInProgram mi (idt_Issuer d)
     then live (extCache db1) (crl_key k) else {}))"
  by (rule reading_cache.identify_finds [OF assms(1,2,3,4,5,6)])

text \<open>A cache with one set of serial numbers and one CRL of an issuer of the program.\<close>

definition id_cache :: MockRemoteCache where
  "id_cache = \<lparr>Data = [(''serials::2020-01-01::ca'', [''x'']), (''crl::ca'', [''http://ca/a.crl''])], Expirations = [], Duplicate = 0\<rparr>"

definition id_db :: "(unit, MockRemoteCache, unit) FilesystemDatabase" where
  "id_db = NewFilesystemDatabase () id_cache ()"

definition id_moz :: MozIssuers where
  "id_moz = (NewMozillaIssuers ''t'')\<lparr>issuerMap := [(''ca'', \<lparr>certs = [mk_ic (text_cert ''A'') ''A''], enrolled = False\<rparr>)]\<rparr>"

theorem identified_crls_witness:
  "\<exists>m db'. identifyCrlsByIssuer (MockRemoteCache_ops sample_codec) 0 False (\<lambda>_. False) (\<lambda>xs. [[], xs]) id_moz id_db = Done (Some m, db') \<and>
     crls_of m ''ca'' = {''http://ca/a.crl''}"
proof -
  let ?rc = "MockRemoteCache_ops sample_codec"
  have "case GetIssuerAndDatesFromCache ?rc 0 id_db of
      Done (Inr ds, db1) \<Rightarrow> extCache db1 = id_cache \<and> map (Issuer_ID \<circ> idt_Issuer) ds = [''ca''] | _ \<Rightarrow> False" by code_simp
  then obtain ds db1 where g: "GetIssuerAndDatesFromCache ?rc 0 id_db = Done (Inr ds, db1)" "extCache db1 = id_cache"
    and "map (Issuer_ID \<circ> idt_Issuer) ds = [''ca'']"
    by (cases "GetIssuerAndDatesFromCache ?rc 0 id_db") (fastforce split: sum.splits)+
  then obtain d where ds: "ds = [d]" "Issuer_ID (idt_Issuer d) = ''ca''" by auto
  have "case identifyCrlsByIssuer ?rc 0 False (\<lambda>_. False) (\<lambda>xs. [[], xs]) id_moz id_db of Done _ \<Rightarrow> True | _ \<Rightarrow> False" by code_simp
  then obtain r db' where r: "identifyCrlsByIssuer ?rc 0 False (\<lambda>_. False) (\<lambda>xs. [[], xs]) id_moz id_db = Done (r, db')"
    by (auto split: run.splits)
  have i: "mock_inv (extCache db1)" by (simp add: g(2) id_cache_def mock_inv_def)
  have f: "metas_filed id_db" by (simp add: metas_filed_def id_db_def NewFilesystemDatabase_def)
  have l: "mock_live 0 (extCache db1) (crl_key ''ca'') = {''http://ca/a.crl''}"
    by (simp add: g(2) id_cache_def mock_live_def mock_alive_def mock_members_def crl_key_def crlId_def im_id_def
        NewIssuerMetadata_def data_at_def kCrls_def)
  have p: "IsIssuerInProgram id_moz (idt_Issuer d)" using ds by (simp add: IsIssuerInProgram_def id_moz_def)
  obtain m where m: "r = Some m" "\<forall>k. crls_of m k = (if \<exists>d \<in> set ds. Issuer_ID (idt_Issuer d) = k \<and> IsIssuerInProgram id_moz (idt_Issuer d)
     then mock_live 0 (extCache db1) (crl_key k) else {})"
    using identified_crls [OF mock_reads.reading_cache_axioms _ g(1) i f r] by auto
  then have "crls_of m ''ca'' = {''http://ca/a.crl''}" using l ds p by (simp only: ds(1)) simp
  with m(1) r show ?thesis by blast
qed

text \<open>
  C32. Two CRL URLs whose file names are equal agree on the first eight octets of their SHA-256 digests: the
  host and the last part of the path in the name never make two URLs share a file. A name has no
  slash unless the host has one or the path is nothing but slashes; there it has one, and the file
  would lie in a directory of its own.
\<close>

theorem crl_file_names:
  "(makeFilenameFromUrl u = makeFilenameFromUrl v \<longrightarrow>
     take 8 (sha256_Sum256 (bytes_of_string (url_String u))) = take 8 (sha256_Sum256 (bytes_of_string (url_String v)))) \<and>
   (CHR ''/'' \<notin> set (url_Hostname u) \<longrightarrow> (CHR ''/'' \<in> set (makeFilenameFromUrl u) \<longleftrightarrow> path_Base (url_Path u) = ''/''))"
  using makeFilename_hash makeFilename_slash by blast

theorem crl_file_names_witness:
  "CHR ''/'' \<notin> set (makeFilenameFromUrl sample_url) \<and>
   CHR ''/'' \<in> set (makeFilenameFromUrl (sample_url\<lparr>url_Path := ''/''\<rparr>))"
  using crl_file_names [of sample_url, THEN conjunct2] crl_file_names [of "sample_url\<lparr>url_Path := ''/''\<rparr>", THEN conjunct2]
  by (simp add: sample_url_def url_Hostname_def path_Base_def)

end
