(* ===== verification/Aggregate_Known.thy ===== *)
theory Aggregate_Known
  imports "HOL-Library.Multiset" Root_Program Filesystem_Database Local_Disk
begin

text \<open>
  \<^verbatim>\<open>cmd/aggregate-known/aggregate-known.go\<close>: for every enrolled issuer, collect the serial numbers that the
  remote cache has for its unexpired dates and store them as one list.

  \<open>sched\<close> says, for a unit of work and the number of a date in it, whether the worker sees the quit
  signal there and what the clock shows; \<open>deal\<close> says which worker gets which units. Workers share the
  cache and the disk; one at a time handles its units, and the theorem holds for every \<open>deal\<close>.
  Progress bars and log lines are left out.

  The lemmas show that the channel of work units never overflows, that the count the code checks
  agrees with the list, and which lists are stored. The laws of the cache and of the store are the
  locales \<open>reading_cache\<close> and \<open>known_lists\<close>; the locale \<open>known_stage\<close> puts them together and is
  interpreted on the mock cache and the local disk backend.
\<close>

record knownWorkUnit =
  wu_issuer :: Issuer
  wu_issuerDN :: string
  wu_expDates :: "ExpDate list"

subsection \<open>Workers\<close>

text \<open>The dates of one unit; \<open>None\<close> when the worker quit.\<close>

fun known_dates ::
  "'c RemoteCache \<Rightarrow> (nat \<Rightarrow> bool \<times> time) \<Rightarrow> Issuer \<Rightarrow> nat \<Rightarrow> ExpDate list \<Rightarrow> int \<Rightarrow> Serial list \<Rightarrow> 'c
    \<Rightarrow> (Serial list option \<times> 'c) run" where
  "known_dates rc sched issuer n [] serialCount serials c = Done (Some serials, c)"
| "known_dates rc sched issuer n (expDate # expDates) serialCount serials c =
     (let (quit, now) = sched n
      in if quit then Done (None, c)
         else if IsExpiredAt expDate now then known_dates rc sched issuer (Suc n) expDates serialCount serials c
         else
           run_bind (Known rc (NewKnownCertificates expDate issuer) now c) (\<lambda>(knownSet, c1).
             let serials1 = serials @ knownSet; serialCount1 = serialCount + int (length knownSet)
             in if int (length serials1) \<noteq> serialCount1
                then Fatal (''expDate='' @ ExpDate_String expDate @ '' issuer='' @ Issuer_ID issuer
                  @ '' serial count math error! expected '' @ show_int serialCount1 @ '' but got '' @ show_int (int (length serials1)))
                else known_dates rc sched issuer (Suc n) expDates serialCount1 serials1 c1))"

fun knownWorker_run ::
  "'c RemoteCache \<Rightarrow> 'b StorageBackend \<Rightarrow> (knownWorkUnit \<Rightarrow> nat \<Rightarrow> bool \<times> time) \<Rightarrow> knownWorkUnit list \<Rightarrow> 'c \<times> 'b
    \<Rightarrow> ('c \<times> 'b) run" where
  "knownWorker_run rc sb sched [] st = Done st"
| "knownWorker_run rc sb sched (tuple # workChan) (c, b) =
     run_bind (known_dates rc (sched tuple) (wu_issuer tuple) 0 (wu_expDates tuple) 0 [] c) (\<lambda>(r, c1).
       case r of
         None \<Rightarrow> Done (c1, b)
       | Some serials \<Rightarrow>
           (case sb_StoreKnownCertificateList sb (wu_issuer tuple) serials b of
              (Some err, _) \<Rightarrow> Fatal (''['' @ Issuer_ID (wu_issuer tuple) @ ''] Could not save known certificates file: '' @ err_text err)
            | (None, b1) \<Rightarrow> knownWorker_run rc sb sched workChan (c1, b1)))"

fun knownWorkers ::
  "'c RemoteCache \<Rightarrow> 'b StorageBackend \<Rightarrow> (knownWorkUnit \<Rightarrow> nat \<Rightarrow> bool \<times> time) \<Rightarrow> knownWorkUnit list list \<Rightarrow> 'c \<times> 'b
    \<Rightarrow> ('c \<times> 'b) run" where
  "knownWorkers rc sb sched [] st = Done st"
| "knownWorkers rc sb sched (units # parts) st =
     run_bind (knownWorker_run rc sb sched units st) (knownWorkers rc sb sched parts)"

subsection \<open>The list of work\<close>

text \<open>The first loop: the capacity of the channel. It asks for the subjects of skipped issuers, for the log.\<close>

fun count_dates :: "MozIssuers \<Rightarrow> IssuerDate list \<Rightarrow> int \<Rightarrow> int run" where
  "count_dates mi [] cnt = Done cnt"
| "count_dates mi (iObj # issuerList) cnt =
     (if IsIssuerEnrolled mi (idt_Issuer iObj) then count_dates mi issuerList (cnt + int (length (ExpDates iObj)))
      else if IsIssuerInProgram mi (idt_Issuer iObj)
      then run_bind (GetSubjectForIssuer mi (idt_Issuer iObj)) (\<lambda>_. count_dates mi issuerList cnt)
      else count_dates mi issuerList cnt)"

text \<open>The second loop: the channel, which holds at most \<open>cnt\<close> units.\<close>

fun known_work :: "MozIssuers \<Rightarrow> int \<Rightarrow> IssuerDate list \<Rightarrow> knownWorkUnit list \<Rightarrow> knownWorkUnit list run" where
  "known_work mi cnt [] workChan = Done workChan"
| "known_work mi cnt (iObj # issuerList) workChan =
     (if \<not> IsIssuerEnrolled mi (idt_Issuer iObj) then known_work mi cnt issuerList workChan
      else
        run_bind (GetSubjectForIssuer mi (idt_Issuer iObj)) (\<lambda>s.
          let issuerSubj = (case s of Inl err \<Rightarrow> ''<unknown>'' | Inr subj \<Rightarrow> subj);
              wu = \<lparr>wu_issuer = idt_Issuer iObj, wu_issuerDN = issuerSubj, wu_expDates = ExpDates iObj\<rparr>
          in if int (length workChan) < cnt then known_work mi cnt issuerList (workChan @ [wu])
             else Fatal ''Channel overflow''))"

text \<open>
  The body of \<^verbatim>\<open>main\<close> from loading the issuers on. The call of \<^verbatim>\<open>GetIssuers\<close> for the log line after
  loading, which only counts, is left out.
\<close>

definition aggregate_known_main ::
  "x509_lib \<Rightarrow> (bytes \<Rightarrow> go_error + EnrolledIssuer list) \<Rightarrow> 'w os_ops \<Rightarrow> string \<Rightarrow> string \<Rightarrow> 'c RemoteCache \<Rightarrow> 'w StorageBackend
    \<Rightarrow> time \<Rightarrow> (knownWorkUnit \<Rightarrow> nat \<Rightarrow> bool \<times> time) \<Rightarrow> (knownWorkUnit list \<Rightarrow> knownWorkUnit list list)
    \<Rightarrow> ('b, 'c, 'g) FilesystemDatabase \<Rightarrow> 'w \<Rightarrow> ('c \<times> 'w) run" where
  "aggregate_known_main lib dec os tmp enrolledpath rc sb now sched deal db w =
     (case LoadEnrolledIssuers lib dec os enrolledpath (NewMozillaIssuers tmp) w of
        (Some err, _) \<Rightarrow> Fatal (''Failed to load enrolled issuers from disk: '' @ err_text err)
      | (None, mi) \<Rightarrow>
          run_bind (GetIssuerAndDatesFromCache rc now db) (\<lambda>(r, db1).
            case r of
              Inl err \<Rightarrow> Fatal (err_text err)
            | Inr issuerList \<Rightarrow>
                run_bind (count_dates mi issuerList 0) (\<lambda>cnt.
                  run_bind (known_work mi cnt issuerList []) (\<lambda>workChan.
                    knownWorkers rc sb sched (deal workChan) (extCache db1, w)))))"

subsection \<open>Lemmas: the list of work\<close>

definition listed :: "(string \<times> IssuerDate) list \<Rightarrow> bool" where
  "listed m \<longleftrightarrow> grouped m \<and> (\<forall>(i, d) \<in> set m. ExpDates d \<noteq> [])"

lemma group_keys_listed: "group_keys entries m = Inr m' \<Longrightarrow> listed m \<Longrightarrow> listed m'"
proof (induction entries m rule: group_keys.induct)
  case (2 entry entries m)
  let ?parts = "strings_Split entry ''::''"
  let ?issuer = "NewIssuerFromString (?parts ! 2)"
  let ?x = "Issuer_ID ?issuer"
  have l: "length ?parts = 3" using "2.prems"(1) by (auto simp: Let_def split: if_splits)
  show ?case
  proof (cases "NewExpDate (?parts ! 1)")
    case (Inl err)
    then have "group_keys entries m = Inr m'" using "2.prems"(1) l by (simp add: Let_def)
    then show ?thesis using "2.IH"(1) [OF refl _ refl Inl] l "2.prems"(2) by simp
  next
    case (Inr e)
    let ?m1 = "case map_of m ?x of None \<Rightarrow> AList.update ?x \<lparr>idt_Issuer = ?issuer, ExpDates = []\<rparr> m | Some _ \<Rightarrow> m"
    let ?d = "the (map_of ?m1 ?x)"
    let ?m2 = "AList.update ?x (?d\<lparr>ExpDates := ExpDates ?d @ [e]\<rparr>) ?m1"
    have g: "grouped m" and ne: "\<forall>(i, d) \<in> set m. ExpDates d \<noteq> []" using "2.prems"(2) by (auto simp: listed_def)
    have g1: "grouped ?m1" using g by (auto intro: grouped_update split: option.split)
    have m1: "\<forall>(i, d) \<in> set ?m1. i \<noteq> ?x \<longrightarrow> ExpDates d \<noteq> []"
      using ne g by (auto simp: grouped_def set_update_wf split: option.split)
    have "Issuer_ID (idt_Issuer ?d) = ?x"
      using g by (auto simp: grouped_def dest: map_of_SomeD split: option.split)
    then have "grouped ?m2" using g1 by (intro grouped_update) simp_all
    moreover have "\<forall>(i, d) \<in> set ?m2. ExpDates d \<noteq> []"
      using m1 g1 by (auto simp: grouped_def set_update_wf)
    ultimately have "listed ?m2" by (simp add: listed_def)
    moreover have "group_keys entries ?m2 = Inr m'" using "2.prems"(1) l Inr by (simp add: Let_def)
    ultimately show ?thesis using "2.IH"(2) [OF refl _ refl Inr refl refl] l by simp
  qed
qed simp

lemma listed_issuers:
  assumes "GetIssuerAndDatesFromCache rc now db = Done (Inr ids, db1)"
  shows "distinct (map (\<lambda>d. Issuer_ID (idt_Issuer d)) ids)" and "\<forall>d \<in> set ids. ExpDates d \<noteq> []"
proof -
  obtain entries m where "group_keys entries [] = Inr m" and ids: "ids = map snd m"
    using assms by (cases "rc_KeysToChan rc ''serials::*'' now (extCache db)")
      (auto simp: GetIssuerAndDatesFromCache_def Let_def split: sum.splits option.splits)
  moreover have "listed []" by (simp add: listed_def grouped_def)
  ultimately have l: "listed m" using group_keys_listed by blast
  have "map (\<lambda>d. Issuer_ID (idt_Issuer d)) ids = map fst m"
    unfolding ids map_map comp_def using l by (intro map_cong) (auto simp: listed_def grouped_def)
  then show "distinct (map (\<lambda>d. Issuer_ID (idt_Issuer d)) ids)" using l by (simp add: listed_def grouped_def)
  show "\<forall>d \<in> set ids. ExpDates d \<noteq> []" using l by (auto simp: ids listed_def)
qed

definition enrolled_dates :: "MozIssuers \<Rightarrow> IssuerDate list \<Rightarrow> IssuerDate list" where
  "enrolled_dates mi ids = filter (\<lambda>d. IsIssuerEnrolled mi (idt_Issuer d)) ids"

lemma subject_total: "moz_inv mi \<Longrightarrow> \<exists>s. GetSubjectForIssuer mi i = Done s"
  by (cases "map_of (issuerMap mi) (Issuer_ID i)")
    (auto simp: GetSubjectForIssuer_def first_cert_def dest: moz_invD split: list.split)

lemma count_dates_total:
  "moz_inv mi \<Longrightarrow> count_dates mi ids n = Done (n + int (sum_list (map (\<lambda>d. length (ExpDates d)) (enrolled_dates mi ids))))"
proof (induction ids arbitrary: n)
  case (Cons d ids)
  obtain s where "GetSubjectForIssuer mi (idt_Issuer d) = Done s" using subject_total [OF Cons.prems] by blast
  then show ?case using Cons by (simp add: enrolled_dates_def)
qed (simp add: enrolled_dates_def)

text \<open>The unit of an issuer; its name in the log does not matter.\<close>

definition unit_of :: "MozIssuers \<Rightarrow> IssuerDate \<Rightarrow> knownWorkUnit" where
  "unit_of mi d =
     \<lparr>wu_issuer = idt_Issuer d,
      wu_issuerDN = (case GetSubjectForIssuer mi (idt_Issuer d) of Done (Inr subj) \<Rightarrow> subj | _ \<Rightarrow> ''<unknown>''),
      wu_expDates = ExpDates d\<rparr>"

lemma known_work_total:
  "moz_inv mi \<Longrightarrow> int (length ch) + int (length (enrolled_dates mi ids)) \<le> cnt \<Longrightarrow>
   known_work mi cnt ids ch = Done (ch @ map (unit_of mi) (enrolled_dates mi ids))"
proof (induction ids arbitrary: ch)
  case (Cons d ids)
  obtain s where s: "GetSubjectForIssuer mi (idt_Issuer d) = Done s" using subject_total [OF Cons.prems(1)] by blast
  show ?case
  proof (cases "IsIssuerEnrolled mi (idt_Issuer d)")
    case True
    then show ?thesis using Cons.IH [OF Cons.prems(1), of "ch @ [unit_of mi d]"] Cons.prems(2) s
      by (auto simp: enrolled_dates_def unit_of_def Let_def split: sum.splits)
  qed (use Cons in \<open>simp add: enrolled_dates_def\<close>)
qed (simp add: enrolled_dates_def)

lemma length_le_sum: "\<forall>d \<in> set ds. 1 \<le> f d \<Longrightarrow> length ds \<le> sum_list (map f ds)" for f :: "'a \<Rightarrow> nat"
  by (induction ds) auto

text \<open>Every listed issuer has a date, so the channel is large enough.\<close>

lemma work_of_issuers:
  assumes "moz_inv mi" and "\<forall>d \<in> set ids. ExpDates d \<noteq> []"
  shows "run_bind (count_dates mi ids 0) (\<lambda>cnt. known_work mi cnt ids []) =
    Done (map (unit_of mi) (enrolled_dates mi ids))"
proof -
  let ?ds = "enrolled_dates mi ids"
  have "\<forall>d \<in> set ?ds. 1 \<le> length (ExpDates d)" using assms(2) by (auto simp: enrolled_dates_def Suc_le_eq)
  then have "length ?ds \<le> sum_list (map (\<lambda>d. length (ExpDates d)) ?ds)" by (rule length_le_sum)
  then show ?thesis using assms(1) by (simp add: count_dates_total known_work_total)
qed

subsection \<open>Lemmas: the workers\<close>

text \<open>The serial numbers the cache has for an issuer and the dates that have not passed.\<close>

definition known_at :: "('c \<Rightarrow> string \<Rightarrow> string set) \<Rightarrow> time \<Rightarrow> 'c \<Rightarrow> Issuer \<Rightarrow> ExpDate list \<Rightarrow> Serial set" where
  "known_at live now c i es =
     (\<Union>e \<in> {e \<in> set es. \<not> IsExpiredAt e now}. serials_of (live c (serialId (NewKnownCertificates e i) [])))"

locale known_stage = known_lists sb lists named + reading_cache rc inv live now
  for sb :: "'w StorageBackend" and lists :: "'w \<Rightarrow> string \<Rightarrow> Serial list option" and named :: "string \<Rightarrow> bool"
    and rc :: "'c RemoteCache" and inv :: "'c \<Rightarrow> bool" and live :: "'c \<Rightarrow> string \<Rightarrow> string set" and now :: time +
  fixes ready :: "'w \<Rightarrow> bool"
  assumes store_ok: "ready w \<Longrightarrow> named (Issuer_ID i) \<Longrightarrow>
      \<exists>w'. sb_StoreKnownCertificateList sb i ss w = (None, w') \<and> ready w'"
    and read_ok: "inv c \<Longrightarrow> \<exists>xs c'. rc_SetToChan rc k now c = Done ((xs, None), c')"
begin

lemma Known_reads:
  assumes "inv c"
  shows "\<exists>ss c'. Known rc kc now c = Done (ss, c') \<and> set ss = serials_of (live c (serialId kc [])) \<and> inv c' \<and> live c' = live c"
proof -
  obtain xs c' where x: "rc_SetToChan rc (serialId kc []) now c = Done ((xs, None), c')" using read_ok [OF assms] by blast
  from chan_reads [OF assms x] show ?thesis
    by (intro exI [of _ "map (\<lambda>str. Serial (bytes_of_string str)) (remdups xs)"] exI [of _ c'])
      (simp add: Known_def x known_decode set_known_decode)
qed

lemma known_dates_total:
  assumes "inv c" and "cnt = int (length ss)"
  shows "\<exists>ss' c'. known_dates rc (\<lambda>_. (False, now)) i n es cnt ss c = Done (Some ss', c') \<and>
    set ss' = set ss \<union> known_at live now c i es \<and> inv c' \<and> live c' = live c"
  using assms
proof (induction es arbitrary: n cnt ss c)
  case (Cons e es)
  show ?case
  proof (cases "IsExpiredAt e now")
    case True
    then have s: "{x. (x = e \<or> x \<in> set es) \<and> \<not> IsExpiredAt x now} = {x \<in> set es. \<not> IsExpiredAt x now}" by auto
    show ?thesis using Cons.IH [OF Cons.prems, of "Suc n"] True by (simp add: known_at_def s)
  next
    case False
    obtain ks c1 where k: "Known rc (NewKnownCertificates e i) now c = Done (ks, c1)"
      "set ks = serials_of (live c (serialId (NewKnownCertificates e i) []))" "inv c1" "live c1 = live c"
      using Known_reads [OF Cons.prems(1)] by blast
    from False have s: "{x. (x = e \<or> x \<in> set es) \<and> \<not> IsExpiredAt x now} = insert e {x \<in> set es. \<not> IsExpiredAt x now}" by auto
    have "\<exists>ss' c'. known_dates rc (\<lambda>_. (False, now)) i (Suc n) es (cnt + int (length ks)) (ss @ ks) c1 = Done (Some ss', c') \<and>
      set ss' = set (ss @ ks) \<union> known_at live now c1 i es \<and> inv c' \<and> live c' = live c1"
      using Cons.prems(2) by (intro Cons.IH [OF k(3)]) simp
    then show ?thesis using False k Cons.prems(2) by (auto simp: known_at_def s Un_assoc)
  qed
qed (simp add: known_at_def)

lemma worker_stores:
  assumes "inv c" and "ready b" and "\<forall>u \<in> set us. named (Issuer_ID (wu_issuer u))"
    and "distinct (map (\<lambda>u. Issuer_ID (wu_issuer u)) us)"
  shows "\<exists>c' b'. knownWorker_run rc sb (\<lambda>_ _. (False, now)) us (c, b) = Done (c', b') \<and> inv c' \<and> ready b' \<and> live c' = live c \<and>
    (\<forall>u \<in> set us. \<exists>ss. lists b' (Issuer_ID (wu_issuer u)) = Some ss \<and> set ss = known_at live now c (wu_issuer u) (wu_expDates u)) \<and>
    (\<forall>k. named k \<longrightarrow> k \<notin> (\<lambda>u. Issuer_ID (wu_issuer u)) ` set us \<longrightarrow> lists b' k = lists b k)"
  using assms
proof (induction us arbitrary: c b)
  case (Cons u us)
  let ?k = "Issuer_ID (wu_issuer u)"
  obtain ss c1 where k: "known_dates rc (\<lambda>_. (False, now)) (wu_issuer u) 0 (wu_expDates u) 0 [] c = Done (Some ss, c1)"
    "set ss = known_at live now c (wu_issuer u) (wu_expDates u)" "inv c1" "live c1 = live c"
    using known_dates_total [OF Cons.prems(1), of 0 "[]" "wu_issuer u" 0 "wu_expDates u"] by auto
  have nk: "named ?k" using Cons.prems(3) by simp
  then obtain b1 where s: "sb_StoreKnownCertificateList sb (wu_issuer u) ss b = (None, b1)" "ready b1"
    using store_ok [OF Cons.prems(2)] by blast
  have kn: "known_at live now c1 = known_at live now c" by (simp add: known_at_def fun_eq_iff k(4))
  obtain c2 b2 where r: "knownWorker_run rc sb (\<lambda>_ _. (False, now)) us (c1, b1) = Done (c2, b2)" "inv c2" "ready b2" "live c2 = live c1"
    and own: "\<forall>v \<in> set us. \<exists>ss. lists b2 (Issuer_ID (wu_issuer v)) = Some ss \<and> set ss = known_at live now c1 (wu_issuer v) (wu_expDates v)"
    and oth: "\<forall>k. named k \<longrightarrow> k \<notin> (\<lambda>u. Issuer_ID (wu_issuer u)) ` set us \<longrightarrow> lists b2 k = lists b1 k"
    using Cons.IH [OF k(3) s(2)] Cons.prems(3,4) by auto
  have "lists b2 ?k = Some ss" using oth nk Cons.prems(4) store_known [OF s(1) nk] by auto
  then show ?case using k r own oth s store_other [OF s(1) nk] kn by auto
qed simp

lemma workers_store:
  assumes "inv c" and "ready b" and "\<forall>u \<in> set (concat parts). named (Issuer_ID (wu_issuer u))"
    and "distinct (map (\<lambda>u. Issuer_ID (wu_issuer u)) (concat parts))"
  shows "\<exists>c' b'. knownWorkers rc sb (\<lambda>_ _. (False, now)) parts (c, b) = Done (c', b') \<and>
    (\<forall>u \<in> set (concat parts). \<exists>ss. lists b' (Issuer_ID (wu_issuer u)) = Some ss \<and>
       set ss = known_at live now c (wu_issuer u) (wu_expDates u)) \<and>
    (\<forall>k. named k \<longrightarrow> k \<notin> (\<lambda>u. Issuer_ID (wu_issuer u)) ` set (concat parts) \<longrightarrow> lists b' k = lists b k)"
  using assms
proof (induction parts arbitrary: c b)
  case (Cons us parts)
  have n: "\<forall>u \<in> set us. named (Issuer_ID (wu_issuer u))" and d: "distinct (map (\<lambda>u. Issuer_ID (wu_issuer u)) us)"
    using Cons.prems(3,4) by simp_all
  obtain c1 b1 where w: "knownWorker_run rc sb (\<lambda>_ _. (False, now)) us (c, b) = Done (c1, b1)" "inv c1" "ready b1" "live c1 = live c"
    and own: "\<forall>u \<in> set us. \<exists>ss. lists b1 (Issuer_ID (wu_issuer u)) = Some ss \<and> set ss = known_at live now c (wu_issuer u) (wu_expDates u)"
    and oth: "\<forall>k. named k \<longrightarrow> k \<notin> (\<lambda>u. Issuer_ID (wu_issuer u)) ` set us \<longrightarrow> lists b1 k = lists b k"
    using worker_stores [OF Cons.prems(1,2) n d] by blast
  have kn: "known_at live now c1 = known_at live now c" by (simp add: known_at_def fun_eq_iff w(4))
  obtain c2 b2 where r: "knownWorkers rc sb (\<lambda>_ _. (False, now)) parts (c1, b1) = Done (c2, b2)"
    and own2: "\<forall>u \<in> set (concat parts). \<exists>ss. lists b2 (Issuer_ID (wu_issuer u)) = Some ss \<and>
       set ss = known_at live now c (wu_issuer u) (wu_expDates u)"
    and oth2: "\<forall>k. named k \<longrightarrow> k \<notin> (\<lambda>u. Issuer_ID (wu_issuer u)) ` set (concat parts) \<longrightarrow> lists b2 k = lists b1 k"
    using Cons.IH [OF w(2,3)] Cons.prems(3,4) unfolding kn by auto
  have "\<exists>ss. lists b2 (Issuer_ID (wu_issuer u)) = Some ss \<and> set ss = known_at live now c (wu_issuer u) (wu_expDates u)"
    if u: "u \<in> set us" for u
  proof -
    have "Issuer_ID (wu_issuer u) \<notin> (\<lambda>u. Issuer_ID (wu_issuer u)) ` set (concat parts)" using Cons.prems(4) u by force
    then show ?thesis using oth2 own n u by auto
  qed
  moreover have "lists b2 k = lists b k"
    if "named k" "k \<notin> (\<lambda>u. Issuer_ID (wu_issuer u)) ` set (concat (us # parts))" for k
    using that oth oth2 unfolding concat.simps set_append image_Un by (metis UnI1 UnI2)
  ultimately show ?case using w(1) r own2 by auto
qed simp

end

subsection \<open>The stage on the mock cache and the local disk\<close>

interpretation sim_known: known_stage "LocalDisk_ops sample_codec sim_os (NewLocalDiskBackend ''r'')"
  "\<lambda>w k. Option.bind (sim_content w (known_path (NewLocalDiskBackend ''r'') k)) read_known" file_name
  "MockRemoteCache_ops sample_codec" mock_inv "mock_live now" now "\<lambda>w. \<not> sim_cancelled w"
proof unfold_locales
  show "\<exists>w'. sb_StoreKnownCertificateList (LocalDisk_ops sample_codec sim_os (NewLocalDiskBackend ''r'')) i ss w = (None, w') \<and>
      \<not> sim_cancelled w'" if "\<not> sim_cancelled w" for i ss w
    using store_known_sim [OF that] by (simp add: LocalDisk_ops_def)
  show "\<exists>xs c'. rc_SetToChan (MockRemoteCache_ops sample_codec) k now c = Done ((xs, None), c')" for c k
    by (simp add: MockRemoteCache_ops_def Mock_SetToChan_def Let_def)
qed

text \<open>The whole program, as what it leaves for the issuers that are listed and enrolled.\<close>

lemma known_main:
  assumes "known_stage sb held named rc ok live now ready"
    and "LoadEnrolledIssuers lib dec os enrolledpath (NewMozillaIssuers tmp) w = (None, mi)"
    and "GetIssuerAndDatesFromCache rc now db = Done (Inr issuerList, db1)" and "ok (extCache db1)" and "ready w"
    and "\<forall>d \<in> set (enrolled_dates mi issuerList). named (Issuer_ID (idt_Issuer d))"
    and "\<And>us. mset (concat (deal us)) = mset us"
  shows "\<exists>c' w'. aggregate_known_main lib dec os tmp enrolledpath rc sb now (\<lambda>_ _. (False, now)) deal db w = Done (c', w') \<and>
    (\<forall>d \<in> set (enrolled_dates mi issuerList). \<exists>ss. held w' (Issuer_ID (idt_Issuer d)) = Some ss \<and>
       set ss = known_at live now (extCache db1) (idt_Issuer d) (ExpDates d)) \<and>
    (\<forall>k. named k \<longrightarrow> k \<notin> (\<lambda>d. Issuer_ID (idt_Issuer d)) ` set (enrolled_dates mi issuerList) \<longrightarrow> held w' k = held w k)"
proof -
  let ?us = "map (unit_of mi) (enrolled_dates mi issuerList)"
  have mi: "moz_inv mi" using assms(2) moz_inv_load [OF moz_inv_New, of lib _ tmp]
    by (auto simp: LoadEnrolledIssuers_def split: sum.splits) (metis snd_conv)
  note l = listed_issuers [OF assms(3)]
  have main: "aggregate_known_main lib dec os tmp enrolledpath rc sb now (\<lambda>_ _. (False, now)) deal db w =
      knownWorkers rc sb (\<lambda>_ _. (False, now)) (deal ?us) (extCache db1, w)"
    using work_of_issuers [OF mi l(2)] mi by (simp add: aggregate_known_main_def assms(2,3) count_dates_total)
  have s: "set (concat (deal ?us)) = set ?us" using assms(7) [of ?us] by (metis set_mset_mset)
  have u: "(\<lambda>u. Issuer_ID (wu_issuer u)) \<circ> unit_of mi = (\<lambda>d. Issuer_ID (idt_Issuer d))" by (auto simp: unit_of_def)
  have "distinct (map (\<lambda>u. Issuer_ID (wu_issuer u)) ?us)"
    using l(1) unfolding map_map u enrolled_dates_def by (rule distinct_map_filter)
  then have d: "distinct (map (\<lambda>u. Issuer_ID (wu_issuer u)) (concat (deal ?us)))"
    using assms(7) [of ?us] by (metis mset_eq_imp_distinct_iff mset_map)
  have n: "\<forall>u \<in> set (concat (deal ?us)). named (Issuer_ID (wu_issuer u))"
    using assms(6) unfolding s by (auto simp: unit_of_def)
  show ?thesis
    using known_stage.workers_store [OF assms(1,4,5) n d] unfolding main s
    by (fastforce simp: unit_of_def)
qed

subsection \<open>Properties\<close>

text \<open>
  C6. \<^verbatim>\<open>aggregate-known\<close>, over any cache and backend that keep their laws and however the work is dealt to
  the workers, when the enrolled issuers could be loaded, the cache could be listed, and no signal
  interrupts it: the channel of work does not overflow, the count of serial numbers never
  disagrees with the list, and the program ends; each enrolled issuer the cache lists then has a
  list with exactly the serial numbers the cache holds for its dates that have not expired, and the
  lists of the other issuers are those of before.
\<close>

theorem known_lists_stored:
  assumes "known_stage sb held named rc ok live now ready"
    and "LoadEnrolledIssuers lib dec os enrolledpath (NewMozillaIssuers tmp) w = (None, mi)"
    and "GetIssuerAndDatesFromCache rc now db = Done (Inr issuerList, db1)" and "ok (extCache db1)" and "ready w"
    and "\<forall>d \<in> set issuerList. named (Issuer_ID (idt_Issuer d))"
    and "\<And>us. mset (concat (deal us)) = mset us"
  shows "\<exists>c' w'. aggregate_known_main lib dec os tmp enrolledpath rc sb now (\<lambda>_ _. (False, now)) deal db w = Done (c', w') \<and>
    (\<forall>d \<in> set issuerList. IsIssuerEnrolled mi (idt_Issuer d) \<longrightarrow>
       (\<exists>ss. held w' (Issuer_ID (idt_Issuer d)) = Some ss \<and>
          set ss = known_at live now (extCache db1) (idt_Issuer d) (ExpDates d))) \<and>
    (\<forall>k. named k \<longrightarrow> (\<forall>d \<in> set issuerList. IsIssuerEnrolled mi (idt_Issuer d) \<longrightarrow> k \<noteq> Issuer_ID (idt_Issuer d)) \<longrightarrow>
       held w' k = held w k)"
  using known_main [OF assms(1-5) _ assms(7)] assms(6) by (fastforce simp: enrolled_dates_def)

text \<open>A cache with one set of serial numbers of one enrolled issuer.\<close>

definition kn_issuer :: Issuer where
  "kn_issuer = NewIssuer (text_cert ''A'')"

definition kn_cache :: MockRemoteCache where
  "kn_cache = \<lparr>Data = [(''serials::2030-01-01::'' @ Issuer_ID kn_issuer, [''y''])], Expirations = [], Duplicate = 0\<rparr>"

definition kn_db :: "(unit, MockRemoteCache, unit) FilesystemDatabase" where
  "kn_db = NewFilesystemDatabase () kn_cache ()"

definition kn_list :: "EnrolledIssuer list" where
  "kn_list = [\<lparr>PubKeyHash = [], Whitelist = False, SubjectDN = ''A'', Subject = ''A'', Pem = ''A'', Enrolled = True\<rparr>]"

lemma issuer_chars: "set (Issuer_ID (NewIssuer c)) \<subseteq> insert (CHR ''='') (set b64_alphabet)"
  using set_b64_EncodeToString by (simp add: Sha256DigestURLEncodedBase64_def)

lemma issuer_no_separator: "CHR '':'' \<notin> set (Issuer_ID (NewIssuer c))" "CHR ''/'' \<notin> set (Issuer_ID (NewIssuer c))"
  using issuer_chars [of c] by (auto simp: b64_alphabet_def)

lemmas kn_issuer_no = issuer_no_separator [of "text_cert ''A''", folded kn_issuer_def]

lemma match_star: "CHR ''/'' \<notin> set s \<Longrightarrow> filepath_Match ''*'' s"
  by (induction s) auto

lemma kn_load:
  "\<exists>mi. LoadEnrolledIssuers sample_lib (\<lambda>_. Inr kn_list) sim_os ''f'' (NewMozillaIssuers ''t'') sample_sim = (None, mi) \<and>
     IsIssuerEnrolled mi kn_issuer"
  by (simp add: LoadEnrolledIssuers_def kn_list_def sim.read_content sim_content_def sample_sim_def sample_lib_decode
      case_prod_beta IsIssuerEnrolled_def Enroll_map Insert_map kn_issuer_def cert_id_def)

lemma kn_keys: "\<exists>e. \<not> IsExpiredAt e 0 \<and> GetIssuerAndDatesFromCache (MockRemoteCache_ops sample_codec) 0 kn_db =
    Done (Inr [\<lparr>idt_Issuer = NewIssuerFromString (Issuer_ID kn_issuer), ExpDates = [e]\<rparr>], kn_db) \<and>
    serialId (NewKnownCertificates e (NewIssuerFromString (Issuer_ID kn_issuer))) [] = ''serials::2030-01-01::'' @ Issuer_ID kn_issuer"
proof -
  have "case NewExpDate ''2030-01-01'' of Inl _ \<Rightarrow> False | Inr e \<Rightarrow> \<not> IsExpiredAt e 0" by code_simp
  then obtain e where e: "NewExpDate ''2030-01-01'' = Inr e" "\<not> IsExpiredAt e 0" by (auto split: sum.splits)
  have w: "wf_ExpDate e" "ExpDate_ID e = ''2030-01-01''"
    using NewExpDate_wf [OF e(1)] NewExpDate_text [OF e(1)] by simp_all
  have k: "serialId (NewKnownCertificates e kn_issuer) [] = ''serials::2030-01-01::'' @ Issuer_ID kn_issuer"
    "serialId (NewKnownCertificates e (NewIssuerFromString (Issuer_ID kn_issuer))) [] = ''serials::2030-01-01::'' @ Issuer_ID kn_issuer"
    using w(2) by (simp_all add: serialId_def kc_id_def kSerials_def NewKnownCertificates_def)
  have m: "filepath_Match ''serials::*'' (''serials::2030-01-01::'' @ Issuer_ID kn_issuer)"
    using match_star [of "''2030-01-01::'' @ Issuer_ID kn_issuer"] kn_issuer_no(2) by simp
  have "group_keys [''serials::2030-01-01::'' @ Issuer_ID kn_issuer] [] =
      Inr [(Issuer_ID kn_issuer, \<lparr>idt_Issuer = NewIssuerFromString (Issuer_ID kn_issuer), ExpDates = [e]\<rparr>)]"
    using serial_key_parts [OF w(1) kn_issuer_no(1)] e(1) w(2) unfolding k(1) by simp
  then show ?thesis using m k(2) e(2)
    by (intro exI [of _ e])
      (simp add: GetIssuerAndDatesFromCache_def mock_ops_simps Mock_KeysToChan_def kn_db_def kn_cache_def NewFilesystemDatabase_def)
qed

theorem known_lists_stored_witness:
  "\<exists>c' w' ss. aggregate_known_main sample_lib (\<lambda>_. Inr kn_list) sim_os ''t'' ''f'' (MockRemoteCache_ops sample_codec)
      (LocalDisk_ops sample_codec sim_os (NewLocalDiskBackend ''r'')) 0 (\<lambda>_ _. (False, 0)) (\<lambda>us. [us, []]) kn_db
      sample_sim = Done (c', w') \<and>
    Option.bind (sim_content w' (known_path (NewLocalDiskBackend ''r'') (Issuer_ID kn_issuer))) read_known = Some ss \<and>
    set ss = {Serial (bytes_of_string ''y'')}"
proof -
  obtain mi where mi: "LoadEnrolledIssuers sample_lib (\<lambda>_. Inr kn_list) sim_os ''f'' (NewMozillaIssuers ''t'') sample_sim = (None, mi)"
    "IsIssuerEnrolled mi kn_issuer" using kn_load by blast
  let ?i = "NewIssuerFromString (Issuer_ID kn_issuer)"
  obtain e where e: "\<not> IsExpiredAt e 0"
    and g: "GetIssuerAndDatesFromCache (MockRemoteCache_ops sample_codec) 0 kn_db = Done (Inr [\<lparr>idt_Issuer = ?i, ExpDates = [e]\<rparr>], kn_db)"
    and k: "serialId (NewKnownCertificates e ?i) [] = ''serials::2030-01-01::'' @ Issuer_ID kn_issuer" using kn_keys by blast
  have x: "extCache kn_db = kn_cache" by (simp add: kn_db_def NewFilesystemDatabase_def)
  have c: "mock_inv (extCache kn_db)" unfolding x by (simp add: kn_cache_def mock_inv_def)
  have l: "known_at (mock_live 0) 0 (extCache kn_db) ?i [e] = {Serial (bytes_of_string ''y'')}"
    unfolding x using e k set_known_decode [of "{''y''}"]
    by (simp add: known_at_def mock_live_def mock_alive_def mock_members_def data_at_def kn_cache_def cong: conj_cong)
  have en: "IsIssuerEnrolled mi ?i" using mi(2) by (simp add: IsIssuerEnrolled_def)
  have f: "file_name (Issuer_ID ?i)" using file_name_NewIssuer [of "text_cert ''A''"] by (simp add: kn_issuer_def)
  have r: "\<not> sim_cancelled sample_sim" by (simp add: sample_sim_def)
  show ?thesis
    using known_lists_stored [OF sim_known.known_stage_axioms mi(1) g c r, of "\<lambda>us. [us, []]"] en f l by auto
qed

end
