(* ===== verification/Ct_Fetch.thy ===== *)
theory Ct_Fetch
  imports Root_Program Filesystem_Database
begin

text \<open>
  \<^verbatim>\<open>cmd/ct-fetch/ct-fetch.go\<close>: download the entries of Certificate Transparency logs and hand them to the
  database.

  A log worker fetches ranges of entries and puts them on a channel, from which database threads take
  them. The CT client, the parser of log entries, the clock and the choice that a \<^verbatim>\<open>select\<close> makes are
  the argument \<open>ops\<close>, on a world of their own; the database is an argument \<open>cd\<close> with the operations of
  the interface \<^verbatim>\<open>CertDatabase\<close> that the program uses, and the filesystem database is an instance of it.
  The channel is the list of the entries put on it so far. The loops may run for ever (a server that
  throttles every request, or answers without an entry), so they are partial: \<open>None\<close> is a loop that
  does not return. Progress bars, metrics and log lines are left out.

  Besides the functions there is a step relation \<open>ct_step\<close> over the states of the download loop, for
  what holds at every moment: a process that is killed leaves the database as the last step left it.
\<close>

subsection \<open>Data\<close>

record 'd CertDatabase =
  cd_Cleanup :: "'d \<Rightarrow> go_error option"
  cd_SaveLogState :: "CertificateLog \<Rightarrow> time \<Rightarrow> 'd \<Rightarrow> (go_error option \<times> 'd) run"
  cd_GetLogState :: "url \<Rightarrow> time \<Rightarrow> 'd \<Rightarrow> (CertificateLog res \<times> 'd) run"
  cd_Store :: "Certificate \<Rightarrow> Certificate \<Rightarrow> string \<Rightarrow> 64 word \<Rightarrow> time \<Rightarrow> 'd \<Rightarrow> (go_error option \<times> 'd) run"

definition FilesystemDatabase_ops ::
  "'b StorageBackend \<Rightarrow> 'c RemoteCache \<Rightarrow> 'g gcache_ops \<Rightarrow> url_Parse \<Rightarrow> ('b, 'c, 'g) FilesystemDatabase CertDatabase" where
  "FilesystemDatabase_ops sb rc gc up =
     \<lparr>cd_Cleanup = \<lambda>_. Cleanup, cd_SaveLogState = SaveLogState sb rc, cd_GetLogState = GetLogState sb rc,
      cd_Store = Store sb rc gc up\<rparr>"

text \<open>The flags that the program reads; \<^verbatim>\<open>SavePeriod\<close> as \<^verbatim>\<open>time.ParseDuration\<close> returns it.\<close>

record ct_config =
  cf_Offset :: "64 word"
  cf_Limit :: "64 word"
  LogExpiredEntries :: bool
  IssuerCNFilter :: string
  SavePeriod :: "go_error + duration"
  RunForever :: bool
  LogUrlList :: string

text \<open>A log entry as the CT library returns it. Other entry types have no certificate.\<close>

datatype LogEntryType = X509LogEntryType | PrecertLogEntryType | OtherLogEntryType

record LogEntry =
  le_Index :: "64 word"
  le_Timestamp :: "64 word"
  EntryType :: LogEntryType
  X509Cert :: "Certificate option"
  Precert_Submitted :: "bytes option"
  Chain :: "bytes list"

record CtLogEntry =
  ep_LogEntry :: LogEntry
  ep_LogURL :: string

record ('d, 'w) LogSyncEngine =
  ld_database :: 'd
  entryChan :: "CtLogEntry list"
  lastUpdateTime :: time
  ld_world :: 'w

definition NewLogSyncEngine :: "'d \<Rightarrow> 'w \<Rightarrow> ('d, 'w) LogSyncEngine" where
  "NewLogSyncEngine db w = \<lparr>ld_database = db, entryChan = [], lastUpdateTime = 0, ld_world = w\<rparr>"

definition ApproximateMostRecentUpdateTimestamp :: "('d, 'w) LogSyncEngine \<Rightarrow> time" where
  "ApproximateMostRecentUpdateTimestamp ld = lastUpdateTime ld"

text \<open>An error of the database's cleanup is only logged.\<close>

definition ld_Cleanup :: "'d CertDatabase \<Rightarrow> ('d, 'w) LogSyncEngine \<Rightarrow> ('d, 'w) LogSyncEngine" where
  "ld_Cleanup cd ld = (case cd_Cleanup cd (ld_database ld) of Some err \<Rightarrow> ld | None \<Rightarrow> ld)"

record LogWorker =
  LogURL :: string
  TreeSize :: "64 word"
  LogState :: CertificateLog
  StartPos :: "64 word"
  EndPos :: "64 word"

datatype selected = SignalCaught | SaveTick | Submitted

text \<open>
  What the program uses of the CT library, the runtime and the clock. \<open>LogEntryFromLeaf\<close> returns the
  entry also when its errors are not fatal. \<open>ct_select\<close> is the case that the \<^verbatim>\<open>select\<close> of the submitting
  loop takes, \<open>ct_health\<close> whether the ticker of a database thread has fired, \<open>ct_poll\<close> whether a signal
  came before the next round.
\<close>

record ('l, 'w) ct_ops =
  client_New :: "string \<Rightarrow> go_error option"
  GetSTH :: "string \<Rightarrow> 'w \<Rightarrow> (go_error + 64 word) \<times> 'w"
  GetRawEntries :: "int \<Rightarrow> int \<Rightarrow> 'w \<Rightarrow> (go_error + 'l list) \<times> 'w"
  LogEntryFromLeaf :: "int \<Rightarrow> 'l \<Rightarrow> go_error + LogEntry"
  ct_ParseCertificate :: "bytes \<Rightarrow> go_error + Certificate"
  ct_select :: "'w \<Rightarrow> selected \<times> 'w"
  ct_health :: "'w \<Rightarrow> bool \<times> 'w"
  ct_poll :: "'w \<Rightarrow> bool \<times> 'w"
  ct_Now :: "'w \<Rightarrow> time"

subsection \<open>Database threads\<close>

definition certIsFilteredOut :: "ct_config \<Rightarrow> time \<Rightarrow> Certificate \<Rightarrow> bool" where
  "certIsFilteredOut cf now aCert =
     (if BasicConstraintsValid aCert \<and> IsCA aCert then True
      else if time_Before (NotAfter aCert) now \<and> \<not> LogExpiredEntries cf then True
      else IssuerCNFilter cf \<noteq> [] \<and>
        \<not> list_ex (strings_HasPrefix (cert_Issuer_CommonName aCert)) (strings_Split (IssuerCNFilter cf) '',''))"

text \<open>One entry from the channel.\<close>

definition entry_cert :: "('l, 'w) ct_ops \<Rightarrow> LogEntry \<Rightarrow> (go_error + Certificate option) run" where
  "entry_cert ops e =
     (case EntryType e of
        X509LogEntryType \<Rightarrow> Done (Inr (X509Cert e))
      | PrecertLogEntryType \<Rightarrow>
          (case Precert_Submitted e of
             None \<Rightarrow> Panic ''nil pointer dereference''
           | Some bs \<Rightarrow> Done (case ct_ParseCertificate ops bs of Inl err \<Rightarrow> Inl err | Inr c \<Rightarrow> Inr (Some c)))
      | OtherLogEntryType \<Rightarrow> Done (Inr None))"

definition insert_entry ::
  "ct_config \<Rightarrow> 'd CertDatabase \<Rightarrow> ('l, 'w) ct_ops \<Rightarrow> CtLogEntry \<Rightarrow> ('d, 'w) LogSyncEngine \<Rightarrow> ('d, 'w) LogSyncEngine run" where
  "insert_entry cf cd ops ep ld =
     (let e = ep_LogEntry ep; now = ct_Now ops (ld_world ld) in
      run_bind (entry_cert ops e) (\<lambda>r.
        case r of
          Inl err \<Rightarrow> Done ld
        | Inr None \<Rightarrow> Panic ''nil pointer dereference''
        | Inr (Some cert) \<Rightarrow>
            (if certIsFilteredOut cf now cert then Done ld
             else
               (case Chain e of
                  [] \<Rightarrow> run_bind (NewSerial cert) (\<lambda>_. Done ld)
                | issuer # _ \<Rightarrow>
                    (case ct_ParseCertificate ops issuer of
                       Inl err \<Rightarrow> Done ld
                     | Inr issuingCert \<Rightarrow>
                         run_bind (cd_Store cd cert issuingCert (ep_LogURL ep) (le_Index e) now (ld_database ld))
                           (\<lambda>(err, d1).
                              let (tick, w1) = ct_health ops (ld_world ld) in
                              Done (ld\<lparr>ld_database := d1, ld_world := w1,
                                lastUpdateTime := (if tick then ct_Now ops w1 else lastUpdateTime ld)\<rparr>)))))))"

fun insertCTWorker ::
  "ct_config \<Rightarrow> 'd CertDatabase \<Rightarrow> ('l, 'w) ct_ops \<Rightarrow> CtLogEntry list \<Rightarrow> ('d, 'w) LogSyncEngine \<Rightarrow> ('d, 'w) LogSyncEngine run" where
  "insertCTWorker cf cd ops [] ld = Done ld"
| "insertCTWorker cf cd ops (ep # eps) ld = run_bind (insert_entry cf cd ops ep ld) (insertCTWorker cf cd ops eps)"

subsection \<open>The log worker\<close>

definition uint64ToTimestamp :: "64 word \<Rightarrow> time" where
  "uint64ToTimestamp timestamp = time_Unix (sint (timestamp div 1000)) (sint (timestamp mod 1000))"

definition start_pos :: "ct_config \<Rightarrow> CertificateLog \<Rightarrow> 64 word" where
  "start_pos cf logObj = (if cf_Offset cf > 0 then cf_Offset cf else MaxEntry logObj)"

definition end_pos :: "ct_config \<Rightarrow> 64 word \<Rightarrow> 64 word \<Rightarrow> 64 word" where
  "end_pos cf startPos treeSize =
     (if cf_Limit cf > 0 \<and> startPos + cf_Limit cf < treeSize then startPos + cf_Limit cf else treeSize)"

text \<open>\<^verbatim>\<open>time.NewTicker\<close> panics for a period that is not positive.\<close>

definition NewLogWorker ::
  "ct_config \<Rightarrow> 'd CertDatabase \<Rightarrow> ('l, 'w) ct_ops \<Rightarrow> url_Parse \<Rightarrow> string \<Rightarrow> ('d, 'w) LogSyncEngine
    \<Rightarrow> ((go_error + LogWorker) \<times> ('d, 'w) LogSyncEngine) run" where
  "NewLogWorker cf cd ops up ctLogUrl ld =
     (case client_New ops ctLogUrl of
        Some err \<Rightarrow> Done (Inl err, ld)
      | None \<Rightarrow>
          (case GetSTH ops ctLogUrl (ld_world ld) of
             (Inl err, w1) \<Rightarrow> Done (Inl err, ld\<lparr>ld_world := w1\<rparr>)
           | (Inr treeSize, w1) \<Rightarrow>
               (case up ctLogUrl of
                  Inl err \<Rightarrow> Done (Inl err, ld\<lparr>ld_world := w1\<rparr>)
                | Inr logUrlObj \<Rightarrow>
                    run_bind (cd_GetLogState cd logUrlObj (ct_Now ops w1) (ld_database ld)) (\<lambda>((logObj, err), d1).
                      let ld1 = ld\<lparr>ld_database := d1, ld_world := w1\<rparr>; startPos = start_pos cf logObj in
                      case err of
                        Some e \<Rightarrow> Done (Inl e, ld1)
                      | None \<Rightarrow>
                          (case SavePeriod cf of
                             Inl e \<Rightarrow> Done (Inl e, ld1)
                           | Inr savePeriod \<Rightarrow>
                               (if savePeriod \<le> 0 then Panic ''non-positive interval for NewTicker''
                                else Done (Inr \<lparr>LogURL = ctLogUrl, TreeSize = treeSize, LogState = logObj,
                                  StartPos = startPos, EndPos = end_pos cf startPos treeSize\<rparr>, ld1)))))))"

text \<open>An index that does not fit \<^verbatim>\<open>int64\<close> is not saved; an error of the database is only logged.\<close>

definition saved_log :: "64 word \<Rightarrow> time option \<Rightarrow> time \<Rightarrow> CertificateLog \<Rightarrow> CertificateLog" where
  "saved_log index entryTime now log =
     log\<lparr>MaxEntry := index, LastEntryTime := (case entryTime of None \<Rightarrow> LastEntryTime log | Some t \<Rightarrow> t),
       LastUpdateTime := now\<rparr>"

definition saveState ::
  "'d CertDatabase \<Rightarrow> 64 word \<Rightarrow> time option \<Rightarrow> time \<Rightarrow> LogWorker \<Rightarrow> 'd \<Rightarrow> (LogWorker \<times> 'd) run" where
  "saveState cd index entryTime now lw d =
     (if index > 0x7FFFFFFFFFFFFFFF then Done (lw, d)
      else
        (let log = saved_log index entryTime now (LogState lw)
         in run_bind (cd_SaveLogState cd log now d) (\<lambda>(saveErr, d1). Done (lw\<lparr>LogState := log\<rparr>, d1))))"

subsection \<open>Downloading\<close>

text \<open>The continuation of a loop that returned; \<open>None\<close> is a loop that does not.\<close>

definition loop_bind :: "'a run option \<Rightarrow> ('a \<Rightarrow> 'b run option) \<Rightarrow> 'b run option" where
  "loop_bind x f =
     (case x of None \<Rightarrow> None | Some (Done a) \<Rightarrow> f a | Some (Fatal s) \<Rightarrow> Some (Fatal s) | Some (Panic s) \<Rightarrow> Some (Panic s))"

lemma loop_bind_simps [simp]:
  "loop_bind None f = None" "loop_bind (Some (Done a)) f = f a"
  "loop_bind (Some (Fatal s)) f = Some (Fatal s)" "loop_bind (Some (Panic s)) f = Some (Panic s)"
  by (simp_all add: loop_bind_def)

lemma loop_bind_mono [partial_function_mono]:
  assumes "\<And>a. mono_option (\<lambda>f. g f a)"
  shows "mono_option (\<lambda>f. loop_bind x (g f))"
  using assms by (auto simp: monotone_def flat_ord_def loop_bind_def fun_ord_def split: option.split run.split)

text \<open>
  \<^verbatim>\<open>entrySavedLoop\<close>: until the entry is on the channel, the state may be saved. The boolean is false when a
  signal was caught.
\<close>

partial_function (option) entrySavedLoop ::
  "'d CertDatabase \<Rightarrow> ('l, 'w) ct_ops \<Rightarrow> CtLogEntry \<Rightarrow> 64 word \<Rightarrow> time option \<Rightarrow> LogWorker \<Rightarrow> ('d, 'w) LogSyncEngine
    \<Rightarrow> (bool \<times> LogWorker \<times> ('d, 'w) LogSyncEngine) run option" where
  "entrySavedLoop cd ops ep index lastTime lw ld =
     (case ct_select ops (ld_world ld) of
        (SignalCaught, w1) \<Rightarrow> Some (Done (False, lw, ld\<lparr>ld_world := w1\<rparr>))
      | (SaveTick, w1) \<Rightarrow>
          loop_bind (Some (saveState cd index lastTime (ct_Now ops w1) lw (ld_database ld)))
            (\<lambda>(lw1, d1). entrySavedLoop cd ops ep index lastTime lw1 (ld\<lparr>ld_database := d1, ld_world := w1\<rparr>))
      | (Submitted, w1) \<Rightarrow> Some (Done (True, lw, ld\<lparr>entryChan := entryChan ld @ [ep], ld_world := w1\<rparr>)))"

text \<open>The entries of one response. The boolean is false when a signal was caught.\<close>

fun submit_entries ::
  "'d CertDatabase \<Rightarrow> ('l, 'w) ct_ops \<Rightarrow> 'l list \<Rightarrow> 64 word \<Rightarrow> time option \<Rightarrow> LogWorker \<Rightarrow> ('d, 'w) LogSyncEngine
    \<Rightarrow> (bool \<times> 64 word \<times> time option \<times> LogWorker \<times> ('d, 'w) LogSyncEngine) run option" where
  "submit_entries cd ops [] index lastTime lw ld = Some (Done (True, index, lastTime, lw, ld))"
| "submit_entries cd ops (entry # entries) index lastTime lw ld =
     (case LogEntryFromLeaf ops (sint index) entry of
        Inl err \<Rightarrow> submit_entries cd ops entries (index + 1) lastTime lw ld
      | Inr logEntry \<Rightarrow>
          loop_bind (entrySavedLoop cd ops \<lparr>ep_LogEntry = logEntry, ep_LogURL = LogURL lw\<rparr> index lastTime lw ld)
            (\<lambda>(sent, lw1, ld1).
               if sent
               then submit_entries cd ops entries (index + 1) (Some (uint64ToTimestamp (le_Timestamp logEntry))) lw1 ld1
               else Some (Done (False, index, lastTime, lw1, ld1))))"

definition too_many_requests :: "go_error \<Rightarrow> bool" where
  "too_many_requests err \<longleftrightarrow> strings_Contains (err_text err) ''HTTP Status'' \<and>
     (strings_Contains (err_text err) ''429'' \<or> strings_Contains (err_text err) ''Too Many Requests'')"

definition range_max :: "64 word \<Rightarrow> 64 word \<Rightarrow> 64 word" where
  "range_max index endPos = (if index + 1000 \<ge> endPos then endPos - 1 else index + 1000)"

text \<open>After a response of status 429 the program waits and asks again.\<close>

partial_function (option) download_loop ::
  "'d CertDatabase \<Rightarrow> ('l, 'w) ct_ops \<Rightarrow> 64 word \<Rightarrow> time option \<Rightarrow> LogWorker \<Rightarrow> ('d, 'w) LogSyncEngine
    \<Rightarrow> ((64 word \<times> time option \<times> go_error option) \<times> LogWorker \<times> ('d, 'w) LogSyncEngine) run option" where
  "download_loop cd ops index lastTime lw ld =
     (if index < EndPos lw
      then
        (case GetRawEntries ops (sint index) (sint (range_max index (EndPos lw))) (ld_world ld) of
           (Inl err, w1) \<Rightarrow>
             (if too_many_requests err then download_loop cd ops index lastTime lw (ld\<lparr>ld_world := w1\<rparr>)
              else Some (Done ((index, lastTime, Some err), lw, ld\<lparr>ld_world := w1\<rparr>)))
         | (Inr entries, w1) \<Rightarrow>
             loop_bind (submit_entries cd ops entries index lastTime lw (ld\<lparr>ld_world := w1\<rparr>))
               (\<lambda>(go, index1, lastTime1, lw1, ld1).
                  if go then download_loop cd ops index1 lastTime1 lw1 ld1
                  else Some (Done ((index1, lastTime1, None), lw1, ld1))))
      else Some (Done ((index, lastTime, None), lw, ld)))"

definition downloadCTRangeToChannel ::
  "'d CertDatabase \<Rightarrow> ('l, 'w) ct_ops \<Rightarrow> LogWorker \<Rightarrow> ('d, 'w) LogSyncEngine
    \<Rightarrow> ((64 word \<times> time option \<times> go_error option) \<times> LogWorker \<times> ('d, 'w) LogSyncEngine) run option" where
  "downloadCTRangeToChannel cd ops lw ld = download_loop cd ops (StartPos lw) None lw ld"

definition Run ::
  "'d CertDatabase \<Rightarrow> ('l, 'w) ct_ops \<Rightarrow> LogWorker \<Rightarrow> ('d, 'w) LogSyncEngine \<Rightarrow> (go_error option \<times> ('d, 'w) LogSyncEngine) run option" where
  "Run cd ops lw ld =
     (if StartPos lw = EndPos lw then Some (Done (None, ld))
      else
        loop_bind (downloadCTRangeToChannel cd ops lw ld) (\<lambda>((finalIndex, finalTime, err), lw1, ld1).
          loop_bind (Some (saveState cd finalIndex finalTime (ct_Now ops (ld_world ld1)) lw1 (ld_database ld1)))
            (\<lambda>(lw2, d2). Some (Done (err, ld1\<lparr>ld_database := d2\<rparr>)))))"

definition SyncLog ::
  "ct_config \<Rightarrow> 'd CertDatabase \<Rightarrow> ('l, 'w) ct_ops \<Rightarrow> url_Parse \<Rightarrow> string \<Rightarrow> ('d, 'w) LogSyncEngine
    \<Rightarrow> (go_error option \<times> ('d, 'w) LogSyncEngine) run option" where
  "SyncLog cf cd ops up logURL ld =
     loop_bind (Some (NewLogWorker cf cd ops up logURL ld)) (\<lambda>(r, ld1).
       case r of Inl err \<Rightarrow> Some (Done (Some err, ld1)) | Inr worker \<Rightarrow> Run cd ops worker ld1)"

subsection \<open>The program\<close>

text \<open>The list of logs: a part that does not parse ends the program.\<close>

fun parse_log_urls :: "url_Parse \<Rightarrow> string list \<Rightarrow> url list run" where
  "parse_log_urls up [] = Done []"
| "parse_log_urls up (part # parts) =
     (case up (strings_TrimSpace part) of
        Inl err \<Rightarrow> Fatal (''unable to set Certificate Log: '' @ err_text err)
      | Inr u \<Rightarrow> run_bind (parse_log_urls up parts) (\<lambda>us. Done (u # us)))"

definition log_urls :: "ct_config \<Rightarrow> url_Parse \<Rightarrow> url list run" where
  "log_urls cf up =
     (if length (LogUrlList cf) > 5 then parse_log_urls up (strings_Split (LogUrlList cf) '','') else Done [])"

text \<open>The goroutine of one log: it syncs, and polls again unless it runs once or a signal comes.\<close>

partial_function (option) sync_rounds ::
  "ct_config \<Rightarrow> 'd CertDatabase \<Rightarrow> ('l, 'w) ct_ops \<Rightarrow> url_Parse \<Rightarrow> string \<Rightarrow> ('d, 'w) LogSyncEngine
    \<Rightarrow> ('d, 'w) LogSyncEngine run option" where
  "sync_rounds cf cd ops up urlString ld =
     loop_bind (SyncLog cf cd ops up urlString ld) (\<lambda>(err, ld1).
       if \<not> RunForever cf then Some (Done ld1)
       else
         (let (sig, w2) = ct_poll ops (ld_world ld1)
          in if sig then Some (Done (ld1\<lparr>ld_world := w2\<rparr>))
             else sync_rounds cf cd ops up urlString (ld1\<lparr>ld_world := w2\<rparr>)))"

text \<open>The answer of the health page: status and text. The product of durations wraps as \<^verbatim>\<open>int64\<close>.\<close>

definition health :: "duration \<Rightarrow> time \<Rightarrow> time \<Rightarrow> nat \<times> string" where
  "health pollingDelayMean now approxUpdateTimestamp =
     (if approxUpdateTimestamp = 0 then (503, ''error: no health updates yet, Retry-After 30 seconds'')
      else
        (let d = time_Sub now approxUpdateTimestamp; evaluationTime = signed_take_bit 63 (2 * pollingDelayMean)
         in if d > evaluationTime
            then (500, ''error: '' @ duration_String d @ '' since last update, which is longer than 2 * pollingDelayMean (''
                    @ duration_String evaluationTime @ '')'')
            else (200, ''ok: '' @ duration_String d @ '' since last update, which is shorter than 2 * pollingDelayMean (''
                    @ duration_String evaluationTime @ '')'')))"

subsection \<open>The download as a step relation\<close>

record ('l, 'd, 'w) ct_state =
  cs_index :: "64 word"
  cs_last :: "time option"
  cs_pending :: "'l list"
  cs_lw :: LogWorker
  cs_ld :: "('d, 'w) LogSyncEngine"

inductive ct_step ::
  "'d CertDatabase \<Rightarrow> ('l, 'w) ct_ops \<Rightarrow> ('l, 'd, 'w) ct_state \<Rightarrow> ('l, 'd, 'w) ct_state \<Rightarrow> bool"
  for cd :: "'d CertDatabase" and ops :: "('l, 'w) ct_ops" where
  failed: "cs_pending s = [] \<Longrightarrow> cs_index s < EndPos (cs_lw s) \<Longrightarrow>
    GetRawEntries ops (sint (cs_index s)) (sint (range_max (cs_index s) (EndPos (cs_lw s)))) (ld_world (cs_ld s)) = (Inl err, w1) \<Longrightarrow>
    ct_step cd ops s (s\<lparr>cs_ld := (cs_ld s)\<lparr>ld_world := w1\<rparr>\<rparr>)"
| fetched: "cs_pending s = [] \<Longrightarrow> cs_index s < EndPos (cs_lw s) \<Longrightarrow>
    GetRawEntries ops (sint (cs_index s)) (sint (range_max (cs_index s) (EndPos (cs_lw s)))) (ld_world (cs_ld s)) = (Inr entries, w1) \<Longrightarrow>
    ct_step cd ops s (s\<lparr>cs_pending := entries, cs_ld := (cs_ld s)\<lparr>ld_world := w1\<rparr>\<rparr>)"
| skipped: "cs_pending s = entry # entries \<Longrightarrow> LogEntryFromLeaf ops (sint (cs_index s)) entry = Inl err \<Longrightarrow>
    ct_step cd ops s (s\<lparr>cs_pending := entries, cs_index := cs_index s + 1\<rparr>)"
| signalled: "cs_pending s = entry # entries \<Longrightarrow> LogEntryFromLeaf ops (sint (cs_index s)) entry = Inr e \<Longrightarrow>
    ct_select ops (ld_world (cs_ld s)) = (SignalCaught, w1) \<Longrightarrow>
    ct_step cd ops s (s\<lparr>cs_ld := (cs_ld s)\<lparr>ld_world := w1\<rparr>\<rparr>)"
| ticked: "cs_pending s = entry # entries \<Longrightarrow> LogEntryFromLeaf ops (sint (cs_index s)) entry = Inr e \<Longrightarrow>
    ct_select ops (ld_world (cs_ld s)) = (SaveTick, w1) \<Longrightarrow>
    saveState cd (cs_index s) (cs_last s) (ct_Now ops w1) (cs_lw s) (ld_database (cs_ld s)) = Done (lw1, d1) \<Longrightarrow>
    ct_step cd ops s (s\<lparr>cs_lw := lw1, cs_ld := (cs_ld s)\<lparr>ld_database := d1, ld_world := w1\<rparr>\<rparr>)"
| submitted: "cs_pending s = entry # entries \<Longrightarrow> LogEntryFromLeaf ops (sint (cs_index s)) entry = Inr e \<Longrightarrow>
    ct_select ops (ld_world (cs_ld s)) = (Submitted, w1) \<Longrightarrow>
    ct_step cd ops s (s\<lparr>cs_pending := entries, cs_index := cs_index s + 1,
      cs_last := Some (uint64ToTimestamp (le_Timestamp e)),
      cs_ld := (cs_ld s)\<lparr>entryChan := entryChan (cs_ld s) @ [\<lparr>ep_LogEntry = e, ep_LogURL = LogURL (cs_lw s)\<rparr>], ld_world := w1\<rparr>\<rparr>)"

abbreviation ct_steps where "ct_steps cd ops \<equiv> (ct_step cd ops)\<^sup>*\<^sup>*"

definition ct_start :: "LogWorker \<Rightarrow> ('d, 'w) LogSyncEngine \<Rightarrow> ('l, 'd, 'w) ct_state" where
  "ct_start lw ld = \<lparr>cs_index = StartPos lw, cs_last = None, cs_pending = [], cs_lw = lw, cs_ld = ld\<rparr>"

subsection \<open>Lemmas: the functions follow the steps\<close>

lemma saveState_lw:
  assumes "saveState cd i t now lw d = Done (lw1, d1)"
  shows "EndPos lw1 = EndPos lw" "LogURL lw1 = LogURL lw" "StartPos lw1 = StartPos lw" "ShortURL (LogState lw1) = ShortURL (LogState lw)"
proof -
  have "lw1 = lw \<or> lw1 = lw\<lparr>LogState := saved_log i t now (LogState lw)\<rparr>"
    using assms by (auto simp: saveState_def run_bind_Done Let_def split: if_splits)
  then show "EndPos lw1 = EndPos lw" "LogURL lw1 = LogURL lw" "StartPos lw1 = StartPos lw"
    "ShortURL (LogState lw1) = ShortURL (LogState lw)" by (auto simp: saved_log_def)
qed

text \<open>The states between which one entry is submitted, and what is left of a run.\<close>

definition ct_at :: "64 word \<Rightarrow> time option \<Rightarrow> 'l list \<Rightarrow> LogWorker \<Rightarrow> ('d, 'w) LogSyncEngine \<Rightarrow> ('l, 'd, 'w) ct_state" where
  "ct_at index t ls lw ld = \<lparr>cs_index = index, cs_last = t, cs_pending = ls, cs_lw = lw, cs_ld = ld\<rparr>"

lemmas ct_step_at = ct_step.intros [of "ct_at index t ls lw ld" for index t ls lw ld, unfolded ct_at_def, simplified, folded ct_at_def]

lemma loop_bind_Some: "loop_bind x f = Some r \<longleftrightarrow>
  (\<exists>a. x = Some (Done a) \<and> f a = Some r) \<or> (\<exists>s. x = Some (Fatal s) \<and> r = Fatal s) \<or> (\<exists>s. x = Some (Panic s) \<and> r = Panic s)"
  by (auto simp: loop_bind_def split: option.splits run.splits)

lemma entrySavedLoop_steps:
  fixes cd :: "'d CertDatabase" and ops :: "('l, 'w) ct_ops"
  assumes "entrySavedLoop cd ops ep index t lw ld = Some r"
  shows "r = Done (sent, lw', ld') \<Longrightarrow> LogEntryFromLeaf ops (sint index) entry = Inr e \<Longrightarrow>
    ep = \<lparr>ep_LogEntry = e, ep_LogURL = LogURL lw\<rparr> \<Longrightarrow>
    ct_steps cd ops (ct_at index t (entry # entries) lw ld)
      (if sent then ct_at (index + 1) (Some (uint64ToTimestamp (le_Timestamp e))) entries lw' ld'
       else ct_at index t (entry # entries) lw' ld')"
proof (induction rule: entrySavedLoop.raw_induct [OF _ assms, consumes 0, case_names step])
  case (step loop cd ops ep index t lw ld r)
  obtain sel w1 where s: "ct_select ops (ld_world ld) = (sel, w1)" by fastforce
  show ?case
  proof (cases sel)
    case SignalCaught
    then have "ct_step cd ops (ct_at index t (entry # entries) lw ld) (ct_at index t (entry # entries) lw (ld\<lparr>ld_world := w1\<rparr>))"
      using ct_step_at(4) [OF refl step(4)] s by simp
    then show ?thesis using step(2,3) s SignalCaught by auto
  next
    case Submitted
    then have "ct_step cd ops (ct_at index t (entry # entries) lw ld)
        (ct_at (index + 1) (Some (uint64ToTimestamp (le_Timestamp e))) entries lw
          (ld\<lparr>entryChan := entryChan ld @ [ep], ld_world := w1\<rparr>))"
      using ct_step_at(6) [OF refl step(4)] s step(5) by simp
    then show ?thesis using step(2,3) s Submitted by auto
  next
    case SaveTick
    then have "loop_bind (Some (saveState cd index t (ct_Now ops w1) lw (ld_database ld)))
        (\<lambda>(lw1, d1). loop cd ops ep index t lw1 (ld\<lparr>ld_database := d1, ld_world := w1\<rparr>)) = Some r"
      using step(2) s by simp
    then obtain lw1 d1 where sv: "saveState cd index t (ct_Now ops w1) lw (ld_database ld) = Done (lw1, d1)"
      and l: "loop cd ops ep index t lw1 (ld\<lparr>ld_database := d1, ld_world := w1\<rparr>) = Some r"
      using step(3) by (auto simp: loop_bind_Some)
    have "ep = \<lparr>ep_LogEntry = e, ep_LogURL = LogURL lw1\<rparr>" using step(5) saveState_lw(2) [OF sv] by simp
    from step(1) [OF l step(3,4) this]
    show ?thesis using ct_step_at(5) [OF refl step(4) s [unfolded SaveTick] sv]
      by (meson converse_rtranclp_into_rtranclp)
  qed
qed

lemma submit_entries_steps:
  "submit_entries cd ops ls index t lw ld = Some (Done (go, index', t', lw', ld')) \<Longrightarrow>
   \<exists>ls'. ct_steps cd ops (ct_at index t ls lw ld) (ct_at index' t' ls' lw' ld') \<and> (go \<longrightarrow> ls' = [])"
proof (induction ls arbitrary: index t lw ld)
  case (Cons entry ls)
  show ?case
  proof (cases "LogEntryFromLeaf ops (sint index) entry")
    case (Inl err)
    have "ct_step cd ops (ct_at index t (entry # ls) lw ld) (ct_at (index + 1) t ls lw ld)"
      using ct_step_at(3) [OF refl Inl] .
    moreover obtain ls' where "ct_steps cd ops (ct_at (index + 1) t ls lw ld) (ct_at index' t' ls' lw' ld')" "go \<longrightarrow> ls' = []"
      using Cons.IH [of "index + 1" t lw ld] Cons.prems Inl by auto
    ultimately show ?thesis by (intro exI [of _ ls']) (auto intro: converse_rtranclp_into_rtranclp)
  next
    case (Inr e)
    with Cons.prems obtain sent lw1 ld1 where
      l: "entrySavedLoop cd ops \<lparr>ep_LogEntry = e, ep_LogURL = LogURL lw\<rparr> index t lw ld = Some (Done (sent, lw1, ld1))"
      and c: "(if sent then submit_entries cd ops ls (index + 1) (Some (uint64ToTimestamp (le_Timestamp e))) lw1 ld1
         else Some (Done (False, index, t, lw1, ld1))) = Some (Done (go, index', t', lw', ld'))"
      by (auto simp: loop_bind_Some)
    note st = entrySavedLoop_steps [OF l refl Inr refl, of ls]
    show ?thesis
    proof (cases sent)
      case True
      then obtain ls' where "ct_steps cd ops (ct_at (index + 1) (Some (uint64ToTimestamp (le_Timestamp e))) ls lw1 ld1)
          (ct_at index' t' ls' lw' ld')" "go \<longrightarrow> ls' = []"
        using Cons.IH [of "index + 1" "Some (uint64ToTimestamp (le_Timestamp e))" lw1 ld1] c by auto
      then show ?thesis using st True by (auto intro: rtranclp_trans)
    next
      case False
      then show ?thesis using st c by auto
    qed
  qed
qed auto

lemma download_loop_steps:
  fixes cd :: "'d CertDatabase" and ops :: "('l, 'w) ct_ops"
  assumes "download_loop cd ops index t lw ld = Some r"
  shows "r = Done ((index', t', err), lw', ld') \<Longrightarrow> \<exists>ls'. ct_steps cd ops (ct_at index t [] lw ld) (ct_at index' t' ls' lw' ld')"
proof (induction rule: download_loop.raw_induct [OF _ assms, consumes 0, case_names step])
  case (step loop cd ops index t lw ld r)
  show ?case
  proof (cases "index < EndPos lw")
    case lt: True
    obtain resp w1 where g: "GetRawEntries ops (sint index) (sint (range_max index (EndPos lw))) (ld_world ld) = (resp, w1)"
      by fastforce
    let ?ld = "ld\<lparr>ld_world := w1\<rparr>"
    show ?thesis
    proof (cases resp)
      case (Inl e)
      have st: "ct_step cd ops (ct_at index t [] lw ld) (ct_at index t [] lw ?ld)"
        using ct_step_at(1) [OF refl lt g [unfolded Inl]] .
      show ?thesis
      proof (cases "too_many_requests e")
        case True
        then have "loop cd ops index t lw ?ld = Some r" using step(2) lt g Inl by simp
        from step(1) [OF this step(3)] st show ?thesis by (meson converse_rtranclp_into_rtranclp)
      next
        case False
        then show ?thesis using step(2,3) lt g Inl st by auto
      qed
    next
      case (Inr entries)
      have st: "ct_step cd ops (ct_at index t [] lw ld) (ct_at index t entries lw ?ld)"
        using ct_step_at(2) [OF refl lt g [unfolded Inr]] .
      obtain go i1 t1 lw1 ld1 where
        s: "submit_entries cd ops entries index t lw ?ld = Some (Done (go, i1, t1, lw1, ld1))"
        and c: "(if go then loop cd ops i1 t1 lw1 ld1 else Some (Done ((i1, t1, None), lw1, ld1))) = Some r"
        using step(2,3) lt g Inr by (auto simp: loop_bind_Some)
      obtain ls where ls: "ct_steps cd ops (ct_at index t entries lw ?ld) (ct_at i1 t1 ls lw1 ld1)" "go \<longrightarrow> ls = []"
        using submit_entries_steps [OF s] by blast
      have one: "ct_steps cd ops (ct_at index t [] lw ld) (ct_at i1 t1 ls lw1 ld1)"
        using st ls(1) by (rule converse_rtranclp_into_rtranclp)
      show ?thesis
      proof (cases go)
        case True
        then obtain ls' where "ct_steps cd ops (ct_at i1 t1 [] lw1 ld1) (ct_at index' t' ls' lw' ld')"
          using step(1) [OF _ step(3), of cd ops i1 t1 lw1 ld1] c by (simp only: if_True) blast
        then show ?thesis using one ls(2) True by (auto intro: rtranclp_trans)
      next
        case False
        then show ?thesis using one c step(3) by auto
      qed
    qed
  next
    case False
    then show ?thesis using step(2,3) by auto
  qed
qed

subsection \<open>Lemmas: indices\<close>

lemma sint_small:
  assumes "uint (w :: 64 word) < 2 ^ 63"
  shows "sint w = uint w"
proof -
  have "signed_take_bit 63 (uint w) = uint w"
    using assms by (intro signed_take_bit_int_eq_self) (auto intro: order_trans [of _ 0])
  then show ?thesis by (simp add: sint_uint)
qed

lemma sint_index:
  assumes "unat (w :: 64 word) < 2 ^ 63"
  shows "sint w = int (unat w)"
proof -
  have "int (unat w) < int (2 ^ 63)" using assms by (simp only: of_nat_less_iff)
  then have "uint w < 2 ^ 63" by simp
  from sint_small [OF this] show ?thesis by simp
qed

lemma unat_next: "unat (w :: 64 word) < 2 ^ 63 \<Longrightarrow> unat (w + 1) = Suc (unat w)"
  by (simp add: unat_word_ariths)

text \<open>The last index of a request: inside the range, and at most a thousand after the first.\<close>

lemma range_max_bounds:
  assumes "index < endPos" and "unat endPos < 2 ^ 63"
  shows "unat (range_max index endPos) = min (unat index + 1000) (unat endPos - 1)"
proof -
  have i: "unat index < unat endPos" using assms(1) by (simp add: word_less_nat_alt)
  have p: "unat (index + 1000) = unat index + 1000" using i assms(2) by (simp add: unat_word_ariths)
  have "endPos \<noteq> 0" using i by auto
  then have m: "unat (endPos - 1) = unat endPos - 1" by (simp add: unat_minus_one)
  show ?thesis using i by (auto simp: range_max_def word_le_nat_alt p m)
qed

subsection \<open>The log server\<close>

text \<open>
  What the download relies on of a server: a successful response holds entries of the log from the
  first index asked for, in order, no more than asked for. It may hold fewer, or none.
\<close>

locale ct_server =
  fixes ops :: "('l, 'w) ct_ops" and leaf :: "nat \<Rightarrow> 'l"
  assumes responses: "GetRawEntries ops (int lo) (int hi) w = (Inr ls, w') \<Longrightarrow> lo \<le> hi \<Longrightarrow>
      \<exists>n \<le> Suc hi - lo. ls = map leaf [lo..<lo + n]"

definition log_entries :: "('l, 'w) ct_ops \<Rightarrow> (nat \<Rightarrow> 'l) \<Rightarrow> string \<Rightarrow> nat \<Rightarrow> nat \<Rightarrow> CtLogEntry list" where
  "log_entries ops leaf url lo hi =
     List.map_filter (\<lambda>i. case LogEntryFromLeaf ops (int i) (leaf i) of
         Inl _ \<Rightarrow> None | Inr e \<Rightarrow> Some \<lparr>ep_LogEntry = e, ep_LogURL = url\<rparr>) [lo..<hi]"

lemma log_entries_Nil [simp]: "log_entries ops leaf url lo lo = []"
  by (simp add: log_entries_def List.map_filter_def)

lemma log_entries_Suc: "lo \<le> hi \<Longrightarrow> log_entries ops leaf url lo (Suc hi) = log_entries ops leaf url lo hi @
   (case LogEntryFromLeaf ops (int hi) (leaf hi) of Inl _ \<Rightarrow> [] | Inr e \<Rightarrow> [\<lparr>ep_LogEntry = e, ep_LogURL = url\<rparr>])"
  by (simp add: log_entries_def List.map_filter_def split: sum.split)

text \<open>At every moment the entries up to the index have been handled, and the pending ones follow.\<close>

definition ct_inv :: "('l, 'w) ct_ops \<Rightarrow> (nat \<Rightarrow> 'l) \<Rightarrow> LogWorker \<Rightarrow> CtLogEntry list \<Rightarrow> ('l, 'd, 'w) ct_state \<Rightarrow> bool" where
  "ct_inv ops leaf lw ch s \<longleftrightarrow>
     EndPos (cs_lw s) = EndPos lw \<and> LogURL (cs_lw s) = LogURL lw \<and> ShortURL (LogState (cs_lw s)) = ShortURL (LogState lw) \<and>
     StartPos lw \<le> cs_index s \<and> unat (cs_index s) + length (cs_pending s) \<le> unat (EndPos lw) \<and>
     cs_pending s = map leaf [unat (cs_index s)..<unat (cs_index s) + length (cs_pending s)] \<and>
     entryChan (cs_ld s) = ch @ log_entries ops leaf (LogURL lw) (unat (StartPos lw)) (unat (cs_index s))"

lemma ct_inv_start:
  "StartPos lw \<le> EndPos lw \<Longrightarrow> ct_inv ops leaf lw (entryChan ld) (ct_start lw ld)"
  by (simp add: ct_inv_def ct_start_def word_le_nat_alt)

context ct_server
begin

text \<open>The request of the loop, with its bounds as numbers.\<close>

lemma request_bounds:
  assumes "index < endPos" and "unat endPos < 2 ^ 63"
  shows "sint index = int (unat index)"
    and "sint (range_max index endPos) = int (min (unat index + 1000) (unat endPos - 1))"
    and "unat index \<le> min (unat index + 1000) (unat endPos - 1)"
proof -
  have lt: "unat index < unat endPos" using assms(1) by (simp add: word_less_nat_alt)
  show "sint index = int (unat index)" using sint_index lt assms(2) by simp
  show "sint (range_max index endPos) = int (min (unat index + 1000) (unat endPos - 1))"
    using sint_index [of "range_max index endPos"] range_max_bounds [OF assms] lt assms(2) by simp
  show "unat index \<le> min (unat index + 1000) (unat endPos - 1)" using lt by simp
qed

lemma response_entries:
  assumes "index < endPos" and "unat endPos < 2 ^ 63"
    and "GetRawEntries ops (sint index) (sint (range_max index endPos)) w = (Inr entries, w1)"
  shows "entries = map leaf [unat index..<unat index + length entries]" and "unat index + length entries \<le> unat endPos"
proof -
  note b = request_bounds [OF assms(1,2)]
  obtain n where n: "n \<le> Suc (min (unat index + 1000) (unat endPos - 1)) - unat index"
    and ls: "entries = map leaf [unat index..<unat index + n]"
    using responses [OF assms(3) [unfolded b(1,2)] b(3)] by blast
  have "unat index < unat endPos" using assms(1) by (simp add: word_less_nat_alt)
  then show "entries = map leaf [unat index..<unat index + length entries]" "unat index + length entries \<le> unat endPos"
    using n by (simp_all add: ls)
qed

lemma next_pending:
  assumes "ct_inv ops leaf lw ch s" and "unat (EndPos lw) < 2 ^ 63" and "cs_pending s = entry # entries"
  shows "entry = leaf (unat (cs_index s))" and "unat (cs_index s + 1) = Suc (unat (cs_index s))"
    and "sint (cs_index s) = int (unat (cs_index s))" and "StartPos lw \<le> cs_index s + 1"
    and "unat (cs_index s + 1) + length entries \<le> unat (EndPos lw)"
    and "entries = map leaf [unat (cs_index s + 1)..<unat (cs_index s + 1) + length entries]"
    and "ch @ log_entries ops leaf (LogURL lw) (unat (StartPos lw)) (unat (cs_index s + 1)) = entryChan (cs_ld s) @
      (case LogEntryFromLeaf ops (sint (cs_index s)) entry of Inl _ \<Rightarrow> [] | Inr e \<Rightarrow> [\<lparr>ep_LogEntry = e, ep_LogURL = LogURL lw\<rparr>])"
proof -
  let ?i = "unat (cs_index s)"
  have le: "?i + Suc (length entries) \<le> unat (EndPos lw)" and lo: "unat (StartPos lw) \<le> ?i"
    and p: "entry # entries = map leaf [?i..<?i + Suc (length entries)]"
    and ch: "entryChan (cs_ld s) = ch @ log_entries ops leaf (LogURL lw) (unat (StartPos lw)) ?i"
    using assms(1) by (simp_all add: ct_inv_def assms(3) word_le_nat_alt)
  have "?i < 2 ^ 63" using le assms(2) by simp
  then show n: "unat (cs_index s + 1) = Suc ?i" and sx: "sint (cs_index s) = int ?i"
    using unat_next sint_index by blast+
  have c: "[?i..<?i + Suc (length entries)] = ?i # [Suc ?i..<Suc ?i + length entries]" by (subst upt_conv_Cons) auto
  show e: "entry = leaf ?i" and "entries = map leaf [unat (cs_index s + 1)..<unat (cs_index s + 1) + length entries]"
    using p unfolding c n by simp_all
  show "StartPos lw \<le> cs_index s + 1" using lo by (simp add: word_le_nat_alt n)
  show "unat (cs_index s + 1) + length entries \<le> unat (EndPos lw)" using le by (simp add: n)
  show "ch @ log_entries ops leaf (LogURL lw) (unat (StartPos lw)) (unat (cs_index s + 1)) = entryChan (cs_ld s) @
      (case LogEntryFromLeaf ops (sint (cs_index s)) entry of Inl _ \<Rightarrow> [] | Inr e \<Rightarrow> [\<lparr>ep_LogEntry = e, ep_LogURL = LogURL lw\<rparr>])"
    unfolding n sx ch e by (simp add: log_entries_Suc [OF lo])
qed

lemma ct_inv_step:
  assumes "ct_step cd ops s s'" and "ct_inv ops leaf lw ch s" and "unat (EndPos lw) < 2 ^ 63"
  shows "ct_inv ops leaf lw ch s'"
  using assms
proof cases
  case (fetched entries w1)
  have e: "EndPos (cs_lw s) = EndPos lw" using assms(2) by (simp add: ct_inv_def)
  show ?thesis using assms(2) fetched(1) response_entries [OF fetched(3) [unfolded e] assms(3) fetched(4) [unfolded e]]
    by (simp add: ct_inv_def)
next
  case (skipped entry entries err)
  note n = next_pending [OF assms(2,3) skipped(2)]
  show ?thesis using assms(2) skipped(1) n(4-6) n(7) [unfolded skipped(3)] by (simp add: ct_inv_def)
next
  case (submitted entry entries e w1)
  note n = next_pending [OF assms(2,3) submitted(2)]
  show ?thesis using assms(2) submitted(1) n(4-6) n(7) [unfolded submitted(3)] by (simp add: ct_inv_def)
next
  case (ticked entry entries e w1 lw1 d1)
  then show ?thesis using assms(2) saveState_lw [OF ticked(5)] by (simp add: ct_inv_def)
qed (simp_all add: ct_inv_def)

lemma ct_inv_steps:
  assumes "ct_steps cd ops s s'" and "ct_inv ops leaf lw ch s" and "unat (EndPos lw) < 2 ^ 63"
  shows "ct_inv ops leaf lw ch s'"
  using assms by (induction rule: rtranclp_induct) (auto intro: ct_inv_step)

end

subsection \<open>The states of logs in the database\<close>

text \<open>
  What the program relies on of the database: saving the state of a log does not end the process and
  touches the state of that log only, and reading returns the state that is there.
\<close>

locale log_states =
  fixes cd :: "'d CertDatabase" and state_of :: "'d \<Rightarrow> string \<Rightarrow> CertificateLog option" and ok :: "'d \<Rightarrow> bool"
  assumes save_total: "\<exists>e d'. cd_SaveLogState cd l t d = Done (e, d')"
    and save_state: "cd_SaveLogState cd l t d = Done (e, d') \<Longrightarrow> ok d \<Longrightarrow>
      ok d' \<and> (state_of d' = (state_of d)(ShortURL l \<mapsto> l) \<or> e \<noteq> None \<and> state_of d' = state_of d)"
    and get_state: "cd_GetLogState cd u t d = Done ((l, None), d') \<Longrightarrow> ok d \<Longrightarrow>
      ok d' \<and> state_of d' = state_of d \<and>
      l = (case state_of d (url_Host u @ url_Path u) of None \<Rightarrow> new_log (url_Host u @ url_Path u) | Some l' \<Rightarrow> l')"
    and state_url: "ok d \<Longrightarrow> state_of d k = Some l \<Longrightarrow> ShortURL l = k"
begin

lemma saveState_total: "\<exists>lw' d'. saveState cd i t now lw d = Done (lw', d')"
proof -
  obtain e d' where "cd_SaveLogState cd (saved_log i t now (LogState lw)) now d = Done (e, d')" using save_total by blast
  then show ?thesis by (simp add: saveState_def)
qed

lemma saveState_state:
  assumes "saveState cd i t now lw d = Done (lw', d')" and "ok d"
  shows "ok d'" and "state_of d' = state_of d \<or>
    (\<exists>l. MaxEntry l = i \<and> state_of d' = (state_of d)(ShortURL (LogState lw) \<mapsto> l))"
proof -
  have "ok d' \<and> (state_of d' = state_of d \<or>
    (\<exists>l. MaxEntry l = i \<and> state_of d' = (state_of d)(ShortURL (LogState lw) \<mapsto> l)))"
  proof (cases "i > 0x7FFFFFFFFFFFFFFF")
    case False
    then obtain e where s: "cd_SaveLogState cd (saved_log i t now (LogState lw)) now d = Done (e, d')"
      using assms(1) by (auto simp: saveState_def run_bind_Done Let_def)
    have "MaxEntry (saved_log i t now (LogState lw)) = i" "ShortURL (saved_log i t now (LogState lw)) = ShortURL (LogState lw)"
      by (simp_all add: saved_log_def)
    then show ?thesis using save_state [OF s assms(2)] by metis
  qed (use assms in \<open>simp add: saveState_def\<close>)
  then show "ok d'" "state_of d' = state_of d \<or>
    (\<exists>l. MaxEntry l = i \<and> state_of d' = (state_of d)(ShortURL (LogState lw) \<mapsto> l))" by simp_all
qed

end

text \<open>
  What the database holds at a moment of the download that began with the states \<open>st\<close>: for the log of
  the worker the state of before, or one that says how far a moment since then had come; for the
  others the state of before.
\<close>

definition resumable :: "(string \<Rightarrow> CertificateLog option) \<Rightarrow> (string \<Rightarrow> CertificateLog option) \<Rightarrow> string \<Rightarrow> 64 word \<Rightarrow> 64 word \<Rightarrow> bool" where
  "resumable st st' k lo hi \<longleftrightarrow>
     (st' k = st k \<or> (\<exists>l. st' k = Some l \<and> lo \<le> MaxEntry l \<and> MaxEntry l \<le> hi)) \<and> (\<forall>k'. k' \<noteq> k \<longrightarrow> st' k' = st k')"

lemma resumable_mono: "resumable st st' k lo hi \<Longrightarrow> hi \<le> hi' \<Longrightarrow> resumable st st' k lo hi'"
  by (auto simp: resumable_def intro: order_trans)

locale ct_sync = ct_server ops leaf + log_states cd state_of ok
  for ops :: "('l, 'w) ct_ops" and leaf :: "nat \<Rightarrow> 'l" and cd :: "'d CertDatabase"
    and state_of :: "'d \<Rightarrow> string \<Rightarrow> CertificateLog option" and ok :: "'d \<Rightarrow> bool"
begin

lemma resumable_step:
  assumes "ct_step cd ops s s'" and "ct_inv ops leaf lw ch s" and "unat (EndPos lw) < 2 ^ 63"
    and "ok (ld_database (cs_ld s))"
    and "resumable st (state_of (ld_database (cs_ld s))) (ShortURL (LogState lw)) (StartPos lw) (cs_index s)"
  shows "ok (ld_database (cs_ld s')) \<and>
    resumable st (state_of (ld_database (cs_ld s'))) (ShortURL (LogState lw)) (StartPos lw) (cs_index s')"
  using assms(1)
proof cases
  case (ticked entry entries e w1 lw1 d1)
  have u: "ShortURL (LogState (cs_lw s)) = ShortURL (LogState lw)" "StartPos lw \<le> cs_index s"
    using assms(2) by (simp_all add: ct_inv_def)
  show ?thesis using saveState_state [OF ticked(5) assms(4)] assms(5) u ticked(1) by (auto simp: resumable_def)
next
  case (skipped entry entries err)
  have "cs_index s \<le> cs_index s + 1" using next_pending(2) [OF assms(2,3) skipped(2)] by (simp add: word_le_nat_alt)
  then show ?thesis using assms(4,5) skipped(1) by (simp add: resumable_mono)
next
  case (submitted entry entries e w1)
  have "cs_index s \<le> cs_index s + 1" using next_pending(2) [OF assms(2,3) submitted(2)] by (simp add: word_le_nat_alt)
  then show ?thesis using assms(4,5) submitted(1) by (simp add: resumable_mono)
qed (use assms(4,5) in simp_all)

lemma resumable_steps:
  assumes "ct_steps cd ops s s'" and "ct_inv ops leaf lw ch s" and "unat (EndPos lw) < 2 ^ 63"
    and "ok (ld_database (cs_ld s))"
    and "resumable st (state_of (ld_database (cs_ld s))) (ShortURL (LogState lw)) (StartPos lw) (cs_index s)"
  shows "ct_inv ops leaf lw ch s' \<and> ok (ld_database (cs_ld s')) \<and>
    resumable st (state_of (ld_database (cs_ld s'))) (ShortURL (LogState lw)) (StartPos lw) (cs_index s')"
  using assms
proof (induction rule: rtranclp_induct)
  case (step y z)
  then show ?case using ct_inv_step [OF step(2) _ assms(3)] resumable_step [OF step(2) _ assms(3)] by blast
qed simp

end

subsection \<open>A server that answers\<close>

text \<open>
  \<open>delays w\<close> bounds how often the world \<open>w\<close> still makes the loop wait: by answering with status 429 or by
  letting the ticker fire before an entry is taken from the channel. A response has an entry.
\<close>

definition may_signal :: "('l, 'w) ct_ops \<Rightarrow> bool" where
  "may_signal ops \<longleftrightarrow> (\<exists>w w'. ct_select ops w = (SignalCaught, w'))"

locale ct_live = ct_sync ops leaf cd state_of ok
  for ops :: "('l, 'w) ct_ops" and leaf :: "nat \<Rightarrow> 'l" and cd :: "'d CertDatabase"
    and state_of :: "'d \<Rightarrow> string \<Rightarrow> CertificateLog option" and ok :: "'d \<Rightarrow> bool" +
  fixes delays :: "'w \<Rightarrow> nat"
  assumes answers: "GetRawEntries ops (int lo) (int hi) w = (Inr ls, w') \<Longrightarrow> lo \<le> hi \<Longrightarrow> ls \<noteq> [] \<and> delays w' \<le> delays w"
    and waits: "GetRawEntries ops lo' hi' w = (Inl err, w') \<Longrightarrow> too_many_requests err \<Longrightarrow> delays w' < delays w"
    and ticks: "ct_select ops w = (SaveTick, w') \<Longrightarrow> delays w' < delays w"
    and sends: "ct_select ops w = (Submitted, w') \<Longrightarrow> delays w' \<le> delays w"
begin

lemma entrySavedLoop_total:
  "\<exists>sent lw' ld'. entrySavedLoop cd ops ep index t lw ld = Some (Done (sent, lw', ld')) \<and> EndPos lw' = EndPos lw \<and>
     (sent \<longrightarrow> delays (ld_world ld') \<le> delays (ld_world ld)) \<and> (\<not> sent \<longrightarrow> may_signal ops)"
proof (induction "delays (ld_world ld)" arbitrary: lw ld rule: less_induct)
  case less
  obtain sel w1 where s: "ct_select ops (ld_world ld) = (sel, w1)" by fastforce
  show ?case
  proof (cases sel)
    case SaveTick
    obtain lw1 d1 where sv: "saveState cd index t (ct_Now ops w1) lw (ld_database ld) = Done (lw1, d1)"
      using saveState_total by blast
    have lt: "delays w1 < delays (ld_world ld)" using ticks s SaveTick by blast
    then obtain sent lw' ld' where r: "entrySavedLoop cd ops ep index t lw1 (ld\<lparr>ld_database := d1, ld_world := w1\<rparr>) = Some (Done (sent, lw', ld'))"
      "EndPos lw' = EndPos lw1" "sent \<longrightarrow> delays (ld_world ld') \<le> delays w1" "\<not> sent \<longrightarrow> may_signal ops"
      using less [of "ld\<lparr>ld_database := d1, ld_world := w1\<rparr>" lw1] by auto
    then show ?thesis using lt saveState_lw(1) [OF sv]
      by (intro exI [of _ sent] exI [of _ lw'] exI [of _ ld'])
        (auto simp: entrySavedLoop.simps [of cd ops ep index t lw ld] s SaveTick sv split: if_splits)
  next
    case SignalCaught
    then show ?thesis using s by (auto simp: entrySavedLoop.simps [of cd ops ep index t lw ld] may_signal_def)
  next
    case Submitted
    then show ?thesis using s sends [OF s [unfolded Submitted]] by (auto simp: entrySavedLoop.simps [of cd ops ep index t lw ld])
  qed
qed

lemma submit_entries_total:
  "\<exists>go index' t' lw' ld'. submit_entries cd ops ls index t lw ld = Some (Done (go, index', t', lw', ld')) \<and> EndPos lw' = EndPos lw \<and>
     (go \<longrightarrow> index' = index + of_nat (length ls) \<and> delays (ld_world ld') \<le> delays (ld_world ld)) \<and>
     (\<not> go \<longrightarrow> may_signal ops)"
proof (induction ls arbitrary: index t lw ld)
  case (Cons entry ls)
  show ?case
  proof (cases "LogEntryFromLeaf ops (sint index) entry")
    case (Inl err)
    then have u: "submit_entries cd ops (entry # ls) index t lw ld = submit_entries cd ops ls (index + 1) t lw ld" by simp
    have "index + of_nat (length (entry # ls)) = index + 1 + of_nat (length ls)" by (simp add: ac_simps)
    with Cons [of "index + 1" t lw ld] show ?thesis unfolding u by metis
  next
    case (Inr e)
    obtain sent lw1 ld1 where l: "entrySavedLoop cd ops \<lparr>ep_LogEntry = e, ep_LogURL = LogURL lw\<rparr> index t lw ld = Some (Done (sent, lw1, ld1))"
      "EndPos lw1 = EndPos lw"
      "sent \<longrightarrow> delays (ld_world ld1) \<le> delays (ld_world ld)" "\<not> sent \<longrightarrow> may_signal ops"
      using entrySavedLoop_total by blast
    show ?thesis
    proof (cases sent)
      case True
      obtain go i' t' lw' ld' where
        "submit_entries cd ops ls (index + 1) (Some (uint64ToTimestamp (le_Timestamp e))) lw1 ld1 = Some (Done (go, i', t', lw', ld'))"
        "EndPos lw' = EndPos lw1" "go \<longrightarrow> i' = index + 1 + of_nat (length ls) \<and> delays (ld_world ld') \<le> delays (ld_world ld1)"
        "\<not> go \<longrightarrow> may_signal ops" using Cons by blast
      then show ?thesis using l True Inr
        by (intro exI [of _ go] exI [of _ i'] exI [of _ t'] exI [of _ lw'] exI [of _ ld']) (auto simp: ac_simps)
    next
      case False
      then show ?thesis using l Inr by auto
    qed
  qed
qed auto

lemma download_loop_total:
  assumes "unat (EndPos lw) < 2 ^ 63" and "index \<le> EndPos lw"
  shows "\<exists>index' t' err lw' ld'. download_loop cd ops index t lw ld = Some (Done ((index', t', err), lw', ld')) \<and>
    (err = None \<longrightarrow> EndPos lw \<le> index' \<or> may_signal ops)"
  using assms
proof (induction "unat (EndPos lw) - unat index + delays (ld_world ld)" arbitrary: index t lw ld rule: less_induct)
  case less
  note unf = download_loop.simps [of cd ops index t lw ld]
  show ?case
  proof (cases "index < EndPos lw")
    case lt: True
    obtain resp w1 where g: "GetRawEntries ops (sint index) (sint (range_max index (EndPos lw))) (ld_world ld) = (resp, w1)"
      by fastforce
    let ?ld = "ld\<lparr>ld_world := w1\<rparr>"
    show ?thesis
    proof (cases resp)
      case (Inl e)
      show ?thesis
      proof (cases "too_many_requests e")
        case True
        then have "delays w1 < delays (ld_world ld)" using waits g Inl by blast
        then have "\<exists>index' t' err lw' ld'. download_loop cd ops index t lw ?ld = Some (Done ((index', t', err), lw', ld')) \<and>
            (err = None \<longrightarrow> EndPos lw \<le> index' \<or> may_signal ops)"
          using less.prems by (intro less.hyps) simp_all
        then show ?thesis unfolding unf using lt g Inl True by simp
      next
        case False
        then show ?thesis unfolding unf using lt g Inl by simp
      qed
    next
      case (Inr entries)
      note b = request_bounds [OF lt less.prems(1)]
      have ne: "entries \<noteq> []" and de: "delays w1 \<le> delays (ld_world ld)"
        using answers [OF g [unfolded Inr b(1,2)] b(3)] by auto
      note ls = response_entries(2) [OF lt less.prems(1) g [unfolded Inr]]
      obtain go i1 t1 lw1 ld1 where s: "submit_entries cd ops entries index t lw ?ld = Some (Done (go, i1, t1, lw1, ld1))"
        "EndPos lw1 = EndPos lw" "go \<longrightarrow> i1 = index + of_nat (length entries) \<and> delays (ld_world ld1) \<le> delays w1"
        "\<not> go \<longrightarrow> may_signal ops" using submit_entries_total [of entries index t lw ?ld] by auto
      show ?thesis
      proof (cases go)
        case True
        have "unat i1 = unat index + length entries"
          using s(3) True ls less.prems(1) by (simp add: unat_word_ariths unat_of_nat)
        moreover have "delays (ld_world ld1) \<le> delays (ld_world ld)" using s(3) True de by simp
        ultimately have "\<exists>index' t' err lw' ld'. download_loop cd ops i1 t1 lw1 ld1 = Some (Done ((index', t', err), lw', ld')) \<and>
            (err = None \<longrightarrow> EndPos lw1 \<le> index' \<or> may_signal ops)"
          using ls ne lt less.prems s(2) by (intro less.hyps) (auto simp: word_le_nat_alt word_less_nat_alt simp flip: length_greater_0_conv)
        then show ?thesis unfolding unf using lt g Inr s True by simp
      next
        case False
        then show ?thesis unfolding unf using lt g Inr s by simp
      qed
    qed
  next
    case False
    then show ?thesis unfolding unf by auto
  qed
qed

end

subsection \<open>The filesystem database over the mocks\<close>

definition fs_state :: "json_codec \<Rightarrow> (MockBackend, MockRemoteCache, 'g) FilesystemDatabase \<Rightarrow> string \<Rightarrow> CertificateLog option" where
  "fs_state js db k =
     (case fst (fst (Mock_LoadLogState js k (extCache db))) of
        Some l \<Rightarrow> Some l
      | None \<Rightarrow>
          (case map_of (mb_store (backend db)) (''logstate'' @ k) of
             None \<Rightarrow> None
           | Some data \<Rightarrow> (case js_Unmarshal js data of Inl _ \<Rightarrow> None | Inr l \<Rightarrow> Some l)))"

definition fs_fine :: "json_codec \<Rightarrow> (MockBackend, MockRemoteCache, 'g) FilesystemDatabase \<Rightarrow> bool" where
  "fs_fine js db \<longleftrightarrow> (\<forall>k l. fs_state js db k = Some l \<longrightarrow> ShortURL l = k)"

lemma Mock_LoadLogState_keeps: "snd (Mock_LoadLogState js k c) = c"
  by (simp add: Mock_LoadLogState_def split: option.split sum.split)

lemma fs_state_cong:
  "map_of (Data (extCache d')) k = map_of (Data (extCache d)) k \<Longrightarrow>
   map_of (mb_store (backend d')) (''logstate'' @ k) = map_of (mb_store (backend d)) (''logstate'' @ k) \<Longrightarrow>
   fs_state js d' k = fs_state js d k"
  by (simp add: fs_state_def Mock_LoadLogState_def split: option.split sum.split)

lemma fs_log_states:
  fixes gc :: "'g gcache_ops"
  assumes rt: "\<And>l data. js_Marshal js l = Inr data \<Longrightarrow> js_Unmarshal js data = Inr l"
  shows "log_states (FilesystemDatabase_ops (MockBackend_ops js) (MockRemoteCache_ops js) gc up) (fs_state js) (fs_fine js)"
proof
  let ?cd = "FilesystemDatabase_ops (MockBackend_ops js) (MockRemoteCache_ops js) gc up"
  show "\<exists>e d'. cd_SaveLogState ?cd l t d = Done (e, d')" for l t d
    by (simp add: FilesystemDatabase_ops_def SaveLogState_def mock_ops_simps case_prod_beta Let_def)
  show "fs_fine js d' \<and> (fs_state js d' = (fs_state js d)(ShortURL l \<mapsto> l) \<or> e \<noteq> None \<and> fs_state js d' = fs_state js d)"
    if "cd_SaveLogState ?cd l t d = Done (e, d')" "fs_fine js d" for l t d e d'
  proof (cases "js_Marshal js l")
    case (Inl err)
    then have "e = Some err" "fs_state js d' = fs_state js d" using that(1)
      by (auto simp: FilesystemDatabase_ops_def SaveLogState_def mock_ops_simps mb_ops_simps Mock_StoreLogState_def
          MB_StoreLogState_def fs_state_def fun_eq_iff)
    then show ?thesis using that(2) by (simp add: fs_fine_def)
  next
    case (Inr data)
    have d': "d' = d\<lparr>extCache := (extCache d)\<lparr>Data := AList.update (ShortURL l) [string_of_bytes data] (Data (extCache d))\<rparr>,
        backend := (backend d)\<lparr>mb_store := AList.update (''logstate'' @ ShortURL l) data (mb_store (backend d))\<rparr>\<rparr>"
      using that(1) Inr by (simp add: FilesystemDatabase_ops_def SaveLogState_def mock_ops_simps mb_ops_simps
          Mock_StoreLogState_def MB_StoreLogState_def)
    have "fs_state js d' k = (if k = ShortURL l then Some l else fs_state js d k)" for k
    proof (cases "k = ShortURL l")
      case True
      then show ?thesis using rt [OF Inr] by (simp add: d' fs_state_def Mock_LoadLogState_def)
    next
      case False
      then have "fs_state js d' k = fs_state js d k" by (intro fs_state_cong) (simp_all add: d')
      then show ?thesis using False by simp
    qed
    then have "fs_state js d' = (fs_state js d)(ShortURL l \<mapsto> l)" by (simp add: fun_eq_iff)
    then show ?thesis using that(2) by (auto simp: fs_fine_def)
  qed
  show "fs_fine js d' \<and> fs_state js d' = fs_state js d \<and>
      l = (case fs_state js d (url_Host u @ url_Path u) of None \<Rightarrow> new_log (url_Host u @ url_Path u) | Some l' \<Rightarrow> l')"
    if "cd_GetLogState ?cd u t d = Done ((l, None), d')" "fs_fine js d" for u t d l d'
  proof -
    let ?k = "url_Host u @ url_Path u"
    obtain r where c: "Mock_LoadLogState js ?k (extCache d) = (r, extCache d)"
      using Mock_LoadLogState_keeps [of js ?k "extCache d"] by (metis prod.collapse)
    then have d: "d' = d" using that(1)
      by (auto simp: FilesystemDatabase_ops_def GetLogState_def mock_ops_simps Let_def split: prod.splits option.splits)
    moreover have "l = (case fs_state js d ?k of None \<Rightarrow> new_log ?k | Some l' \<Rightarrow> l')" using that(1) c
      by (auto simp: FilesystemDatabase_ops_def GetLogState_def mock_ops_simps mb_ops_simps Let_def fs_state_def MB_LoadLogState_def
          split: prod.splits option.splits sum.splits)
    ultimately show ?thesis using that(2) by simp
  qed
  show "fs_fine js d \<Longrightarrow> fs_state js d k = Some l \<Longrightarrow> ShortURL l = k" for d k l by (simp add: fs_fine_def)
qed

text \<open>A codec of log states that reads back what it wrote: numbers in binary, with an end mark.\<close>

fun enc_nat :: "nat \<Rightarrow> bytes" where
  "enc_nat n = (if n = 0 then [2] else (if odd n then 1 else 0) # enc_nat (n div 2))"

declare enc_nat.simps [simp del]

fun dec_nat :: "bytes \<Rightarrow> (nat \<times> bytes) option" where
  "dec_nat [] = None"
| "dec_nat (b # bs) = (if b = 2 then Some (0, bs)
     else (case dec_nat bs of None \<Rightarrow> None | Some (n, r) \<Rightarrow> Some ((if b = 1 then 1 else 0) + 2 * n, r)))"

lemma dec_enc_nat [simp]: "dec_nat (enc_nat n @ r) = Some (n, r)"
proof (induction n rule: enc_nat.induct)
  case (1 n)
  then show ?case by (cases "n = 0") (auto simp: enc_nat.simps [of n] enc_nat.simps [of 0] elim: oddE evenE)
qed

definition enc_int :: "int \<Rightarrow> bytes" where
  "enc_int i = (if i < 0 then 1 else 0) # enc_nat (nat \<bar>i\<bar>)"

fun dec_int :: "bytes \<Rightarrow> (int \<times> bytes) option" where
  "dec_int [] = None"
| "dec_int (b # bs) = map_option (\<lambda>(n, r). (if b = 1 then - int n else int n, r)) (dec_nat bs)"

lemma dec_enc_int [simp]: "dec_int (enc_int i @ r) = Some (i, r)"
  by (simp add: enc_int_def)

definition log_codec :: json_codec where
  "log_codec =
     \<lparr>js_Marshal = \<lambda>l. Inr (enc_int (uint (MaxEntry l)) @ enc_int (LastEntryTime l) @ enc_int (LastUpdateTime l) @ bytes_of_string (ShortURL l)),
      js_Unmarshal = \<lambda>bs. (case dec_int bs of None \<Rightarrow> Inl (StdError ''json'') | Some (m, r1) \<Rightarrow>
        (case dec_int r1 of None \<Rightarrow> Inl (StdError ''json'') | Some (t, r2) \<Rightarrow>
          (case dec_int r2 of None \<Rightarrow> Inl (StdError ''json'') | Some (u, r3) \<Rightarrow>
             Inr \<lparr>ShortURL = string_of_bytes r3, MaxEntry = word_of_int m, LastEntryTime = t, LastUpdateTime = u\<rparr>)))\<rparr>"

lemma log_codec_round_trip: "js_Marshal log_codec l = Inr data \<Longrightarrow> js_Unmarshal log_codec data = Inr l"
  by (auto simp: log_codec_def)

text \<open>
  A server with a log of numbers, of which the fourth is no certificate. It sends at most two entries,
  after one response of status 429, and the ticker fires once.
\<close>

definition demo_entry :: "nat \<Rightarrow> LogEntry" where
  "demo_entry i = \<lparr>le_Index = of_nat i, le_Timestamp = 1600000000123, EntryType = X509LogEntryType, X509Cert = Some fresh_cert,
     Precert_Submitted = None, Chain = [[1]]\<rparr>"

definition demo_ops :: "(nat, nat) ct_ops" where
  "demo_ops =
     \<lparr>client_New = \<lambda>_. None, GetSTH = \<lambda>_ w. (Inr 5, w),
      GetRawEntries = \<lambda>lo hi w. if w = 2 then (Inl (ExtError ''got HTTP Status 429''), 1)
        else (Inr [nat lo..<Suc (min (nat hi) (Suc (nat lo)))], w),
      LogEntryFromLeaf = \<lambda>i l. if l = 3 then Inl (ExtError ''bad'') else Inr (demo_entry l),
      ct_ParseCertificate = \<lambda>_. Inr (sample_cert []),
      ct_select = \<lambda>w. if w = 1 then (SaveTick, 0) else (Submitted, w),
      ct_health = \<lambda>w. (True, w), ct_poll = \<lambda>w. (True, w), ct_Now = \<lambda>w. 7\<rparr>"

definition demo_cd :: "(MockBackend, MockRemoteCache, (string \<times> nat) list) FilesystemDatabase CertDatabase" where
  "demo_cd = FilesystemDatabase_ops (MockBackend_ops log_codec) (MockRemoteCache_ops log_codec) (fifo_gcache 2) any_url"

interpretation demo_states: log_states demo_cd "fs_state log_codec" "fs_fine log_codec"
  unfolding demo_cd_def by (rule fs_log_states) (rule log_codec_round_trip)

interpretation demo: ct_live demo_ops "\<lambda>i. i" demo_cd "fs_state log_codec" "fs_fine log_codec" "\<lambda>w. w"
proof unfold_locales
  show "\<exists>n\<le>Suc hi - lo. ls = map (\<lambda>i. i) [lo..<lo + n]"
    if "GetRawEntries demo_ops (int lo) (int hi) w = (Inr ls, w')" "lo \<le> hi" for lo hi w ls w'
    using that by (intro exI [of _ "Suc (min hi (Suc lo)) - lo"]) (auto simp: demo_ops_def split: if_splits)
  show "ls \<noteq> [] \<and> w' \<le> w"
    if "GetRawEntries demo_ops (int lo) (int hi) w = (Inr ls, w')" "lo \<le> hi" for lo hi w ls w'
    using that by (auto simp: demo_ops_def split: if_splits)
  show "w' < w" if "GetRawEntries demo_ops lo hi w = (Inl err, w')" for lo hi w err w'
    using that by (auto simp: demo_ops_def split: if_splits)
  show "w' < w" if "ct_select demo_ops w = (SaveTick, w')" for w w'
    using that by (auto simp: demo_ops_def split: if_splits)
  show "w' \<le> w" if "ct_select demo_ops w = (Submitted, w')" for w w'
    using that by (auto simp: demo_ops_def split: if_splits)
qed

lemma demo_no_signal: "\<not> may_signal demo_ops"
  by (auto simp: may_signal_def demo_ops_def split: if_splits)

definition demo_engine :: "((MockBackend, MockRemoteCache, (string \<times> nat) list) FilesystemDatabase, nat) LogSyncEngine" where
  "demo_engine = \<lparr>ld_database = sample_db, entryChan = [], lastUpdateTime = 0, ld_world = 2\<rparr>"

definition demo_lw :: LogWorker where
  "demo_lw = \<lparr>LogURL = ''u'', TreeSize = 5, LogState = new_log ''u'', StartPos = 0, EndPos = 5\<rparr>"

lemma demo_fine: "fs_fine log_codec (ld_database demo_engine)"
  by (simp add: fs_fine_def fs_state_def demo_engine_def sample_db_def NewFilesystemDatabase_def NewMockRemoteCache_def
      NewMockBackend_def Mock_LoadLogState_def)

lemma demo_range: "StartPos demo_lw \<le> EndPos demo_lw" "unat (EndPos demo_lw) < 2 ^ 63"
  by (simp_all add: demo_lw_def)

lemma demo_entries: "log_entries demo_ops (\<lambda>i. i) ''u'' 0 5 = map (\<lambda>i. \<lparr>ep_LogEntry = demo_entry i, ep_LogURL = ''u''\<rparr>) [0, 1, 2, 4]"
proof -
  have "[0..<5] = [0, 1, 2, 3, 4 :: nat]" by (simp add: upt_rec)
  then show ?thesis by (simp add: log_entries_def List.map_filter_def demo_ops_def)
qed

subsection \<open>Lemmas: database threads\<close>

text \<open>
  What the database should be asked to store, written down without the functions of the program: the
  certificate an entry carries, which certificates are wanted, and of which entries certificate and
  issuer, URL of the log and index are handed over.
\<close>

type_synonym stored = "Certificate \<times> Certificate \<times> string \<times> 64 word"

definition certificate_in :: "('l, 'w) ct_ops \<Rightarrow> LogEntry \<Rightarrow> Certificate option" where
  "certificate_in ops e =
     (if EntryType e = X509LogEntryType then X509Cert e
      else if EntryType e = PrecertLogEntryType
      then Option.bind (Precert_Submitted e) (\<lambda>bs. case ct_ParseCertificate ops bs of Inl _ \<Rightarrow> None | Inr c \<Rightarrow> Some c)
      else None)"

definition wanted :: "ct_config \<Rightarrow> time \<Rightarrow> Certificate \<Rightarrow> bool" where
  "wanted cf now c \<longleftrightarrow>
     \<not> (BasicConstraintsValid c \<and> IsCA c) \<and>
     (now \<le> NotAfter c \<or> LogExpiredEntries cf) \<and>
     (IssuerCNFilter cf = [] \<or>
      (\<exists>p \<in> set (strings_Split (IssuerCNFilter cf) '',''). prefix p (cert_Issuer_CommonName c)))"

definition accepted :: "ct_config \<Rightarrow> ('l, 'w) ct_ops \<Rightarrow> time \<Rightarrow> CtLogEntry \<Rightarrow> stored option" where
  "accepted cf ops now ep =
     (case (certificate_in ops (ep_LogEntry ep), map (ct_ParseCertificate ops) (Chain (ep_LogEntry ep))) of
        (Some c, Inr i # _) \<Rightarrow> if wanted cf now c then Some (c, i, ep_LogURL ep, le_Index (ep_LogEntry ep)) else None
      | _ \<Rightarrow> None)"

fun store_all :: "'d CertDatabase \<Rightarrow> time \<Rightarrow> stored list \<Rightarrow> 'd \<Rightarrow> 'd" where
  "store_all cd now [] d = d"
| "store_all cd now ((cert, issuer, url, n) # xs) d =
     store_all cd now xs (case cd_Store cd cert issuer url n now d of Done (_, d1) \<Rightarrow> d1 | _ \<Rightarrow> d)"

text \<open>
  An entry as the CT library makes them: it is of one of the two kinds and has the part of its kind,
  and the serial number of its certificate can be read.
\<close>

definition library_entry :: "('l, 'w) ct_ops \<Rightarrow> LogEntry \<Rightarrow> bool" where
  "library_entry ops e \<longleftrightarrow>
     (EntryType e = X509LogEntryType \<and> X509Cert e \<noteq> None \<or>
      EntryType e = PrecertLogEntryType \<and> Precert_Submitted e \<noteq> None) \<and>
     (\<forall>c. certificate_in ops e = Some c \<longrightarrow> (\<exists>s. NewSerial c = Done s))"

text \<open>A certificate that can be stored: its date of expiry has a year of four digits, and its serial number can be read.\<close>

definition storable :: "stored \<Rightarrow> bool" where
  "storable x \<longleftrightarrow> four_digit_year (NotAfter (fst x)) \<and> (\<exists>s. NewSerial (fst x) = Done s)"

lemma filtered_unless_wanted: "certIsFilteredOut cf now c \<longleftrightarrow> \<not> wanted cf now c"
  by (auto simp: certIsFilteredOut_def wanted_def time_Before_def list_ex_iff strings_HasPrefix_def)

lemma library_entry_cert:
  assumes "library_entry ops e"
  obtains (unparsable) err where "entry_cert ops e = Done (Inl err)" "certificate_in ops e = None"
  | (certificate) c s where "entry_cert ops e = Done (Inr (Some c))" "certificate_in ops e = Some c" "NewSerial c = Done s"
proof (cases "EntryType e = X509LogEntryType")
  case True
  then show ?thesis using assms certificate by (auto simp: library_entry_def certificate_in_def entry_cert_def)
next
  case False
  then obtain bs where "EntryType e = PrecertLogEntryType" "Precert_Submitted e = Some bs" using assms by (auto simp: library_entry_def)
  then show ?thesis using assms that
    by (cases "ct_ParseCertificate ops bs") (auto simp: library_entry_def certificate_in_def entry_cert_def)
qed

lemma insert_entry_result:
  assumes clock: "\<And>w. ct_Now ops w = now"
    and store: "\<And>c i u n. accepted cf ops now ep = Some (c, i, u, n) \<Longrightarrow> \<exists>e d'. cd_Store cd c i u n now (ld_database ld) = Done (e, d')"
    and "library_entry ops (ep_LogEntry ep)"
  shows "\<exists>ld'. insert_entry cf cd ops ep ld = Done ld' \<and> entryChan ld' = entryChan ld \<and>
    ld_database ld' = store_all cd now (case accepted cf ops now ep of None \<Rightarrow> [] | Some x \<Rightarrow> [x]) (ld_database ld)"
  using assms(3)
proof (cases rule: library_entry_cert)
  case (unparsable err)
  then show ?thesis by (simp add: insert_entry_def accepted_def)
next
  case (certificate cert sn)
  note defs = insert_entry_def accepted_def certificate clock filtered_unless_wanted
  let ?e = "ep_LogEntry ep"
  show ?thesis
  proof (cases "wanted cf now cert \<and> Chain ?e \<noteq> [] \<and> (\<exists>ic. ct_ParseCertificate ops (hd (Chain ?e)) = Inr ic)")
    case False
    then show ?thesis by (cases "Chain ?e") (auto simp: defs Let_def split: sum.split)
  next
    case True
    then obtain ic rest iss where ch: "Chain ?e = iss # rest" and ic: "ct_ParseCertificate ops iss = Inr ic"
      by (cases "Chain ?e") auto
    obtain er d' where "cd_Store cd cert ic (ep_LogURL ep) (le_Index ?e) now (ld_database ld) = Done (er, d')"
      using store [of cert ic "ep_LogURL ep" "le_Index ?e"] True ch ic by (auto simp: accepted_def certificate)
    then show ?thesis using True ch ic by (simp add: defs case_prod_beta Let_def)
  qed
qed

lemma store_all_append: "store_all cd now (xs @ ys) d = store_all cd now ys (store_all cd now xs d)"
  by (induction cd now xs d rule: store_all.induct) simp_all

text \<open>
  What a database thread relies on of the database: as long as the database is in a good state, storing
  a certificate that fits returns, with an error or without, and leaves it in a good state.
\<close>

locale cert_store =
  fixes cd :: "'d CertDatabase" and good :: "'d \<Rightarrow> bool" and fit :: "stored \<Rightarrow> bool"
  assumes store_returns: "good d \<Longrightarrow> fit (c, i, u, n) \<Longrightarrow> \<exists>e d'. cd_Store cd c i u n now d = Done (e, d') \<and> good d'"
begin

lemma worker_stores:
  assumes "\<And>w. ct_Now ops w = now" and "good (ld_database ld)"
    and "\<forall>ep \<in> set eps. library_entry ops (ep_LogEntry ep)"
    and "\<forall>x \<in> set (List.map_filter (accepted cf ops now) eps). fit x"
  shows "\<exists>ld'. insertCTWorker cf cd ops eps ld = Done ld' \<and> good (ld_database ld') \<and>
    ld_database ld' = store_all cd now (List.map_filter (accepted cf ops now) eps) (ld_database ld)"
  using assms(2-4)
proof (induction eps arbitrary: ld)
  case (Cons ep eps)
  let ?new = "case accepted cf ops now ep of None \<Rightarrow> [] | Some x \<Rightarrow> [x]"
  have st: "\<exists>e d'. cd_Store cd c i u n now (ld_database ld) = Done (e, d') \<and> good d'"
    if "accepted cf ops now ep = Some (c, i, u, n)" for c i u n
    using store_returns [OF Cons.prems(1)] Cons.prems(3) that by (simp add: List.map_filter_simps)
  then have "\<exists>e d'. cd_Store cd c i u n now (ld_database ld) = Done (e, d')"
    if "accepted cf ops now ep = Some (c, i, u, n)" for c i u n using that by blast
  then obtain ld1 where l: "insert_entry cf cd ops ep ld = Done ld1" "ld_database ld1 = store_all cd now ?new (ld_database ld)"
    using insert_entry_result [OF assms(1), where ep = ep and cf = cf and ld = ld and cd = cd] Cons.prems(2) by auto
  have "good (ld_database ld1)"
  proof (cases "accepted cf ops now ep")
    case (Some x)
    obtain c i u n where "x = (c, i, u, n)" using prod_cases4 by blast
    then show ?thesis using st [of c i u n] Some l(2) by auto
  qed (use Cons.prems(1) l(2) in simp)
  then obtain ld2 where "insertCTWorker cf cd ops eps ld1 = Done ld2" "good (ld_database ld2)"
    "ld_database ld2 = store_all cd now (List.map_filter (accepted cf ops now) eps) (ld_database ld1)"
    using Cons.IH [of ld1] Cons.prems(2,3) by (auto simp: List.map_filter_simps split: option.splits)
  then show ?case using l by (cases "accepted cf ops now ep") (auto simp: List.map_filter_simps)
qed (simp add: List.map_filter_simps)

end

text \<open>
  The database over the mock cache is such a store, with any backend, whether it fails or not, and any
  local cache.
\<close>

lemma fs_cert_store:
  fixes sb :: "'b StorageBackend" and gc :: "'g gcache_ops"
  assumes "local_cache gc held"
  shows "cert_store (FilesystemDatabase_ops sb (MockRemoteCache_ops js) gc up) (db_ok up held) storable"
proof
  fix d :: "('b, MockRemoteCache, 'g) FilesystemDatabase" and c i u n now
  assume "db_ok up held d" and "storable (c, i, u, n)"
  then show "\<exists>e d'. cd_Store (FilesystemDatabase_ops sb (MockRemoteCache_ops js) gc up) c i u n now d = Done (e, d') \<and> db_ok up held d'"
    using Store_mock_returns [OF assms] by (auto simp: FilesystemDatabase_ops_def storable_def)
qed

interpretation fs_store: cert_store "FilesystemDatabase_ops sb (MockRemoteCache_ops js) (fifo_gcache n) up" "db_ok up map_of" storable
  by (rule fs_cert_store) (rule fifo.local_cache_axioms)

subsection \<open>Properties\<close>

text \<open>
  C4. Downloading from a server that answers: if every successful response holds entries of the log from
  the index asked for on, at least one and no more than asked for, and if requests are turned away
  with status 429 and the save ticker fires only finitely often, then the download returns, with an
  index between the start and the end of the range; the channel has gained exactly the entries of
  the log before that index that can be parsed, in order, each once; and without an error and
  without a signal the index is the end of the range. The log has fewer than 2^63 entries, and the database is one that
  returns from saving the state of a log and keeps what was saved (the locale \<open>log_states\<close>, which the
  filesystem database over the mocks satisfies).
\<close>

theorem ct_download_live:
  assumes "ct_live ops leaf cd state_of ok delays" and "ok (ld_database ld)"
    and "StartPos lw \<le> EndPos lw" and "unat (EndPos lw) < 2 ^ 63"
  shows "\<exists>index t err lw' ld'. downloadCTRangeToChannel cd ops lw ld = Some (Done ((index, t, err), lw', ld')) \<and>
    StartPos lw \<le> index \<and> index \<le> EndPos lw \<and>
    entryChan ld' = entryChan ld @ log_entries ops leaf (LogURL lw) (unat (StartPos lw)) (unat index) \<and>
    (err = None \<and> \<not> may_signal ops \<longrightarrow> index = EndPos lw)"
proof -
  have sync: "ct_sync ops leaf cd state_of ok" using assms(1) by (simp add: ct_live_def)
  then have server: "ct_server ops leaf" by (simp add: ct_sync_def)
  obtain index t err lw' ld' where r: "download_loop cd ops (StartPos lw) None lw ld = Some (Done ((index, t, err), lw', ld'))"
    and f: "err = None \<longrightarrow> EndPos lw \<le> index \<or> may_signal ops"
    using ct_live.download_loop_total [OF assms(1,4,3)] by blast
  obtain ls where "ct_steps cd ops (ct_start lw ld) (ct_at index t ls lw' ld')"
    using download_loop_steps [OF r refl] by (auto simp: ct_start_def ct_at_def)
  from ct_server.ct_inv_steps [OF server this ct_inv_start [OF assms(3)] assms(4)]
  have i: "ct_inv ops leaf lw (entryChan ld) (ct_at index t ls lw' ld')" .
  then have "StartPos lw \<le> index" "index \<le> EndPos lw"
    "entryChan ld' = entryChan ld @ log_entries ops leaf (LogURL lw) (unat (StartPos lw)) (unat index)"
    by (simp_all add: ct_inv_def ct_at_def word_le_nat_alt)
  then show ?thesis using r f unfolding downloadCTRangeToChannel_def
    by (intro exI [of _ index] exI [of _ t] exI [of _ err] exI [of _ lw'] exI [of _ ld']) auto
qed

theorem ct_download_live_witness:
  "\<exists>index t err lw' ld'. downloadCTRangeToChannel demo_cd demo_ops demo_lw demo_engine = Some (Done ((index, t, err), lw', ld')) \<and>
    (err = None \<longrightarrow> index = 5 \<and> entryChan ld' = map (\<lambda>i. \<lparr>ep_LogEntry = demo_entry i, ep_LogURL = ''u''\<rparr>) [0, 1, 2, 4])"
  using ct_download_live [OF demo.ct_live_axioms demo_fine demo_range] demo_no_signal demo_entries
  by (fastforce simp: demo_lw_def demo_engine_def)

text \<open>
  C5. At every moment of a download, from a server whose responses hold entries of the log from the index
  asked for on: the channel has gained exactly the parsable entries before the current index, and the
  state that the database has for the log is that of before, or one whose \<^verbatim>\<open>MaxEntry\<close> lies between the
  start and the current index; the states of other logs are as before. So a process that dies never
  leaves a state that is ahead of what was put on the channel.
\<close>

theorem ct_crash_safe:
  assumes "ct_sync ops leaf cd state_of ok" and "ok (ld_database ld)"
    and "StartPos lw \<le> EndPos lw" and "unat (EndPos lw) < 2 ^ 63" and "ct_steps cd ops (ct_start lw ld) s"
  shows "entryChan (cs_ld s) = entryChan ld @ log_entries ops leaf (LogURL lw) (unat (StartPos lw)) (unat (cs_index s)) \<and>
    resumable (state_of (ld_database ld)) (state_of (ld_database (cs_ld s))) (ShortURL (LogState lw)) (StartPos lw) (cs_index s)"
proof -
  have i: "resumable (state_of (ld_database ld)) (state_of (ld_database (cs_ld (ct_start lw ld)))) (ShortURL (LogState lw))
      (StartPos lw) (cs_index (ct_start lw ld))" and d: "ok (ld_database (cs_ld (ct_start lw ld)))"
    using assms(2) by (simp_all add: resumable_def ct_start_def)
  from ct_sync.resumable_steps [OF assms(1,5) ct_inv_start [OF assms(3)] assms(4) d i]
  show ?thesis by (simp add: ct_inv_def)
qed

theorem ct_crash_safe_witness:
  "\<exists>s. ct_steps demo_cd demo_ops (ct_start demo_lw demo_engine) s \<and> cs_pending s = [] \<and>
     entryChan (cs_ld s) = log_entries demo_ops (\<lambda>i. i) ''u'' 0 (unat (cs_index s))"
proof -
  let ?s = "ct_start demo_lw demo_engine :: (nat, _, _) ct_state"
  have "ct_step demo_cd demo_ops ?s (?s\<lparr>cs_ld := (cs_ld ?s)\<lparr>ld_world := 1\<rparr>\<rparr>)"
    by (rule ct_step.failed) (auto simp: ct_start_def demo_lw_def demo_ops_def demo_engine_def)
  then show ?thesis
    using ct_crash_safe [OF demo.ct_sync_axioms demo_fine demo_range r_into_rtranclp]
    by (intro exI [of _ "?s\<lparr>cs_ld := (cs_ld ?s)\<lparr>ld_world := 1\<rparr>\<rparr>"])
      (auto simp: ct_start_def demo_lw_def demo_engine_def)
qed

text \<open>
  C15. A log is resumed where it was left: when \<^verbatim>\<open>Run\<close> of a worker with something to download has returned
  and the database takes every state, the next worker for the same URL, without the option to start
  elsewhere, starts at the index before which exactly the parsable entries of the log have been put
  on the channel; so no entry is skipped and none is fetched twice.
\<close>

theorem ct_resumes:
  assumes "ct_sync ops leaf cd state_of ok" and "ok (ld_database ld)"
    and "StartPos lw < EndPos lw" and "unat (EndPos lw) < 2 ^ 63"
    and "\<And>l t d e d'. cd_SaveLogState cd l t d = Done (e, d') \<Longrightarrow> e = None"
    and "Run cd ops lw ld = Some (Done (err, ld'))"
    and "up url = Inr u" and "ShortURL (LogState lw) = url_Host u @ url_Path u"
    and "cf_Offset cf = 0" and "NewLogWorker cf cd ops up url ld' = Done (Inr lw2, ld2)"
  shows "StartPos lw \<le> StartPos lw2 \<and> StartPos lw2 \<le> EndPos lw \<and>
    entryChan ld2 = entryChan ld @ log_entries ops leaf (LogURL lw) (unat (StartPos lw)) (unat (StartPos lw2))"
proof -
  let ?k = "url_Host u @ url_Path u"
  have server: "ct_server ops leaf" and states: "log_states cd state_of ok" using assms(1) by (simp_all add: ct_sync_def)
  have le: "StartPos lw \<le> EndPos lw" and ne: "StartPos lw \<noteq> EndPos lw" using assms(3) by auto
  obtain index t er lw1 ld1 lw3 d2 where r: "download_loop cd ops (StartPos lw) None lw ld = Some (Done ((index, t, er), lw1, ld1))"
    and sv: "saveState cd index t (ct_Now ops (ld_world ld1)) lw1 (ld_database ld1) = Done (lw3, d2)"
    and ld': "ld' = ld1\<lparr>ld_database := d2\<rparr>"
    using assms(6) ne by (auto simp: Run_def downloadCTRangeToChannel_def loop_bind_Some)
  obtain ls where st: "ct_steps cd ops (ct_start lw ld) (ct_at index t ls lw1 ld1)"
    using download_loop_steps [OF r refl] by (auto simp: ct_start_def ct_at_def)
  have i: "resumable (state_of (ld_database ld)) (state_of (ld_database (cs_ld (ct_start lw ld)))) (ShortURL (LogState lw))
      (StartPos lw) (cs_index (ct_start lw ld))" and d: "ok (ld_database (cs_ld (ct_start lw ld)))"
    using assms(2) by (simp_all add: resumable_def ct_start_def)
  from ct_sync.resumable_steps [OF assms(1) st ct_inv_start [OF le] assms(4) d i]
  have inv: "ct_inv ops leaf lw (entryChan ld) (ct_at index t ls lw1 ld1)" and okd: "ok (ld_database ld1)" by (simp_all add: ct_at_def)
  then have b: "StartPos lw \<le> index" "index \<le> EndPos lw" "ShortURL (LogState lw1) = ?k"
    "entryChan ld1 = entryChan ld @ log_entries ops leaf (LogURL lw) (unat (StartPos lw)) (unat index)"
    using assms(8) by (simp_all add: ct_inv_def ct_at_def word_le_nat_alt)
  have "unat index < 2 ^ 63" using b(2) assms(4) by (simp add: word_le_nat_alt)
  then have "\<not> index > 0x7FFFFFFFFFFFFFFF" by (simp add: word_less_nat_alt)
  then obtain e where s: "cd_SaveLogState cd (saved_log index t (ct_Now ops (ld_world ld1)) (LogState lw1)) (ct_Now ops (ld_world ld1))
      (ld_database ld1) = Done (e, d2)" using sv by (auto simp: saveState_def run_bind_Done Let_def)
  let ?l = "saved_log index t (ct_Now ops (ld_world ld1)) (LogState lw1)"
  have sl: "ShortURL ?l = ?k" "MaxEntry ?l = index" using b(3) by (simp_all add: saved_log_def)
  have "ok d2" "state_of d2 ?k = Some ?l"
    using log_states.save_state [OF states s okd] assms(5) [OF s] sl(1) by auto
  moreover obtain logObj w1 d3 where "cd_GetLogState cd u (ct_Now ops w1) d2 = Done ((logObj, None), d3)"
    and n: "StartPos lw2 = start_pos cf logObj" "entryChan ld2 = entryChan ld1"
    using assms(10) by (auto simp: NewLogWorker_def ld' assms(7) run_bind_Done Let_def
        split: option.splits sum.splits prod.splits if_splits)
  ultimately have "logObj = ?l" using log_states.get_state [OF states] by fastforce
  then have "StartPos lw2 = index" using n(1) sl(2) assms(9) by (simp add: start_pos_def)
  then show ?thesis using b n(2) by simp
qed

definition demo_config :: ct_config where
  "demo_config = \<lparr>cf_Offset = 0, cf_Limit = 0, LogExpiredEntries = False, IssuerCNFilter = [], SavePeriod = Inr 1,
     RunForever = False, LogUrlList = ''u''\<rparr>"

definition demo_up :: url_Parse where
  "demo_up s = Inr \<lparr>Scheme = ''https'', url_Host = s, url_Path = [], url_String = s\<rparr>"

lemma demo_saves: "cd_SaveLogState demo_cd l t d = Done (e, d') \<Longrightarrow> e = None"
  by (auto simp: demo_cd_def FilesystemDatabase_ops_def SaveLogState_def mock_ops_simps mb_ops_simps Mock_StoreLogState_def
      MB_StoreLogState_def log_codec_def)

lemma demo_gets: "\<exists>l d'. cd_GetLogState demo_cd u t d = Done ((l, None), d')"
proof -
  obtain x er where c: "Mock_LoadLogState log_codec (url_Host u @ url_Path u) (extCache d) = ((x, er), extCache d)"
    using Mock_LoadLogState_keeps by (metis prod.collapse)
  then have "x \<noteq> None \<Longrightarrow> er = None" by (auto simp: Mock_LoadLogState_def split: option.splits if_splits sum.splits)
  then show ?thesis using c
    by (auto simp: demo_cd_def FilesystemDatabase_ops_def GetLogState_def mock_ops_simps mb_ops_simps MB_LoadLogState_def Let_def
        split: option.split sum.split)
qed

theorem ct_resumes_witness:
  "\<exists>err ld' lw2 ld2. Run demo_cd demo_ops demo_lw demo_engine = Some (Done (err, ld')) \<and>
     NewLogWorker demo_config demo_cd demo_ops demo_up ''u'' ld' = Done (Inr lw2, ld2) \<and>
     entryChan ld2 = log_entries demo_ops (\<lambda>i. i) ''u'' 0 (unat (StartPos lw2))"
proof -
  obtain index t er lw1 ld1 where r: "download_loop demo_cd demo_ops (StartPos demo_lw) None demo_lw demo_engine =
      Some (Done ((index, t, er), lw1, ld1))" using demo.download_loop_total [OF demo_range(2,1)] by blast
  obtain lw3 d2 where "saveState demo_cd index t (ct_Now demo_ops (ld_world ld1)) lw1 (ld_database ld1) = Done (lw3, d2)"
    using demo_states.saveState_total by blast
  then have run: "Run demo_cd demo_ops demo_lw demo_engine = Some (Done (er, ld1\<lparr>ld_database := d2\<rparr>))"
    using r by (simp add: Run_def downloadCTRangeToChannel_def) (simp add: demo_lw_def)
  have u: "demo_up ''u'' = Inr \<lparr>Scheme = ''https'', url_Host = ''u'', url_Path = [], url_String = ''u''\<rparr>" by (simp add: demo_up_def)
  obtain lw2 ld2 where n: "NewLogWorker demo_config demo_cd demo_ops demo_up ''u'' (ld1\<lparr>ld_database := d2\<rparr>) = Done (Inr lw2, ld2)"
    using demo_gets [of "\<lparr>Scheme = ''https'', url_Host = ''u'', url_Path = [], url_String = ''u''\<rparr>" 7 d2] by (auto simp: NewLogWorker_def Let_def demo_config_def demo_ops_def u)
  have lt: "StartPos demo_lw < EndPos demo_lw" by (simp add: demo_lw_def)
  show ?thesis using ct_resumes [OF demo.ct_sync_axioms demo_fine lt demo_range(2) demo_saves run u _ _ n] run n
    by (auto simp: demo_lw_def demo_config_def demo_engine_def new_log_def)
qed

text \<open>
  C31. The range of a new worker: it starts at the configured offset or where the log was left, and never
  ends after the tree. With a limit, and if the sum of start and limit does not wrap, it ends at the
  sum or at the tree's size, whichever is smaller, so it has at most as many entries as the limit
  says. A sum that wraps below the tree's size is taken as the end: it is then before the start, and the worker
  downloads nothing.
\<close>

theorem log_worker_range:
  assumes "NewLogWorker cf cd ops up url ld = Done (Inr lw, ld')"
  shows "EndPos lw \<le> TreeSize lw \<and>
    (0 < cf_Offset cf \<longrightarrow> StartPos lw = cf_Offset cf) \<and> (cf_Offset cf = 0 \<longrightarrow> StartPos lw = MaxEntry (LogState lw)) \<and>
    (cf_Limit cf = 0 \<longrightarrow> EndPos lw = TreeSize lw) \<and>
    (0 < cf_Limit cf \<and> unat (StartPos lw) + unat (cf_Limit cf) < 2 ^ 64 \<longrightarrow>
       unat (EndPos lw) = min (unat (StartPos lw) + unat (cf_Limit cf)) (unat (TreeSize lw))) \<and>
    (2 ^ 64 \<le> unat (StartPos lw) + unat (cf_Limit cf) \<and> StartPos lw + cf_Limit cf < TreeSize lw \<longrightarrow>
       EndPos lw < StartPos lw \<and> downloadCTRangeToChannel cd2 ops2 lw ld2 = Some (Done ((StartPos lw, None, None), lw, ld2)))"
proof -
  have lw: "StartPos lw = start_pos cf (LogState lw)" "EndPos lw = end_pos cf (StartPos lw) (TreeSize lw)"
    using assms by (auto simp: NewLogWorker_def run_bind_Done Let_def split: option.splits sum.splits prod.splits if_splits)
  have wrap: "EndPos lw < StartPos lw" if o: "2 ^ 64 \<le> unat (StartPos lw) + unat (cf_Limit cf)"
    and t: "StartPos lw + cf_Limit cf < TreeSize lw"
  proof -
    have lim: "unat (cf_Limit cf) < 2 ^ 64" using unsigned_less [of "cf_Limit cf", where ?'a = nat] by simp
    have "unat (StartPos lw) < 2 ^ 64" using unsigned_less [of "StartPos lw", where ?'a = nat] by simp
    then have "cf_Limit cf > 0" using o by (auto simp: word_less_nat_alt)
    then have e: "EndPos lw = StartPos lw + cf_Limit cf" using lw(2) t by (simp add: end_pos_def)
    have "unat (StartPos lw + cf_Limit cf) = unat (StartPos lw) + unat (cf_Limit cf) - 2 ^ 64"
      using o lim \<open>unat (StartPos lw) < 2 ^ 64\<close> by (simp add: unat_word_ariths mod_if)
    then show ?thesis using e lim o by (simp add: word_less_nat_alt)
  qed
  have lim: "unat (EndPos lw) = min (unat (StartPos lw) + unat (cf_Limit cf)) (unat (TreeSize lw))"
    if "0 < cf_Limit cf" "unat (StartPos lw) + unat (cf_Limit cf) < 2 ^ 64"
  proof -
    have "unat (StartPos lw + cf_Limit cf) = unat (StartPos lw) + unat (cf_Limit cf)" using that(2) by (simp add: unat_word_ariths)
    then show ?thesis using lw(2) that(1) by (auto simp: end_pos_def word_less_nat_alt)
  qed
  have none: "downloadCTRangeToChannel cd2 ops2 lw ld2 = Some (Done ((StartPos lw, None, None), lw, ld2))" if "EndPos lw < StartPos lw"
    using that less_not_sym by (auto simp: downloadCTRangeToChannel_def download_loop.simps [of cd2 ops2 "StartPos lw"])
  have "EndPos lw \<le> TreeSize lw" "cf_Limit cf = 0 \<Longrightarrow> EndPos lw = TreeSize lw" using lw(2) by (auto simp: end_pos_def)
  moreover have "0 < cf_Offset cf \<Longrightarrow> StartPos lw = cf_Offset cf" "cf_Offset cf = 0 \<Longrightarrow> StartPos lw = MaxEntry (LogState lw)"
    using lw(1) by (simp_all add: start_pos_def)
  ultimately show ?thesis using wrap lim none by blast
qed

theorem log_worker_range_witness:
  "\<exists>lw ld'. NewLogWorker (demo_config\<lparr>cf_Limit := 3\<rparr>) demo_cd demo_ops demo_up ''u'' demo_engine = Done (Inr lw, ld') \<and>
     EndPos lw \<le> TreeSize lw"
proof -
  let ?u = "\<lparr>Scheme = ''https'', url_Host = ''u'', url_Path = [], url_String = ''u''\<rparr>"
  obtain l d' where "cd_GetLogState demo_cd ?u 7 (ld_database demo_engine) = Done ((l, None), d')" using demo_gets by blast
  then obtain lw ld' where n: "NewLogWorker (demo_config\<lparr>cf_Limit := 3\<rparr>) demo_cd demo_ops demo_up ''u'' demo_engine = Done (Inr lw, ld')"
    by (auto simp: NewLogWorker_def Let_def demo_config_def demo_ops_def demo_up_def)
  from log_worker_range [OF n, of demo_cd demo_ops demo_engine] n show ?thesis by blast
qed

text \<open>
  C16. The database threads, while the clock stands, for entries as the CT library makes them (of one of
  the two kinds, with the part of that kind and a serial number that can be read), over a database whose
  \<^verbatim>\<open>Store\<close> returns, with an error or without, and keeps an invariant of the database, for each certificate
  it is asked to store (the filesystem database over the mock cache, with any backend and any local cache, is
  one for certificates whose year of expiry has four digits): they end, and do to the database exactly what storing the accepted entries one after the other does, in their order.
  Accepted is an entry whose certificate (of a precertificate, the one submitted) can be parsed, is not
  that of a CA, has not expired unless expired ones are asked for and has one of the configured
  prefixes in the issuer's common name if there are any, and whose chain starts with a certificate that
  can be parsed. Neither an error of the database nor a bad entry stops the thread.
\<close>

theorem insert_worker_stores:
  assumes "cert_store cd good fit" and "\<And>w. ct_Now ops w = now" and "good (ld_database ld)"
    and "\<forall>ep \<in> set eps. library_entry ops (ep_LogEntry ep)"
    and "\<forall>x \<in> set (List.map_filter (accepted cf ops now) eps). fit x"
  shows "\<exists>ld'. insertCTWorker cf cd ops eps ld = Done ld' \<and> good (ld_database ld') \<and>
    ld_database ld' = store_all cd now (List.map_filter (accepted cf ops now) eps) (ld_database ld)"
  using assms by (rule cert_store.worker_stores)

definition leaf_cert :: Certificate where
  "leaf_cert = fresh_cert\<lparr>BasicConstraintsValid := True, IsCA := False\<rparr>"

definition ca_cert :: Certificate where
  "ca_cert = fresh_cert\<lparr>BasicConstraintsValid := True, IsCA := True\<rparr>"

definition leaf_entry :: CtLogEntry where
  "leaf_entry = \<lparr>ep_LogEntry = (demo_entry 1)\<lparr>X509Cert := Some leaf_cert\<rparr>, ep_LogURL = ''u''\<rparr>"

definition ca_entry :: CtLogEntry where
  "ca_entry = \<lparr>ep_LogEntry = (demo_entry 0)\<lparr>X509Cert := Some ca_cert\<rparr>, ep_LogURL = ''u''\<rparr>"

lemma leaf_cert_facts:
  "storable (leaf_cert, i, u, n)" "wanted demo_config 7 leaf_cert" "\<not> wanted demo_config 7 ca_cert"
  "NewSerial leaf_cert = Done (Serial [0, 0xA5])" "NewSerial ca_cert = Done (Serial [0, 0xA5])"
proof -
  show s: "NewSerial leaf_cert = Done (Serial [0, 0xA5])" "NewSerial ca_cert = Done (Serial [0, 0xA5])"
    and "wanted demo_config 7 leaf_cert" "\<not> wanted demo_config 7 ca_cert" by code_simp+
  have "four_digit_year (NotAfter leaf_cert)" by code_simp
  with s show "storable (leaf_cert, i, u, n)" by (simp add: storable_def)
qed

theorem insert_worker_stores_witness:
  "\<exists>ld' err d'. insertCTWorker demo_config demo_cd demo_ops [ca_entry, leaf_entry] demo_engine = Done ld' \<and>
     cd_Store demo_cd leaf_cert (sample_cert []) ''u'' 1 7 sample_db = Done (err, d') \<and> ld_database ld' = d'"
proof -
  note facts = leaf_cert_facts(1) [of "sample_cert []" "''u''" 1] leaf_cert_facts(2-5)
  note defs = leaf_entry_def ca_entry_def demo_entry_def certificate_in_def
  have "library_entry demo_ops (ep_LogEntry ep)" if "ep \<in> set [ca_entry, leaf_entry]" for ep
    using facts(4,5) that by (auto simp: library_entry_def defs)
  moreover have acc: "List.map_filter (accepted demo_config demo_ops 7) [ca_entry, leaf_entry] = [(leaf_cert, sample_cert [], ''u'', 1)]"
    using facts(2,3) by (simp add: List.map_filter_simps accepted_def defs demo_ops_def)
  moreover have ok: "db_ok any_url map_of (ld_database demo_engine)" by (simp add: demo_engine_def sample_db_ok)
  moreover have st: "cert_store demo_cd (db_ok any_url map_of) storable" unfolding demo_cd_def by (rule fs_store.cert_store_axioms)
  ultimately obtain ld' where "insertCTWorker demo_config demo_cd demo_ops [ca_entry, leaf_entry] demo_engine = Done ld'"
    "ld_database ld' = store_all demo_cd 7 [(leaf_cert, sample_cert [], ''u'', 1)] sample_db"
    using insert_worker_stores [of demo_cd "db_ok any_url map_of" storable demo_ops 7 demo_engine "[ca_entry, leaf_entry]" demo_config]
      facts(1) by (auto simp: demo_ops_def demo_engine_def)
  moreover obtain err d' where "cd_Store demo_cd leaf_cert (sample_cert []) ''u'' 1 7 sample_db = Done (err, d')"
    using cert_store.store_returns [OF st ok facts(1), of 7] by (auto simp: demo_engine_def)
  ultimately show ?thesis by auto
qed

text \<open>
  C35. \<^verbatim>\<open>uint64ToTimestamp\<close> turns a time in milliseconds into the second it lies in plus as many nanoseconds
  as there should be milliseconds: it is right for whole seconds only and otherwise early by
  999999 nanoseconds for each millisecond.
\<close>

theorem timestamp_loses_milliseconds:
  "uint64ToTimestamp t = time_Unix (uint (t div 1000)) 0 + uint (t mod 1000) \<and>
   time_Unix 0 (uint t * Millisecond) - uint64ToTimestamp t = 999999 * uint (t mod 1000) \<and>
   (uint64ToTimestamp t = time_Unix 0 (uint t * Millisecond) \<longleftrightarrow> t mod 1000 = 0)"
proof -
  have d: "uint (t div 1000) = uint t div 1000" and m: "uint (t mod 1000) = uint t mod 1000"
    by (simp_all add: uint_div uint_mod)
  have "uint t < 2 ^ 64" using uint_lt2p [of t] by simp
  then have "sint (t div 1000) = uint t div 1000" using sint_small [of "t div 1000"] d by simp
  moreover have "sint (t mod 1000) = uint t mod 1000" using sint_small [of "t mod 1000"] m pos_mod_bound [of 1000 "uint t"] by simp
  ultimately have e: "uint64ToTimestamp t = time_Unix (uint t div 1000) 0 + uint t mod 1000"
    by (simp add: uint64ToTimestamp_def time_Unix_def)
  have s: "time_Unix 0 (uint t * Millisecond) - uint64ToTimestamp t = 999999 * (uint t mod 1000)"
  proof -
    have "uint t = 1000 * (uint t div 1000) + uint t mod 1000" by simp
    then have "uint t * 1000000 = 1000000000 * (uint t div 1000) + 1000000 * (uint t mod 1000)" by linarith
    then show ?thesis unfolding e time_Unix_def Millisecond_def Second_def by linarith
  qed
  have z: "t mod 1000 = 0 \<longleftrightarrow> uint t mod 1000 = 0" using m by (metis uint_0_iff)
  show ?thesis using e s unfolding d m z by auto
qed

text \<open>
  The health page: 503 as long as no database thread has reported, 200 exactly when the last report is
  no older than twice the mean polling delay, 500 otherwise; for means for which twice the delay
  fits a duration.
\<close>

theorem health_status:
  assumes "\<bar>2 * mean\<bar> < 2 ^ 63" and "\<bar>now - updated\<bar> < 2 ^ 63"
  shows "fst (health mean now updated) = (if updated = 0 then 503 else if now \<le> updated + 2 * mean then 200 else 500)"
proof -
  have "signed_take_bit 63 (2 * mean) = 2 * mean" using assms(1) by (intro signed_take_bit_int_eq_self) auto
  moreover have "time_Sub now updated = now - updated" using assms(2) by (auto simp: time_Sub_def)
  ultimately show ?thesis by (auto simp: health_def Let_def)
qed

theorem health_status_witness:
  "fst (health 600000000000 100 0) = 503 \<and> fst (health 10 100 90) = 200 \<and> fst (health 10 100 79) = 500"
  using health_status [of 600000000000 100 0] health_status [of 10 100 90] health_status [of 10 100 79] by simp

end
