(* ===== verification/Pipeline.thy ===== *)
theory Pipeline
  imports Aggregate_Known Ct_Fetch
begin

text \<open>
  From the entries of a log to the lists of known certificates: lemmas that follow the serial numbers
  which \<^verbatim>\<open>ct-fetch\<close> stores through the keys of the remote cache to what \<^verbatim>\<open>aggregate-known\<close> reads.

  \<open>holds\<close> relates the database to the list of the certificates stored in it: the serial sets of the
  cache hold the serial numbers of that list and nothing else. Storing keeps it, for every backend
  that accepts what it is given.
\<close>

subsection \<open>What the cache holds of the stored certificates\<close>

definition date_of :: "stored \<Rightarrow> ExpDate" where
  "date_of x = NewExpDateFromTime (NotAfter (fst x))"

definition issuer_of :: "stored \<Rightarrow> Issuer" where
  "issuer_of x = NewIssuer (fst (snd x))"

definition set_key :: "stored \<Rightarrow> string" where
  "set_key x = serialId (NewKnownCertificates (date_of x) (issuer_of x)) []"

definition under_key :: "stored list \<Rightarrow> string \<Rightarrow> Serial set" where
  "under_key xs k = {s. \<exists>x \<in> set xs. set_key x = k \<and> NewSerial (fst x) = Done s}"

definition serial_key :: "string \<Rightarrow> bool" where
  "serial_key k \<longleftrightarrow> strings_HasPrefix k ''serials::''"

definition holds ::
  "url_Parse \<Rightarrow> ('g \<Rightarrow> string \<Rightarrow> nat option) \<Rightarrow> stored list \<Rightarrow> ('b, MockRemoteCache, 'g) FilesystemDatabase \<Rightarrow> bool" where
  "holds up held xs db \<longleftrightarrow> db_ok up held db \<and>
     (\<forall>k. serial_key k \<longrightarrow> mock_members (extCache db) k = BinaryString ` under_key xs k)"

lemma serial_key_set_key [simp]: "serial_key (set_key x)"
  by (simp add: serial_key_def set_key_def serialId_def kSerials_def strings_HasPrefix_def)

lemma serial_key_meta [simp]: "\<not> serial_key (''crl::'' @ i)" "\<not> serial_key (''issuer::'' @ i)"
  by (simp_all add: serial_key_def strings_HasPrefix_def)

lemma under_key_snoc:
  "NewSerial (fst x) = Done s \<Longrightarrow>
   BinaryString ` under_key (xs @ [x]) k = (if k = set_key x then insert (BinaryString s) else id) (BinaryString ` under_key xs k)"
  by (auto simp: under_key_def)

lemma store_unknown_accepting:
  fixes db :: "('b, MockRemoteCache, 'g) FilesystemDatabase"
  assumes "accepting_backend sb" and "db_ok up held db"
  shows "\<exists>db'. store_unknown sb (MockRemoteCache_ops js) up cert s e i pem now db = Done (None, db') \<and> db_ok up held db' \<and>
    (\<forall>k. serial_key k \<longrightarrow> mock_members (extCache db') k = mock_members (extCache db) k)"
proof -
  have ok: "mock_inv (extCache db)" "expirations_ok (extCache db)" "metas_ok up (db_meta db) (extCache db)"
    "heap_ok held db" using assms(2) by (simp_all add: db_ok_def)
  obtain seen db2 where d: "mock_inv (extCache db2)" "expirations_ok (extCache db2)" "metas_ok up (db_meta db2) (extCache db2)"
    "mock_members (extCache db2) = (mock_members (extCache db))
       (''crl::'' @ Issuer_ID i := mock_members (extCache db) (''crl::'' @ Issuer_ID i) \<union>
          http_urls up (set (CRLDistributionPoints cert)),
        ''issuer::'' @ Issuer_ID i := insert (cert_Issuer cert) (mock_members (extCache db) (''issuer::'' @ Issuer_ID i)))"
    "kc_heap db2 = kc_heap db" "knownCertsCache db2 = knownCertsCache db"
    and su: "store_unknown sb (MockRemoteCache_ops js) up cert s e i pem now db = store_in_backend sb seen s e i pem db2"
    by (rule store_unknown_front [OF ok(1-3)])
  note ac = accepting_backend.accepts_pem [OF assms(1)] accepting_backend.accepts_date [OF assms(1)]
  have "\<exists>b'. store_in_backend sb seen s e i pem db2 = Done (None, db2\<lparr>backend := b'\<rparr>)"
    using ac by (cases seen) (auto simp: store_in_backend_def case_prod_beta Let_def)
  then obtain b' where b: "store_in_backend sb seen s e i pem db2 = Done (None, db2\<lparr>backend := b'\<rparr>)" by blast
  have "heap_ok held (db2\<lparr>backend := b'\<rparr>)" using ok(4) d(5,6) by (simp add: heap_ok_def)
  then have "db_ok up held (db2\<lparr>backend := b'\<rparr>)" using d(1-3) by (simp add: db_ok_def)
  moreover have "mock_members (extCache db2) k = mock_members (extCache db) k" if "serial_key k" for k
    using that serial_key_meta [of "Issuer_ID i"] by (auto simp: d(4) simp del: serial_key_meta)
  ultimately show ?thesis using b by (simp add: su)
qed

lemma Store_holds:
  fixes db :: "('b, MockRemoteCache, 'g) FilesystemDatabase"
  assumes "accepting_backend sb" and "local_cache gc held" and "holds up held xs db"
    and "storable (cert, issuer, url, n)"
  shows "\<exists>db'. Store sb (MockRemoteCache_ops js) gc up cert issuer url n now db = Done (None, db') \<and>
    holds up held (xs @ [(cert, issuer, url, n)]) db'"
proof -
  let ?x = "(cert, issuer, url, n)"
  obtain s where s: "NewSerial cert = Done s" and y: "four_digit_year (NotAfter cert)" using assms(4) by (auto simp: storable_def date_of_def)
  have ok: "db_ok up held db" using assms(3) by (simp add: holds_def)
  have k: "serialId (NewKnownCertificates (NewExpDateFromTime (NotAfter cert)) (NewIssuer issuer)) [] = set_key ?x"
    by (simp add: set_key_def date_of_def issuer_of_def)
  obtain db2 where d: "db_ok up held db2"
    "mock_members (extCache db2) = (mock_members (extCache db))
       (set_key ?x := insert (BinaryString s) (mock_members (extCache db) (set_key ?x)))"
    and st: "Store sb (MockRemoteCache_ops js) gc up cert issuer url n now db =
       run_bind (if BinaryString s \<notin> mock_members (extCache db) (set_key ?x)
          then store_unknown sb (MockRemoteCache_ops js) up cert s (NewExpDateFromTime (NotAfter cert)) (NewIssuer issuer)
                 (cert_pem cert url n now) now db2
          else Done (None, db2))
         (\<lambda>(err, db3). case err of Some e \<Rightarrow> Done (Some e, db3) | None \<Rightarrow> Done (markDirty sb (NotAfter cert) db3))"
    by (rule Store_mock_front [OF assms(2) ok y s, where issuer = issuer and sb = sb and js = js and url = url and n = n,
          unfolded k])
  have "\<exists>db3. (if BinaryString s \<notin> mock_members (extCache db) (set_key ?x)
          then store_unknown sb (MockRemoteCache_ops js) up cert s (NewExpDateFromTime (NotAfter cert)) (NewIssuer issuer)
                 (cert_pem cert url n now) now db2
          else Done (None, db2)) = Done (None, db3) \<and> db_ok up held db3 \<and>
       (\<forall>k. serial_key k \<longrightarrow> mock_members (extCache db3) k = mock_members (extCache db2) k)"
    using store_unknown_accepting [OF assms(1) d(1)] d(1) by auto
  then obtain db3 where d3: "Store sb (MockRemoteCache_ops js) gc up cert issuer url n now db =
      Done (markDirty sb (NotAfter cert) db3)" "db_ok up held db3"
    "\<And>k. serial_key k \<Longrightarrow> mock_members (extCache db3) k = mock_members (extCache db2) k" using st by auto
  obtain b' where "markDirty sb (NotAfter cert) db3 = (None, db3\<lparr>backend := b'\<rparr>)"
    using accepting_backend.accepts_dirty [OF assms(1)] by (auto simp: markDirty_def case_prod_beta Let_def split: prod.split)
  moreover have "db_ok up held (db3\<lparr>backend := b'\<rparr>)" using d3(2) by (simp add: db_ok_def heap_ok_def)
  moreover have "mock_members (extCache db3) k = BinaryString ` under_key (xs @ [?x]) k" if "serial_key k" for k
    using that assms(3) d(2) d3(3) [OF that] under_key_snoc [of ?x s xs k] s by (simp add: holds_def)
  ultimately show ?thesis using d3(1) by (simp add: holds_def)
qed

text \<open>The database threads of \<^verbatim>\<open>ct-fetch\<close>.\<close>

lemma worker_holds:
  fixes ld :: "(('b, MockRemoteCache, 'g) FilesystemDatabase, 'w) LogSyncEngine"
  assumes "accepting_backend sb" and "local_cache gc held" and "\<And>w. ct_Now ops w = now"
    and "\<forall>ep \<in> set eps. library_entry ops (ep_LogEntry ep)"
    and "\<forall>x \<in> set (List.map_filter (accepted cf ops now) eps). storable x"
    and "holds up held xs (ld_database ld)"
  shows "\<exists>ld'. insertCTWorker cf (FilesystemDatabase_ops sb (MockRemoteCache_ops js) gc up) ops eps ld = Done ld' \<and>
    holds up held (xs @ List.map_filter (accepted cf ops now) eps) (ld_database ld')"
  using assms(4-6)
proof (induction eps arbitrary: xs ld)
  case (Cons ep eps)
  let ?cd = "FilesystemDatabase_ops sb (MockRemoteCache_ops js) gc up"
  let ?new = "case accepted cf ops now ep of None \<Rightarrow> [] | Some x \<Rightarrow> [x]"
  have st: "\<exists>db'. cd_Store ?cd c i u n now (ld_database ld) = Done (None, db') \<and> holds up held (xs @ [(c, i, u, n)]) db'"
    if "accepted cf ops now ep = Some (c, i, u, n)" for c i u n
  proof -
    have "storable (c, i, u, n)" using Cons.prems(2) that by (simp add: List.map_filter_simps)
    then show ?thesis
      using Store_holds [OF assms(1,2) Cons.prems(3), of c i u n js now] by (simp add: FilesystemDatabase_ops_def)
  qed
  have "\<exists>e d'. cd_Store ?cd c i u n now (ld_database ld) = Done (e, d')"
    if "accepted cf ops now ep = Some (c, i, u, n)" for c i u n using st [OF that] by blast
  then obtain ld1 where l: "insert_entry cf ?cd ops ep ld = Done ld1" "ld_database ld1 = store_all ?cd now ?new (ld_database ld)"
    using insert_entry_result [OF assms(3), where ep = ep and cf = cf and ld = ld and cd = ?cd] Cons.prems(1) by auto
  have "holds up held (xs @ ?new) (ld_database ld1)"
  proof (cases "accepted cf ops now ep")
    case (Some x)
    obtain c i u n where x: "x = (c, i, u, n)" using prod_cases4 by blast
    from st [of c i u n] Some l(2) show ?thesis by (auto simp: x)
  qed (use Cons.prems(3) l(2) in simp)
  then obtain ld2 where "insertCTWorker cf ?cd ops eps ld1 = Done ld2"
    "holds up held ((xs @ ?new) @ List.map_filter (accepted cf ops now) eps) (ld_database ld2)"
    using Cons.IH [of "xs @ ?new" ld1] Cons.prems(1,2) by (auto simp: List.map_filter_simps split: option.splits)
  then show ?case using l(1) by (auto simp: List.map_filter_simps split: option.splits)
qed (simp add: List.map_filter_simps)

subsection \<open>The listing of the cache\<close>

lemma match_serials: "filepath_Match ''serials::*'' k \<Longrightarrow> serial_key k"
  by (auto simp: serial_key_def strings_HasPrefix_def neq_Nil_conv elim!: filepath_Match.elims)

lemma storable_hour: "storable x \<Longrightarrow> hour_date (date_of x)"
  by (auto simp: storable_def date_of_def)

lemma match_set_key:
  assumes "storable x"
  shows "filepath_Match ''serials::*'' (set_key x)"
proof -
  have "CHR ''/'' \<notin> set (ExpDate_ID (date_of x))"
    using storable_hour [OF assms] ExpDate_ID_shape(2) by (simp add: hour_date_def)
  moreover have "CHR ''/'' \<notin> set (Issuer_ID (issuer_of x))"
    unfolding issuer_of_def by (rule issuer_no_separator)
  ultimately show ?thesis
    using match_star [of "ExpDate_ID (date_of x) @ ''::'' @ Issuer_ID (issuer_of x)"]
    by (simp add: set_key_def serialId_def kSerials_def kc_id_def NewKnownCertificates_def)
qed

lemma mock_keys:
  assumes "mock_inv c"
  shows "k \<in> set (map fst (Data c)) \<longleftrightarrow> mock_members c k \<noteq> {}"
proof (cases "map_of (Data c) k")
  case None
  then show ?thesis using map_of_eq_None_iff [of "Data c" k] by (simp add: mock_members_def data_at_def)
next
  case (Some vs)
  note m = map_of_SomeD [OF this]
  then have "vs \<in> snd ` set (Data c)" and k: "k \<in> fst ` set (Data c)" by force+
  then have "vs \<noteq> []" using assms unfolding mock_inv_def by blast
  then show ?thesis using k Some by (simp add: mock_members_def data_at_def)
qed

lemma holds_nonempty:
  assumes "holds up held xs db" and "serial_key k" and "\<forall>x \<in> set xs. storable x"
  shows "mock_members (extCache db) k \<noteq> {} \<longleftrightarrow> k \<in> set_key ` set xs"
  using assms by (fastforce simp: holds_def under_key_def storable_def)

lemma listed_keys:
  fixes db :: "('b, MockRemoteCache, 'g) FilesystemDatabase"
  assumes "holds up held xs db" and "\<forall>x \<in> set xs. storable x"
  obtains ps where "Mock_KeysToChan ''serials::*'' (extCache db) =
      ((map (\<lambda>(e, i). serialId (NewKnownCertificates e i) []) ps, None), extCache db)"
    "set ps \<subseteq> (\<lambda>x. (date_of x, issuer_of x)) ` set xs"
    "set_key ` set xs \<subseteq> (\<lambda>(e, i). serialId (NewKnownCertificates e i) []) ` set ps"
proof -
  let ?ks = "filter (filepath_Match ''serials::*'') (map fst (Data (extCache db)))"
  let ?x = "\<lambda>k. SOME x. x \<in> set xs \<and> set_key x = k"
  let ?ps = "map (\<lambda>k. (date_of (?x k), issuer_of (?x k))) ?ks"
  have inv: "mock_inv (extCache db)" using assms(1) by (simp add: holds_def db_ok_def)
  have ks: "set ?ks = set_key ` set xs"
    using mock_keys [OF inv] holds_nonempty [OF assms(1) _ assms(2)] match_serials match_set_key assms(2) serial_key_set_key
    by (fastforce simp del: set_map)
  have x: "?x k \<in> set xs \<and> set_key (?x k) = k" if "k \<in> set ?ks" for k
    using that unfolding ks by (intro someI_ex [where P = "\<lambda>x. x \<in> set xs \<and> set_key x = k"]) blast
  have "map (\<lambda>(e, i). serialId (NewKnownCertificates e i) []) ?ps = map (\<lambda>k. set_key (?x k)) ?ks"
    by (simp add: set_key_def)
  also have "\<dots> = ?ks" using x by (intro map_idI) blast
  finally have m: "map (\<lambda>(e, i). serialId (NewKnownCertificates e i) []) ?ps = ?ks" .
  show ?thesis
  proof (rule that)
    show "Mock_KeysToChan ''serials::*'' (extCache db) =
        ((map (\<lambda>(e, i). serialId (NewKnownCertificates e i) []) ?ps, None), extCache db)"
      unfolding m by (simp add: Mock_KeysToChan_def)
    show "set ?ps \<subseteq> (\<lambda>x. (date_of x, issuer_of x)) ` set xs" using x by auto
    show "set_key ` set xs \<subseteq> (\<lambda>(e, i). serialId (NewKnownCertificates e i) []) ` set ?ps"
      using arg_cong [OF m, of set] ks by (simp add: image_image)
  qed
qed

lemma reparsed_eq: "hour_date e \<Longrightarrow> hour_date e' \<Longrightarrow> ExpDate_ID e = ExpDate_ID e' \<Longrightarrow> reparsed e = reparsed e'"
  using hour_date_ID_inject [of e e']
  by (intro ExpDate.equality) (simp_all add: reparsed_def hour_date_def resolution_def)

lemma listed_pairs:
  assumes "\<forall>x \<in> set xs. storable x" and "set ps \<subseteq> (\<lambda>x. (date_of x, issuer_of x)) ` set xs"
    and "set_key ` set xs \<subseteq> (\<lambda>(e, i). serialId (NewKnownCertificates e i) []) ` set ps"
  shows "(\<lambda>(e, i). (reparsed e, Issuer_ID i)) ` set ps = (\<lambda>x. (reparsed (date_of x), Issuer_ID (issuer_of x))) ` set xs"
proof (intro equalityI subsetI)
  fix r assume "r \<in> (\<lambda>x. (reparsed (date_of x), Issuer_ID (issuer_of x))) ` set xs"
  then obtain x where x: "x \<in> set xs" and r: "r = (reparsed (date_of x), Issuer_ID (issuer_of x))" by blast
  obtain e i where ei: "(e, i) \<in> set ps" "serialId (NewKnownCertificates e i) [] = set_key x" using assms(3) x by force
  have hs: "hour_date (date_of y)" if "y \<in> set xs" for y using that assms(1) storable_hour by blast
  obtain y where "y \<in> set xs" "e = date_of y" using ei(1) assms(2) by blast
  then have h: "hour_date e" "hour_date (date_of x)" using hs x by simp_all
  from serialId_inject [of "NewKnownCertificates e i" "NewKnownCertificates (date_of x) (issuer_of x)"] h ei(2)
  have "ExpDate_ID e = ExpDate_ID (date_of x)" "Issuer_ID i = Issuer_ID (issuer_of x)"
    by (simp_all add: set_key_def NewKnownCertificates_def)
  then show "r \<in> (\<lambda>(e, i). (reparsed e, Issuer_ID i)) ` set ps"
    using reparsed_eq [OF h] ei(1) r by (auto intro!: rev_image_eqI)
qed (use assms(2) in auto)

text \<open>
  Each issuer of the stored certificates is listed, with the hours of its certificates as dates, and
  no other issuer.
\<close>

lemma listed_issuer_dates:
  fixes db :: "('b, MockRemoteCache, 'g) FilesystemDatabase"
  assumes "holds up held xs db" and "\<forall>x \<in> set xs. storable x"
  obtains ids where "GetIssuerAndDatesFromCache (MockRemoteCache_ops js) t db = Done (Inr ids, db)"
    "(\<lambda>d. Issuer_ID (idt_Issuer d)) ` set ids = (\<lambda>x. Issuer_ID (issuer_of x)) ` set xs"
    "\<forall>d \<in> set ids. set (ExpDates d) = (reparsed \<circ> date_of) ` {x \<in> set xs. Issuer_ID (issuer_of x) = Issuer_ID (idt_Issuer d)}"
proof -
  obtain ps where k: "Mock_KeysToChan ''serials::*'' (extCache db) =
      ((map (\<lambda>(e, i). serialId (NewKnownCertificates e i) []) ps, None), extCache db)"
    and ps: "set ps \<subseteq> (\<lambda>x. (date_of x, issuer_of x)) ` set xs"
    and cov: "set_key ` set xs \<subseteq> (\<lambda>(e, i). serialId (NewKnownCertificates e i) []) ` set ps"
    by (rule listed_keys [OF assms])
  note eq = listed_pairs [OF assms(2) ps cov]
  have wf: "\<forall>(e, i) \<in> set ps. wf_ExpDate e \<and> CHR '':'' \<notin> set (Issuer_ID i)"
    using ps assms(2) storable_hour issuer_no_separator(1) by (fastforce simp: issuer_of_def hour_date_def)
  have "rc_KeysToChan (MockRemoteCache_ops js) ''serials::*'' t (extCache db) =
      Done ((map (\<lambda>(e, i). serialId (NewKnownCertificates e i) []) ps, None), extCache db)"
    using k by (simp add: mock_ops_simps)
  then obtain m where m: "GetIssuerAndDatesFromCache (MockRemoteCache_ops js) t db = Done (Inr (map snd m), db\<lparr>extCache := extCache db\<rparr>)"
    "grouped m" "keys m = (\<lambda>(e, i). Issuer_ID i) ` set ps"
    "\<forall>x. dates_of m x = map (reparsed \<circ> fst) (filter (\<lambda>(e, i). Issuer_ID i = x) ps)"
    by (rule issuer_dates_map [OF wf])
  have "(\<lambda>d. Issuer_ID (idt_Issuer d)) ` set (map snd m) = keys m"
    using m(2) unfolding set_map image_image by (intro image_cong) (auto simp: grouped_def)
  also have "\<dots> = snd ` (\<lambda>(e, i). (reparsed e, Issuer_ID i)) ` set ps" by (simp add: m(3) image_image case_prod_beta)
  finally have ids: "(\<lambda>d. Issuer_ID (idt_Issuer d)) ` set (map snd m) = (\<lambda>x. Issuer_ID (issuer_of x)) ` set xs"
    by (simp add: eq image_image)
  have "set (dates_of m y) = {r. (r, y) \<in> (\<lambda>(e, i). (reparsed e, Issuer_ID i)) ` set ps}" for y by (force simp: m(4))
  then have "set (ExpDates d) = (reparsed \<circ> date_of) ` {x \<in> set xs. Issuer_ID (issuer_of x) = Issuer_ID (idt_Issuer d)}"
    if "d \<in> set (map snd m)" for d using grouped_dates [OF m(2), of d] that by (auto simp: eq)
  with that [OF _ ids] m(1) show ?thesis by simp
qed

subsection \<open>What is read back\<close>

definition serials_from :: "stored list \<Rightarrow> Issuer \<Rightarrow> time \<Rightarrow> Serial set" where
  "serials_from xs i t = {s. \<exists>x \<in> set xs. Issuer_ID (issuer_of x) = Issuer_ID i \<and> NewSerial (fst x) = Done s \<and>
     t \<le> ExpireTime (date_of x)}"

text \<open>
  The serial numbers read back are those stored for the issuer; in the hour in which a certificate
  expires it may be there or not.
\<close>

lemma known_at_stored:
  fixes db :: "('b, MockRemoteCache, 'g) FilesystemDatabase"
  assumes "holds up held xs db" and "\<forall>x \<in> set xs. storable x"
    and "set es = (reparsed \<circ> date_of) ` {x \<in> set xs. Issuer_ID (issuer_of x) = Issuer_ID i}"
  shows "serials_from xs i (t + 1) \<subseteq> known_at (mock_live t) t (extCache db) i es" (is ?low)
    and "known_at (mock_live t) t (extCache db) i es \<subseteq> serials_from xs i (t - Hour + Millisecond)" (is ?high)
proof -
  have ex: "expirations_ok (extCache db)" using assms(1) by (simp add: holds_def db_ok_def)
  have key: "serialId (NewKnownCertificates (reparsed (date_of x)) i) [] = set_key x" if "Issuer_ID (issuer_of x) = Issuer_ID i" for x
    using that by (simp add: set_key_def serialId_def kc_id_def NewKnownCertificates_def reparsed_def)
  have lg: "lastGood (reparsed (date_of x)) = ExpireTime (date_of x) + Hour - Millisecond" for x
    by (simp add: reparsed_def resolution_def date_of_def NewExpDateFromTime_def ExpireTime_def Let_def)
  have mem: "serials_of (mock_members (extCache db) (set_key x)) = under_key xs (set_key x)" for x
    using assms(1) by (auto simp: holds_def serials_of_def)
  have hs: "hour_date (date_of x)" if "x \<in> set xs" for x using that assms(2) storable_hour by blast
  have date: "ExpireTime (date_of y) = ExpireTime (date_of x) \<and> Issuer_ID (issuer_of y) = Issuer_ID (issuer_of x)"
    if "set_key y = set_key x" "x \<in> set xs" "y \<in> set xs" for x y
    using that serialId_inject [of "NewKnownCertificates (date_of y) (issuer_of y)" "NewKnownCertificates (date_of x) (issuer_of x)"]
      hs by (simp add: set_key_def NewKnownCertificates_def)
  show ?low
  proof
    fix s assume "s \<in> serials_from xs i (t + 1)"
    then obtain x where x: "x \<in> set xs" "Issuer_ID (issuer_of x) = Issuer_ID i" "NewSerial (fst x) = Done s" "t < ExpireTime (date_of x)"
      by (auto simp: serials_from_def)
    have "mock_alive t (extCache db) (set_key x)"
      unfolding set_key_def using x(1,4) hs
      by (intro expirations_alive_serials [OF ex]) (auto simp: NewKnownCertificates_def)
    moreover have "s \<in> under_key xs (set_key x)" using x by (auto simp: under_key_def)
    ultimately have "s \<in> serials_of (mock_live t (extCache db) (serialId (NewKnownCertificates (reparsed (date_of x)) i) []))"
      unfolding key [OF x(2)] mock_live_def mem [symmetric] by simp
    moreover have "reparsed (date_of x) \<in> set es" using x(1,2) unfolding assms(3) by force
    moreover have "\<not> IsExpiredAt (reparsed (date_of x)) t" using x(4) by (simp add: IsExpiredAt_def lg time_Before_def Hour_def Millisecond_def)
    ultimately show "s \<in> known_at (mock_live t) t (extCache db) i es"
      unfolding known_at_def by blast
  qed
  show ?high
  proof
    fix s assume "s \<in> known_at (mock_live t) t (extCache db) i es"
    then obtain e where e: "e \<in> set es" "\<not> IsExpiredAt e t"
      "s \<in> serials_of (mock_live t (extCache db) (serialId (NewKnownCertificates e i) []))" unfolding known_at_def by blast
    then obtain x where x: "x \<in> set xs" "Issuer_ID (issuer_of x) = Issuer_ID i" "e = reparsed (date_of x)"
      unfolding assms(3) comp_def by blast
    have le: "t - Hour + Millisecond \<le> ExpireTime (date_of x)"
      using e(2) unfolding x(3) IsExpiredAt_def lg time_Before_def by linarith
    have "s \<in> under_key xs (set_key x)"
      using e(3) unfolding mem [symmetric] x(3) key [OF x(2)] mock_live_def by (simp split: if_splits)
    then obtain y where y: "y \<in> set xs" "set_key y = set_key x" "NewSerial (fst y) = Done s" by (auto simp: under_key_def)
    with date [OF y(2) x(1) y(1)] x(2) le show "s \<in> serials_from xs i (t - Hour + Millisecond)"
      unfolding serials_from_def by auto
  qed
qed

lemma holds_empty:
  "(\<And>k. held g k = None) \<Longrightarrow> holds up held [] (NewFilesystemDatabase b NewMockRemoteCache g)"
  using NewMockRemoteCache_inv
  by (simp add: holds_def db_ok_def NewFilesystemDatabase_def heap_ok_def expirations_ok_def metas_ok_def NewMockRemoteCache_def
      under_key_def mock_members_def data_at_def)

end
