(* ===== verification/Config.thy ===== *)
theory Config
  imports Go_Duration
begin

text \<open>
  \<^verbatim>\<open>config/config.go\<close>: the settings of the programs, from an ini file, the environment and flags.

  The pointers of \<^verbatim>\<open>CTConfig\<close> are all set by \<^verbatim>\<open>NewCTConfig\<close> (except \<^verbatim>\<open>Config\<close>, which nothing uses), so the
  record holds the values. The ini package is an argument: a section gives a key for a name, and a
  key its text and what the package reads it as. \<^verbatim>\<open>flag.Parse\<close> sets four variables, which are an
  argument too, like the environment, the home directory and the files that are there.

  The lemmas show that the four functions, which test the layers in different orders, all take the
  first layer that has a usable value.
\<close>

record ini_key =
  key_String :: string
  key_Int :: "go_error + int"
  key_Uint64 :: "go_error + 64 word"
  key_Bool :: "go_error + bool"

type_synonym ini_section = "string \<Rightarrow> ini_key option"
type_synonym environ = "string \<Rightarrow> string option"

record CTConfig =
  c_LogUrlList :: string
  c_CertPath :: string
  c_GoogleProjectId :: string
  c_RedisHost :: string
  c_RedisTimeout :: string
  c_Offset :: "64 word"
  c_Limit :: "64 word"
  c_NumThreads :: int
  c_RunForever :: bool
  c_IssuerCNFilter :: string
  c_LogExpiredEntries :: bool
  c_SavePeriod :: string
  c_PollingDelayMean :: string
  c_PollingDelayStdDev :: int
  c_StatsRefreshPeriod :: string
  c_OutputRefreshPeriod :: string
  c_StatsDHost :: string
  c_StatsDPort :: int
  c_HealthAddr :: string

subsection \<open>One setting\<close>

definition confInt :: "environ \<Rightarrow> ini_section option \<Rightarrow> string \<Rightarrow> int \<Rightarrow> int" where
  "confInt env section key def =
     (let fallback =
        (case section of
           None \<Rightarrow> def
         | Some sec \<Rightarrow>
             (case sec key of
                None \<Rightarrow> def
              | Some k \<Rightarrow> (case key_Int k of Inl err \<Rightarrow> def | Inr v \<Rightarrow> v)))
      in case env key of
           None \<Rightarrow> fallback
         | Some val \<Rightarrow> (case strconv_ParseInt32 val of Inl err \<Rightarrow> fallback | Inr i \<Rightarrow> i))"

definition confUint64 :: "environ \<Rightarrow> ini_section option \<Rightarrow> string \<Rightarrow> 64 word \<Rightarrow> 64 word" where
  "confUint64 env section key def =
     (let fallback =
        (case section of
           None \<Rightarrow> def
         | Some sec \<Rightarrow>
             (case sec key of
                None \<Rightarrow> def
              | Some k \<Rightarrow> (case key_Uint64 k of Inl err \<Rightarrow> def | Inr v \<Rightarrow> v)))
      in case env key of
           None \<Rightarrow> fallback
         | Some val \<Rightarrow> (case strconv_ParseUint val of Inl err \<Rightarrow> fallback | Inr u \<Rightarrow> u))"

definition confBool :: "environ \<Rightarrow> ini_section option \<Rightarrow> string \<Rightarrow> bool \<Rightarrow> bool" where
  "confBool env section key def =
     (let fallback =
        (case section of
           None \<Rightarrow> def
         | Some sec \<Rightarrow>
             (case sec key of
                None \<Rightarrow> def
              | Some k \<Rightarrow> (case key_Bool k of Inl err \<Rightarrow> def | Inr v \<Rightarrow> v)))
      in case env key of
           None \<Rightarrow> fallback
         | Some val \<Rightarrow> (case strconv_ParseBool val of Inl err \<Rightarrow> fallback | Inr b \<Rightarrow> b))"

text \<open>Here the file comes first and the environment overrides it, also with an empty value.\<close>

definition confString :: "environ \<Rightarrow> ini_section option \<Rightarrow> string \<Rightarrow> string \<Rightarrow> string" where
  "confString env section key def =
     (let p = (case section of
           None \<Rightarrow> def
         | Some sec \<Rightarrow>
             (case sec key of
                None \<Rightarrow> def
              | Some k \<Rightarrow> if 0 < length (key_String k) then key_String k else def))
      in case env key of None \<Rightarrow> p | Some val \<Rightarrow> val)"

subsection \<open>All settings\<close>

definition NewCTConfig :: CTConfig where
  "NewCTConfig =
     \<lparr>c_LogUrlList = [], c_CertPath = [], c_GoogleProjectId = [], c_RedisHost = [], c_RedisTimeout = [], c_Offset = 0,
      c_Limit = 0, c_NumThreads = 0, c_RunForever = False, c_IssuerCNFilter = [], c_LogExpiredEntries = False,
      c_SavePeriod = [], c_PollingDelayMean = [], c_PollingDelayStdDev = 0, c_StatsRefreshPeriod = [],
      c_OutputRefreshPeriod = [], c_StatsDHost = [], c_StatsDPort = 0, c_HealthAddr = []\<rparr>"

record flag_values =
  fl_config :: string
  fl_offset :: "64 word"
  fl_limit :: "64 word"
  fl_outputRefreshPeriod :: string

text \<open>The four variables when no flag is given.\<close>

definition no_flags :: flag_values where
  "no_flags = \<lparr>fl_config = [], fl_offset = 0, fl_limit = 0, fl_outputRefreshPeriod = ''125ms''\<rparr>"

text \<open>The file: the flag, or a file in the home directory if it is there.\<close>

definition config_file :: "flag_values \<Rightarrow> string option \<Rightarrow> (string \<Rightarrow> bool) \<Rightarrow> string" where
  "config_file fl home isfile =
     (if length (fl_config fl) = 0
      then
        (case home of
           None \<Rightarrow> fl_config fl
         | Some dir \<Rightarrow>
             (let defPath = dir @ ''/.ct-fetch.ini'' in if isfile defPath then defPath else fl_config fl))
      else fl_config fl)"

definition config_section :: "(string \<Rightarrow> go_error + ini_section) \<Rightarrow> string \<Rightarrow> ini_section option" where
  "config_section load confFile =
     (if 0 < length confFile then (case load confFile of Inl err \<Rightarrow> None | Inr sec \<Rightarrow> Some sec) else None)"

definition Init ::
  "flag_values \<Rightarrow> environ \<Rightarrow> string option \<Rightarrow> (string \<Rightarrow> bool) \<Rightarrow> (string \<Rightarrow> go_error + ini_section) \<Rightarrow> CTConfig \<Rightarrow> CTConfig" where
  "Init fl env home isfile load c =
     (let section = config_section load (config_file fl home isfile);
          str = confString env section; num = confInt env section; boo = confBool env section;
          c1 = c\<lparr>c_Offset := confUint64 env section ''offset'' 0, c_Limit := confUint64 env section ''limit'' 0,
            c_LogUrlList := str ''logList'' [], c_NumThreads := num ''numThreads'' 1,
            c_LogExpiredEntries := boo ''logExpiredEntries'' False, c_RunForever := boo ''runForever'' False,
            c_PollingDelayStdDev := num ''pollingDelayStdDev'' 10, c_PollingDelayMean := str ''pollingDelayMean'' ''10m'',
            c_SavePeriod := str ''savePeriod'' ''15m'', c_IssuerCNFilter := str ''issuerCNFilter'' [],
            c_CertPath := str ''certPath'' [], c_GoogleProjectId := str ''googleProjectId'' [],
            c_RedisHost := str ''redisHost'' [], c_RedisTimeout := str ''redisTimeout'' ''5s'',
            c_OutputRefreshPeriod := str ''outputRefreshPeriod'' ''125ms'',
            c_StatsRefreshPeriod := str ''statsRefreshPeriod'' ''10m'', c_StatsDHost := str ''statsdHost'' [],
            c_StatsDPort := num ''statsdPort'' 0, c_HealthAddr := str ''healthAddr'' '':8080''\<rparr>;
          c2 = (if 0 < fl_offset fl then c1\<lparr>c_Offset := fl_offset fl\<rparr> else c1);
          c3 = (if 0 < fl_limit fl then c2\<lparr>c_Limit := fl_limit fl\<rparr> else c2)
      in if fl_outputRefreshPeriod fl \<noteq> ''125ms'' then c3\<lparr>c_OutputRefreshPeriod := fl_outputRefreshPeriod fl\<rparr> else c3)"

subsection \<open>Layers\<close>

text \<open>The specification: the first layer that has a value, or the default.\<close>

fun first_set :: "'a option list \<Rightarrow> 'a \<Rightarrow> 'a" where
  "first_set [] d = d"
| "first_set (Some v # vs) d = v"
| "first_set (None # vs) d = first_set vs d"

fun usable :: "go_error + 'a \<Rightarrow> 'a option" where
  "usable (Inl e) = None"
| "usable (Inr v) = Some v"

definition file_key :: "ini_section option \<Rightarrow> string \<Rightarrow> ini_key option" where
  "file_key section key = Option.bind section (\<lambda>sec. sec key)"

definition layers_Int :: "environ \<Rightarrow> ini_section option \<Rightarrow> string \<Rightarrow> int option list" where
  "layers_Int env section key =
     [Option.bind (env key) (usable \<circ> strconv_ParseInt32), Option.bind (file_key section key) (usable \<circ> key_Int)]"

definition layers_Uint64 :: "environ \<Rightarrow> ini_section option \<Rightarrow> string \<Rightarrow> 64 word option list" where
  "layers_Uint64 env section key =
     [Option.bind (env key) (usable \<circ> strconv_ParseUint), Option.bind (file_key section key) (usable \<circ> key_Uint64)]"

definition layers_Bool :: "environ \<Rightarrow> ini_section option \<Rightarrow> string \<Rightarrow> bool option list" where
  "layers_Bool env section key =
     [Option.bind (env key) (usable \<circ> strconv_ParseBool), Option.bind (file_key section key) (usable \<circ> key_Bool)]"

definition layers_String :: "environ \<Rightarrow> ini_section option \<Rightarrow> string \<Rightarrow> string option list" where
  "layers_String env section key =
     [env key, Option.bind (file_key section key) (\<lambda>k. if key_String k = [] then None else Some (key_String k))]"

lemma conf_layers:
  "confInt env section key i = first_set (layers_Int env section key) i"
  "confUint64 env section key u = first_set (layers_Uint64 env section key) u"
  "confBool env section key b = first_set (layers_Bool env section key) b"
  "confString env section key s = first_set (layers_String env section key) s"
  by (auto simp: confInt_def confUint64_def confBool_def confString_def layers_Int_def layers_Uint64_def layers_Bool_def
      layers_String_def file_key_def Let_def split: option.split sum.split)

definition flag_Uint64 :: "64 word \<Rightarrow> 64 word option" where
  "flag_Uint64 v = (if v = 0 then None else Some v)"

subsection \<open>Properties\<close>

text \<open>
  C34. Every setting after \<^verbatim>\<open>Init\<close> is the first usable value of its layers: the flag where there is one (unless
  it has the flag's default value), then the environment, then the ini file, then the default. A
  number or a truth value in the environment that cannot be read falls through to the file; an
  empty text in the environment counts, an empty text in the file does not. What the configuration
  held before does not matter.
\<close>

theorem config_layers:
  fixes fl env home isfile load c
  defines "section \<equiv> config_section load (config_file fl home isfile)" and "r \<equiv> Init fl env home isfile load c"
  shows "c_Offset r = first_set (flag_Uint64 (fl_offset fl) # layers_Uint64 env section ''offset'') 0 \<and>
    c_Limit r = first_set (flag_Uint64 (fl_limit fl) # layers_Uint64 env section ''limit'') 0 \<and>
    c_OutputRefreshPeriod r = first_set ((if fl_outputRefreshPeriod fl = ''125ms'' then None else Some (fl_outputRefreshPeriod fl))
      # layers_String env section ''outputRefreshPeriod'') ''125ms'' \<and>
    c_NumThreads r = first_set (layers_Int env section ''numThreads'') 1 \<and>
    c_PollingDelayStdDev r = first_set (layers_Int env section ''pollingDelayStdDev'') 10 \<and>
    c_StatsDPort r = first_set (layers_Int env section ''statsdPort'') 0 \<and>
    c_LogExpiredEntries r = first_set (layers_Bool env section ''logExpiredEntries'') False \<and>
    c_RunForever r = first_set (layers_Bool env section ''runForever'') False \<and>
    [c_LogUrlList r, c_PollingDelayMean r, c_SavePeriod r, c_IssuerCNFilter r, c_CertPath r, c_GoogleProjectId r,
     c_RedisHost r, c_RedisTimeout r, c_StatsRefreshPeriod r, c_StatsDHost r, c_HealthAddr r] =
    map (\<lambda>(key, d). first_set (layers_String env section key) d)
      [(''logList'', []), (''pollingDelayMean'', ''10m''), (''savePeriod'', ''15m''), (''issuerCNFilter'', []),
       (''certPath'', []), (''googleProjectId'', []), (''redisHost'', []), (''redisTimeout'', ''5s''),
       (''statsRefreshPeriod'', ''10m''), (''statsdHost'', []), (''healthAddr'', '':8080'')]"
proof -
  have u: "first_set (flag_Uint64 v # vs) d = (if 0 < v then v else first_set vs d)" for v vs d
    by (simp add: flag_Uint64_def word_gt_0)
  have s: "first_set ((if b then None else Some x) # vs) d = (if b then first_set vs d else x)" for b :: bool and x :: 'x and vs d
    by simp
  show ?thesis
    unfolding r_def Init_def Let_def section_def [symmetric] conf_layers u s by (simp add: word_gt_0)
qed

end
