(* ===== verification/Telemetry.thy ===== *)
theory Telemetry
  imports Go_Duration
begin

text \<open>
  \<^verbatim>\<open>telemetry/telemetry.go\<close>: the metrics of the process as lines of text, at every tick of a clock.

  The metrics package is an argument: the values of an interval, with the text that \<^verbatim>\<open>fmt\<close> gives
  floating point numbers and samples and the time of the interval. Its maps are lists in the order
  in which Go happens to visit them. What a select of \<^verbatim>\<open>run\<close> receives is a list of events.
\<close>

record metric_label =
  label_Name :: string
  label_Value :: string

text \<open>A gauge, a counter or a sample: its name, its labels and the text of its value.\<close>

record metric =
  metric_Name :: string
  metric_Labels :: "metric_label list"
  metric_Text :: string

record IntervalMetrics =
  im_Interval :: string
  Gauges :: "metric list"
  Points :: "(string \<times> string list) list"
  Counters :: "metric list"
  Samples :: "metric list"

text \<open>\<^verbatim>\<open>strings.NewReplacer(" ", "_", ":", "_")\<close>\<close>

definition replacer :: "string \<Rightarrow> string" where
  "replacer s = map (\<lambda>c. if c = CHR '' '' \<or> c = CHR '':'' then CHR ''_'' else c) s"

definition flattenLabels :: "string \<Rightarrow> metric_label list \<Rightarrow> string" where
  "flattenLabels name labels = foldl (\<lambda>buf label. buf @ replacer ''.'' @ replacer (label_Value label)) name labels"

definition metric_line :: "string \<Rightarrow> string \<Rightarrow> string \<Rightarrow> string \<Rightarrow> string" where
  "metric_line interval kind name val = ''['' @ interval @ '']['' @ kind @ ''] '' @ [CHR 0x27] @ name @ [CHR 0x27] @ '': '' @ val @ [CHR 0x0A]"

definition interval_lines :: "IntervalMetrics \<Rightarrow> string" where
  "interval_lines intv =
     concat (map (\<lambda>m. metric_line (im_Interval intv) ''G'' (flattenLabels (metric_Name m) (metric_Labels m)) (metric_Text m)) (Gauges intv)) @
     concat (map (\<lambda>(name, vals). concat (map (metric_line (im_Interval intv) ''P'' name) vals)) (Points intv)) @
     concat (map (\<lambda>m. metric_line (im_Interval intv) ''C'' (flattenLabels (metric_Name m) (metric_Labels m)) (metric_Text m)) (Counters intv)) @
     concat (map (\<lambda>m. metric_line (im_Interval intv) ''S'' (flattenLabels (metric_Name m) (metric_Labels m)) (metric_Text m)) (Samples intv))"

text \<open>The last interval is still being filled. An error of the writer is only logged.\<close>

definition dumpStats :: "IntervalMetrics list \<Rightarrow> string" where
  "dumpStats data = concat (map (\<lambda>j. interval_lines (data ! j)) [0..<length data - 1])"

datatype dumper_event = Tick "IntervalMetrics list" | Stopped

text \<open>What is written until the stop channel is closed.\<close>

fun dumper_run :: "dumper_event list \<Rightarrow> string" where
  "dumper_run [] = []"
| "dumper_run (Tick data # events) = dumpStats data @ dumper_run events"
| "dumper_run (Stopped # events) = []"

text \<open>\<^verbatim>\<open>time.NewTicker\<close> panics when the period is not positive.\<close>

definition NewMetricsDumper :: "duration \<Rightarrow> duration run" where
  "NewMetricsDumper period = (if period \<le> 0 then Panic ''non-positive interval for NewTicker'' else Done period)"

subsection \<open>Lemmas\<close>

lemma flattenLabels_append:
  "flattenLabels name labels = name @ concat (map (\<lambda>l. CHR ''.'' # replacer (label_Value l)) labels)"
  by (induction labels arbitrary: name) (simp_all add: flattenLabels_def replacer_def)

lemma flattenLabels_clean:
  "c \<in> set (flattenLabels name labels) \<Longrightarrow> c = CHR '' '' \<or> c = CHR '':'' \<Longrightarrow> c \<in> set name"
  by (auto simp: flattenLabels_append replacer_def split: if_splits)

lemma dumpStats_butlast: "dumpStats data = concat (map interval_lines (butlast data))"
proof -
  have "map (\<lambda>j. interval_lines (data ! j)) [0..<length data - 1] = map interval_lines (butlast data)"
    by (rule nth_equalityI) (simp_all add: nth_butlast)
  then show ?thesis by (simp add: dumpStats_def)
qed

end
