(* ===== verification/Engine.thy ===== *)
theory Engine
  imports Config Telemetry Ct_Fetch
begin

text \<open>
  \<^verbatim>\<open>engine/engine.go\<close>: the database and the telemetry that the settings ask for, and the programs' use
  of the settings. Also \<^verbatim>\<open>cmd/get-mozilla-issuers/get-mozilla-issuers.go\<close>, the command that writes the
  issuers of the root program to a file.

  Connecting to Redis is the argument \<open>connect\<close>, a client for an address and a timeout; the metrics package
  is given by the errors of its two constructors.
\<close>

subsection \<open>Storage\<close>

text \<open>
  The three results share the cache and the backend, which are fields of the database here. The path of
  the settings is never nil.
\<close>

definition GetConfiguredStorage ::
  "(string \<Rightarrow> int \<Rightarrow> int) \<Rightarrow> 'r redis_client_ops \<Rightarrow> (string \<Rightarrow> duration \<Rightarrow> 'r) \<Rightarrow> 'g \<Rightarrow> time \<Rightarrow> CTConfig
    \<Rightarrow> (unit, 'r, 'g) FilesystemDatabase run" where
  "GetConfiguredStorage fr cl connect g now ctconfig =
     (let hasLocalDiskConfig = (0 < length (c_CertPath ctconfig))
      in case time_ParseDuration fr (c_RedisTimeout ctconfig) of
           Inl err \<Rightarrow> Fatal (''Could not parse RedisTimeout: '' @ err_text err)
         | Inr redisTimeoutDuration \<Rightarrow>
             (case NewRedisCache cl now (connect (c_RedisHost ctconfig) redisTimeoutDuration) of
                (Some err, _) \<Rightarrow> Fatal (''Unable to configure Redis cache for host '' @ c_RedisHost ctconfig)
              | (None, remoteCache) \<Rightarrow>
                  (if hasLocalDiskConfig then Fatal ''Local Disk Backend currently disabled''
                   else Done (NewFilesystemDatabase () remoteCache g))))"

subsection \<open>Telemetry\<close>

datatype metrics_sink = StatsdSink string | InmemSink duration duration

text \<open>The product of a duration and five is computed in an int64.\<close>

definition five_times :: "duration \<Rightarrow> duration" where
  "five_times d = sint (word_of_int (5 * d) :: 64 word)"

definition PrepareTelemetry ::
  "(string \<Rightarrow> int \<Rightarrow> int) \<Rightarrow> (string \<Rightarrow> go_error option) \<Rightarrow> (metrics_sink \<Rightarrow> go_error option) \<Rightarrow> CTConfig \<Rightarrow> metrics_sink run" where
  "PrepareTelemetry fr newStatsdSink newGlobal ctconfig =
     (if 1 < c_StatsDPort ctconfig \<and> 0 < length (c_StatsDHost ctconfig)
      then
        (let addr = c_StatsDHost ctconfig @ '':'' @ show_int (c_StatsDPort ctconfig)
         in case newStatsdSink addr of
              Some err \<Rightarrow> Fatal (err_text err)
            | None \<Rightarrow>
                (case newGlobal (StatsdSink addr) of
                   Some err \<Rightarrow> Fatal (err_text err)
                 | None \<Rightarrow> Done (StatsdSink addr)))
      else
        (case time_ParseDuration fr (c_StatsRefreshPeriod ctconfig) of
           Inl err \<Rightarrow> Fatal (''Could not parse StatsRefreshPeriod: '' @ err_text err)
         | Inr infoDumpPeriod \<Rightarrow>
             (let metricsSink = InmemSink infoDumpPeriod (five_times infoDumpPeriod)
              in run_bind (NewMetricsDumper infoDumpPeriod) (\<lambda>_.
                   case newGlobal metricsSink of
                     Some err \<Rightarrow> Fatal (err_text err)
                   | None \<Rightarrow> Done metricsSink))))"

subsection \<open>What the log worker reads of the settings\<close>

definition fetch_config :: "(string \<Rightarrow> int \<Rightarrow> int) \<Rightarrow> CTConfig \<Rightarrow> ct_config" where
  "fetch_config fr c =
     \<lparr>cf_Offset = c_Offset c, cf_Limit = c_Limit c, LogExpiredEntries = c_LogExpiredEntries c,
      IssuerCNFilter = c_IssuerCNFilter c, SavePeriod = time_ParseDuration fr (c_SavePeriod c), RunForever = c_RunForever c,
      LogUrlList = c_LogUrlList c\<rparr>"

subsection \<open>The command get-mozilla-issuers\<close>

text \<open>
  The flags \<^verbatim>\<open>out\<close> and \<^verbatim>\<open>ccadb\<close> are arguments; the result is what is printed, if anything. The indented JSON
  of the issuers is the argument \<open>encIssuers\<close>.
\<close>

definition get_mozilla_issuers_main ::
  "url_Parse \<Rightarrow> x509_lib \<Rightarrow> (EnrolledIssuer list \<Rightarrow> go_error + bytes) \<Rightarrow> (Issuer list \<Rightarrow> go_error + bytes) \<Rightarrow> 'w os_ops \<Rightarrow> string
    \<Rightarrow> string \<Rightarrow> string \<Rightarrow> 'w \<Rightarrow> (bytes option \<times> 'w) run" where
  "get_mozilla_issuers_main up lib enc encIssuers os tempDir outfile inccadb w =
     (let mozIssuers = NewMozillaIssuers tempDir
      in run_bind
           (if inccadb \<noteq> ''<path>''
            then run_bind (LoadFromDisk lib os inccadb mozIssuers w) (\<lambda>r. Done (r, w))
            else Load up lib os tempDir mozIssuers w)
           (\<lambda>((err, mi), w1).
              case err of
                Some e \<Rightarrow> Fatal (err_text e)
              | None \<Rightarrow>
                  (if outfile = ''<stdout>''
                   then
                     run_bind (GetIssuers mi) (\<lambda>issuers.
                       case encIssuers issuers of
                         Inl e \<Rightarrow> Fatal (err_text e)
                       | Inr out \<Rightarrow> Done (Some out, w1))
                   else
                     run_bind (SaveIssuersList enc os outfile mi w1) (\<lambda>(err, w2).
                       case err of
                         Some e \<Rightarrow> Fatal (err_text e)
                       | None \<Rightarrow> Done (None, w2)))))"

subsection \<open>Properties\<close>

text \<open>
  C33. The database of the settings. The value of \<^verbatim>\<open>certPath\<close> is that of the first layer that sets it: the
  environment, even with an empty text, and then the section of the settings file. When that value is not
  empty, which the usage text offers as the way to store certificates, the programs that take their storage
  from here (\<^verbatim>\<open>ct-fetch\<close>, \<^verbatim>\<open>aggregate-crls\<close>, \<^verbatim>\<open>aggregate-known\<close>) do not get past their start: the result
  is a fatal error. When it is empty or no layer sets it, with a timeout that can be read and a server that
  answers, the result is an empty database over the backend that stores nothing and a client for the address
  of the settings, and without a setting of the timeout that client has 5 seconds.
\<close>

theorem configured_storage:
  fixes fl env home isfile load c
  defines "section \<equiv> config_section load (config_file fl home isfile)"
  defines "conf \<equiv> Init fl env home isfile load c"
  shows "(first_set (layers_String env section ''certPath'') [] \<noteq> [] \<longrightarrow>
      (\<exists>msg. GetConfiguredStorage fr cl connect g now conf = Fatal msg)) \<and>
    (first_set (layers_String env section ''certPath'') [] = [] \<longrightarrow>
      time_ParseDuration fr (first_set (layers_String env section ''redisTimeout'') ''5s'') = Inr d \<longrightarrow>
      NewRedisCache cl now (connect (first_set (layers_String env section ''redisHost'') []) d) = (None, r) \<longrightarrow>
      GetConfiguredStorage fr cl connect g now conf = Done (NewFilesystemDatabase () r g)) \<and>
    (layers_String env section ''redisTimeout'' = [None, None] \<longrightarrow>
      time_ParseDuration fr (c_RedisTimeout conf) = Inr (5 * Second))"
proof -
  have i: "c_CertPath conf = first_set (layers_String env section ''certPath'') []"
    "c_RedisTimeout conf = first_set (layers_String env section ''redisTimeout'') ''5s''"
    "c_RedisHost conf = first_set (layers_String env section ''redisHost'') []"
    by (simp_all add: conf_def Init_def Let_def section_def conf_layers)
  show ?thesis
    unfolding GetConfiguredStorage_def Let_def i using settings_durations(1) [of fr]
    by (auto simp: Second_def split: sum.split prod.split option.split)
qed

definition disk_env :: environ where
  "disk_env k = (if k = ''certPath'' then Some ''/ct'' else if k = ''redisHost'' then Some ''r:6379'' else None)"

definition no_file :: "string \<Rightarrow> go_error + ini_section" where
  "no_file p = Inl (ExtError ''no such file'')"

theorem configured_storage_witness:
  "(\<exists>msg. GetConfiguredStorage (\<lambda>_ _. 0) reference_client (\<lambda>_ _. []) () 0
      (Init no_flags disk_env None (\<lambda>_. False) no_file NewCTConfig) = Fatal msg) \<and>
   GetConfiguredStorage (\<lambda>_ _. 0) reference_client (\<lambda>_ _. []) () 0
      (Init no_flags (disk_env(''certPath'' := None)) None (\<lambda>_. False) no_file NewCTConfig) =
     Done (NewFilesystemDatabase () [] ())"
proof -
  have sec: "config_section no_file (config_file no_flags None (\<lambda>_. False)) = None"
    by (simp add: config_section_def config_file_def no_flags_def)
  have l: "layers_String env None k = [env k, None]" for env k by (simp add: layers_String_def file_key_def)
  have r: "NewRedisCache reference_client 0 [] = (None, [])"
    by (simp add: NewRedisCache_def reference_client_def MemoryPolicyCorrect_def split: prod.split)
  show ?thesis
    using configured_storage [where fl = no_flags and home = None and isfile = "\<lambda>_. False" and load = no_file and c = NewCTConfig
        and env = disk_env and fr = "\<lambda>_ _. 0" and cl = reference_client and connect = "\<lambda>_ _. []" and g = "()" and now = 0, unfolded sec l]
      configured_storage [where fl = no_flags and home = None and isfile = "\<lambda>_. False" and load = no_file and c = NewCTConfig
        and env = "disk_env(''certPath'' := None)" and fr = "\<lambda>_ _. 0" and cl = reference_client and connect = "\<lambda>_ _. []" and g = "()"
        and now = 0 and d = "5 * Second" and r = "[]", unfolded sec l] r settings_durations(1)
    by (simp add: disk_env_def Second_def)
qed

end
