(* ===== verification/Spec2Isabelle.thy ===== *)
theory Spec2Isabelle
  imports Aggregate_Crls Pipeline Engine
begin

text \<open>
  A verification library for the Go programs of the CRLite aggregation pipeline (the directory
  \<^verbatim>\<open>go\<close> of the repository).

  \<^bold>\<open>The program.\<close> Three programs share one database. \<^verbatim>\<open>ct-fetch\<close> downloads the entries of
  Certificate Transparency logs and stores the certificates: the serial number goes into a set per
  issuer and hour of expiry of a remote cache (Redis), the certificate itself to a storage backend,
  and the distribution points of the certificate into the metadata of the issuer. \<^verbatim>\<open>aggregate-crls\<close>
  takes those distribution points for the issuers of the Mozilla root program, downloads and checks
  the CRLs, and writes the revoked serial numbers of every issuer to a directory; an issuer all of
  whose CRLs were read is enrolled. \<^verbatim>\<open>aggregate-known\<close> writes the known, unexpired serial numbers of
  the enrolled issuers to another directory. From the two directories the filter is built, by a
  Python program that is not part of the Go code.

  \<^bold>\<open>The theories\<close>, in the order of their imports, with the files under \<^verbatim>\<open>src/go\<close> they translate.

  \<^item> \<open>Crlite_Prelude\<close>: bytes, strings, errors, the outcomes of a run (the type \<open>run\<close>: a value, a fatal error or a panic), the
    collections of simplification rules, lemmas on lists and words. \<open>Go_Encoding\<close> (hex and base64),
    \<open>Go_Json\<close> (strings), \<open>Go_Sha256\<close>, \<open>Go_Time\<close> (the calendar, layouts, durations), \<open>Go_Asn1\<close>,
    \<open>Go_Pem\<close>, \<open>Go_Csv\<close>, \<open>Go_Os\<close> (files, HTTP, paths) and \<open>Go_Duration\<close> (the parsers for settings) hold
    what the code uses of the Go library.
  \<^item> \<open>Storage_Types\<close>: \<^verbatim>\<open>storage/types.go\<close>. Serial numbers, issuers, expiry dates, log states and
    their identifiers; round trips of the encodings, the order of serial numbers, where two dates
    of the same hour differ.
  \<^item> \<open>Remote_Cache\<close>: the interface \<^verbatim>\<open>RemoteCache\<close> as a record of operations, with two contracts:
    \<open>set_cache\<close> (sets with a key, each perhaps with an expiry) and \<open>reading_cache\<close> (reads that leave
    the live keys as they are). \<open>Mock_Cache\<close> (\<^verbatim>\<open>storage/mockcache.go\<close>) and \<open>Redis_Cache\<close>
    (\<^verbatim>\<open>storage/rediscache.go\<close>) implement it; the mock's reachable states are characterised by a
    step relation, and the Redis client is a parameter with its documented behaviour as the locales
    \<open>redis_client\<close> and \<open>redis_queue\<close>, interpreted on a reference server.
  \<^item> \<open>Known_Certificates\<close> and \<open>Issuer_Metadata\<close> (\<^verbatim>\<open>storage/knowncertificates.go\<close>,
    \<^verbatim>\<open>storage/issuermetadata.go\<close>): proved once over \<open>set_cache\<close>, then for both caches.
  \<^item> \<open>Storage_Backend\<close>: the interface \<^verbatim>\<open>StorageBackend\<close>, \<^verbatim>\<open>storage/noopbackend.go\<close>,
    \<^verbatim>\<open>storage/mockbackend.go\<close>. \<open>Local_Disk\<close>: \<^verbatim>\<open>storage/localdiskbackend.go\<close> over the operating
    system of \<open>Go_Os\<close>; the locale \<open>known_lists\<close> is what the two aggregation programs rely on.
  \<^item> \<open>Filesystem_Database\<close>: \<^verbatim>\<open>storage/filesystemdatabase.go\<close>. Storing a certificate, the listing of
    issuers and dates from the keys of the cache, the state of a log. The local cache of the code
    (\<^verbatim>\<open>gcache\<close>) is the locale \<open>local_cache\<close>; its values are references into a heap of objects.
  \<^item> \<open>Crl_Types\<close> and \<open>Crl_Decode\<close>: \<^verbatim>\<open>types.go\<close>, maps of CRLs and the decoder that keeps the octets
    of serial numbers. \<open>Downloader\<close>: the package \<^verbatim>\<open>downloader\<close>. \<open>Root_Program\<close>:
    \<^verbatim>\<open>rootprogram/issuers.go\<close>. \<open>Crl_Auditor\<close> and \<open>Aggregate_Crls\<close>: \<^verbatim>\<open>cmd/aggregate-crls\<close>.
    \<open>Aggregate_Known\<close>: \<^verbatim>\<open>cmd/aggregate-known\<close>. \<open>Ct_Fetch\<close>: \<^verbatim>\<open>cmd/ct-fetch\<close>.
  \<^item> \<open>Config\<close>: \<^verbatim>\<open>config/config.go\<close>. \<open>Telemetry\<close>: \<^verbatim>\<open>telemetry/telemetry.go\<close>. \<open>Engine\<close>: \<^verbatim>\<open>engine/engine.go\<close> and
    \<^verbatim>\<open>cmd/get-mozilla-issuers\<close>.
  \<^item> \<open>Pipeline\<close>: lemmas that follow a serial number from the database threads of \<^verbatim>\<open>ct-fetch\<close> through the
    keys of the cache to what \<^verbatim>\<open>aggregate-known\<close> reads; the property is in this theory.

  \<^bold>\<open>How state and effects correspond.\<close> A struct is a record whose fields carry the names of the
  source, an interface a record of operations on a state \<open>'s\<close>. A method takes the state and returns
  it; a returned \<^verbatim>\<open>error\<close> is \<open>go_error option\<close> or the left of a sum, \<^verbatim>\<open>glog.Fatal\<close> and
  a Go panic are the constructors \<open>Fatal\<close> and \<open>Panic\<close> of \<open>run\<close>. A Go map is an association list, so that the order of an iteration,
  which Go leaves open, is the order of the list. Integers keep their width where they can wrap
  (the index of a log, octets, words of the hash). The clock, the random choice of a \<^verbatim>\<open>select\<close>,
  and which goroutine takes which unit of work are arguments; the statements hold for all of them.

  \<^bold>\<open>What is shown.\<close> From end to end, of the certificates that the database threads accept, those whose
  hour of expiry lies ahead are in the list of known certificates of their enrolled issuer, and that list holds
  only serial numbers of accepted certificates of the issuer whose hour of expiry is not over; this is over the
  mock cache, for an empty database, a clock that stands during the first stage and a second stage that is not
  interrupted (\<open>fetched_certificates_known\<close>). The database threads store exactly the entries that an
  independent description of the filter accepts (\<open>insert_worker_stores\<close>). Storing a certificate: \<open>store_certificate\<close>, \<open>store_failure_not_retried\<close>. The
  remote caches implement sets: \<open>mock_insert_refines_set\<close>, \<open>mock_reachable_states\<close>,
  \<open>redis_try_set_first_wins\<close> (over any sequence of calls), and the structures over them do what they
  promise: \<open>known_certificates_on_mock\<close>, \<open>known_certificates_on_redis\<close>, \<open>accumulate_on_mock\<close>;
  an insertion that failed is not repeated (\<open>accumulate_never_retries\<close>). A log
  worker downloads its whole range unless it is stopped (\<open>ct_download_live\<close>), what is saved never
  passes what was handed to the database threads (\<open>ct_crash_safe\<close>), and the next run goes on where
  this one stopped (\<open>ct_resumes\<close>). An issuer is enrolled exactly when each of its CRLs was read, and
  then its list holds their serial numbers (\<open>aggregateCRLs_enrols\<close>); a CRL that a download replaces
  the old one with carries a good signature (\<open>fetched_crl_signed\<close>). The list of an enrolled issuer
  holds the serial numbers of all its live dates (\<open>known_lists_stored\<close>). The encodings the programs
  exchange data in round trip: serial numbers, unique identifiers, log states in cache and on disk,
  lists of known certificates, the list of enrolled issuers, the CCADB report. Settings are resolved
  in one order of layers (\<open>config_layers\<close>), and which of them lead to a database (\<open>configured_storage\<close>).

  \<^bold>\<open>Bounds.\<close> DER lengths are below 16 MB, indices of logs below \<open>2\<^sup>6\<^sup>3\<close>, years have four digits: each
  is a hypothesis where it is used, and is met by every certificate the logs accept. No model uses
  fuel: loops over data are recursive functions that terminate, and the three loops of \<^verbatim>\<open>ct-fetch\<close>
  that may run for ever (waiting to put an entry on the channel, downloading, the rounds of a log)
  are partial functions into an option whose \<open>None\<close> is a run that does not return. That they return
  is proved under what makes them return: a server that answers a request often enough.

  \<^bold>\<open>Parameters.\<close> The Redis client, the \<^verbatim>\<open>gcache\<close> package, the CT client and parser, X.509 and CRL
  parsing and signatures, JSON of the larger structures, \<^verbatim>\<open>url.Parse\<close> and \<^verbatim>\<open>pem.Decode\<close> are arguments.
  Every locale that states what is relied on is interpreted on an instance over the definitions of
  the development.

  \<^bold>\<open>Not modelled.\<close> Goroutines are not interleaved within one unit of work: a worker finishes a unit
  before another starts one. Times are in UTC. Progress bars, metrics and log lines have no effect
  on the data, and neither does the usage text of \<^verbatim>\<open>config\<close>. The parsed command line and signals enter as
  values and as choices of the schedule. The end-to-end property is over the mock cache; the Redis
  client has no law for listing keys yet, and the revoked side (\<^verbatim>\<open>aggregate-crls\<close> from the metadata
  that \<^verbatim>\<open>ct-fetch\<close> wrote to the stored lists) is proved stage by stage only. The Python programs of the
  repository, which build the filter and publish it, are outside this library.
\<close>

subsection \<open>Properties that span the programs\<close>

text \<open>
  C1. From the log to the list of known certificates. On an empty database, over the mock cache, any
  backend that accepts what it is given and any local cache, the database threads of \<^verbatim>\<open>ct-fetch\<close> work
  through the entries of a channel while the clock stands at \<open>now\<close>; then \<^verbatim>\<open>aggregate-known\<close> runs at a
  time \<open>t\<close>, not interrupted, however its work is dealt to workers. The entries are as the CT library makes
  them (of one of the two kinds, with the part of that kind and a serial number that can be read); each
  accepted certificate has a date of expiry whose year has four digits and an issuer whose identifier the
  store of the lists can take as a name; the list of enrolled issuers could be loaded. Accepted
  certificates may be in their last hour or, where the settings ask for expired ones, expired. Then both
  end, and every enrolled issuer of an accepted certificate has a list that holds the serial number of each
  accepted certificate of the issuer whose hour of expiry begins after \<open>t\<close>, and only serial numbers of
  accepted certificates of the issuer whose hour of expiry is not over; in that hour a serial number may be
  there or not.
\<close>

theorem fetched_certificates_known:
  fixes ops :: "('l, 'v) ct_ops" and gc :: "'g gcache_ops" and sb :: "'b StorageBackend"
  assumes "accepting_backend sb" and "local_cache gc held" and "\<And>k. held g k = None"
    and "known_stage disk_sb stored_list named (MockRemoteCache_ops js) mock_inv (mock_live t) t ready"
    and "\<And>w. ct_Now ops w = now" and "\<forall>ep \<in> set eps. library_entry ops (ep_LogEntry ep)"
    and "xs = List.map_filter (accepted cf ops now) eps"
    and "\<forall>x \<in> set xs. storable x \<and> named (Issuer_ID (issuer_of x))"
    and "LoadEnrolledIssuers lib dec os enrolledpath (NewMozillaIssuers tmp) w = (None, mi)" and "ready w"
    and "\<And>us. mset (concat (deal us)) = mset us"
  shows "\<exists>ld c' w'.
    insertCTWorker cf (FilesystemDatabase_ops sb (MockRemoteCache_ops js) gc up) ops eps
      (NewLogSyncEngine (NewFilesystemDatabase b NewMockRemoteCache g) v) = Done ld \<and>
    aggregate_known_main lib dec os tmp enrolledpath (MockRemoteCache_ops js) disk_sb t (\<lambda>_ _. (False, t)) deal
      (ld_database ld) w = Done (c', w') \<and>
    (\<forall>x \<in> set xs. IsIssuerEnrolled mi (issuer_of x) \<longrightarrow>
       (\<exists>ss. stored_list w' (Issuer_ID (issuer_of x)) = Some ss \<and>
          serials_from xs (issuer_of x) (t + 1) \<subseteq> set ss \<and>
          set ss \<subseteq> serials_from xs (issuer_of x) (t - Hour + Millisecond)))"
proof -
  let ?ld = "NewLogSyncEngine (NewFilesystemDatabase b NewMockRemoteCache g) v"
  have st: "\<forall>x \<in> set xs. storable x" using assms(8) by blast
  obtain ld where ld: "insertCTWorker cf (FilesystemDatabase_ops sb (MockRemoteCache_ops js) gc up) ops eps ?ld = Done ld"
    and h: "holds up held xs (ld_database ld)"
    using worker_holds [OF assms(1,2,5,6) st [unfolded assms(7)], of up "[]" ?ld js] holds_empty [of held g up b] assms(3)
    by (auto simp: NewLogSyncEngine_def assms(7))
  obtain ids where g: "GetIssuerAndDatesFromCache (MockRemoteCache_ops js) t (ld_database ld) = Done (Inr ids, ld_database ld)"
    and ids: "(\<lambda>d. Issuer_ID (idt_Issuer d)) ` set ids = (\<lambda>x. Issuer_ID (issuer_of x)) ` set xs"
    and es: "\<forall>d \<in> set ids. set (ExpDates d) = (reparsed \<circ> date_of) ` {x \<in> set xs. Issuer_ID (issuer_of x) = Issuer_ID (idt_Issuer d)}"
    by (rule listed_issuer_dates [OF h st])
  have inv: "mock_inv (extCache (ld_database ld))" using h by (simp add: holds_def db_ok_def)
  have "\<forall>d \<in> set (enrolled_dates mi ids). named (Issuer_ID (idt_Issuer d))"
  proof
    fix d assume "d \<in> set (enrolled_dates mi ids)"
    then have "Issuer_ID (idt_Issuer d) \<in> (\<lambda>x. Issuer_ID (issuer_of x)) ` set xs" using ids by (auto simp: enrolled_dates_def)
    then show "named (Issuer_ID (idt_Issuer d))" using assms(8) by (elim imageE) metis
  qed
  from known_main [OF assms(4,9) g inv assms(10) this assms(11)] obtain c' w' where
    a: "aggregate_known_main lib dec os tmp enrolledpath (MockRemoteCache_ops js) disk_sb t (\<lambda>_ _. (False, t)) deal
      (ld_database ld) w = Done (c', w')"
    and own: "\<forall>d \<in> set (enrolled_dates mi ids). \<exists>ss. stored_list w' (Issuer_ID (idt_Issuer d)) = Some ss \<and>
       set ss = known_at (mock_live t) t (extCache (ld_database ld)) (idt_Issuer d) (ExpDates d)" by blast
  have "\<exists>ss. stored_list w' (Issuer_ID (issuer_of x)) = Some ss \<and> serials_from xs (issuer_of x) (t + 1) \<subseteq> set ss \<and>
      set ss \<subseteq> serials_from xs (issuer_of x) (t - Hour + Millisecond)"
    if x: "x \<in> set xs" and en: "IsIssuerEnrolled mi (issuer_of x)" for x
  proof -
    have "Issuer_ID (issuer_of x) \<in> (\<lambda>d. Issuer_ID (idt_Issuer d)) ` set ids" unfolding ids using x by (rule imageI)
    then obtain d where d: "d \<in> set ids" "Issuer_ID (idt_Issuer d) = Issuer_ID (issuer_of x)" by force
    have "d \<in> set (enrolled_dates mi ids)" using d en by (simp add: enrolled_dates_def IsIssuerEnrolled_def)
    moreover have "serials_from xs (idt_Issuer d) u = serials_from xs (issuer_of x) u" for u using d(2) by (simp add: serials_from_def)
    ultimately show ?thesis using own known_at_stored [OF h st es [rule_format, OF d(1)], of t] d(2) by metis
  qed
  with ld a show ?thesis by blast
qed

definition pipe_ops :: "(nat, nat) ct_ops" where
  "pipe_ops = demo_ops\<lparr>ct_ParseCertificate := \<lambda>_. Inr (text_cert ''A'')\<rparr>"

definition pipe_cert :: Certificate where
  "pipe_cert = fresh_cert\<lparr>IsCA := False\<rparr>"

definition pipe_entry :: CtLogEntry where
  "pipe_entry = \<lparr>ep_LogEntry = (demo_entry 0)\<lparr>X509Cert := Some pipe_cert\<rparr>, ep_LogURL = ''u''\<rparr>"

definition pipe_stored :: stored where
  "pipe_stored = (pipe_cert, text_cert ''A'', ''u'', 0)"

lemma pipe_facts:
  "four_digit_year (NotAfter pipe_cert)" "NewSerial pipe_cert = Done (Serial [0, 0xA5])"
  "8 \<le> ExpireTime (NewExpDateFromTime (NotAfter pipe_cert))" "wanted demo_config 7 pipe_cert"
  by code_simp+

lemma pipe_accepted: "List.map_filter (accepted demo_config pipe_ops 7) [pipe_entry] = [pipe_stored]"
  using pipe_facts(4)
  by (simp add: List.map_filter_simps accepted_def certificate_in_def pipe_entry_def demo_entry_def pipe_ops_def demo_ops_def pipe_stored_def)

lemma pipe_storable: "storable pipe_stored"
  using pipe_facts by (simp add: storable_def pipe_stored_def date_of_def)

lemma pipe_serials:
  "u \<le> 8 \<Longrightarrow> serials_from [pipe_stored] (issuer_of pipe_stored) u = {Serial [0, 0xA5]}"
  using pipe_facts(2,3) by (auto simp: serials_from_def pipe_stored_def date_of_def)

theorem fetched_certificates_known_witness:
  "\<exists>ld c' w' ss.
    insertCTWorker demo_config (FilesystemDatabase_ops NoopBackend_ops (MockRemoteCache_ops sample_codec) (fifo_gcache 2) any_url)
      pipe_ops [pipe_entry] (NewLogSyncEngine (NewFilesystemDatabase () NewMockRemoteCache []) 0) = Done ld \<and>
    aggregate_known_main sample_lib (\<lambda>_. Inr kn_list) sim_os ''t'' ''f'' (MockRemoteCache_ops sample_codec)
      (LocalDisk_ops sample_codec sim_os (NewLocalDiskBackend ''r'')) 7 (\<lambda>_ _. (False, 7)) (\<lambda>us. [us, []]) (ld_database ld)
      sample_sim = Done (c', w') \<and>
    Option.bind (sim_content w' (known_path (NewLocalDiskBackend ''r'') (Issuer_ID kn_issuer))) read_known = Some ss \<and>
    set ss = {Serial [0, 0xA5]}"
proof -
  obtain mi where mi: "LoadEnrolledIssuers sample_lib (\<lambda>_. Inr kn_list) sim_os ''f'' (NewMozillaIssuers ''t'') sample_sim = (None, mi)"
    "IsIssuerEnrolled mi kn_issuer" using kn_load by blast
  have i: "issuer_of pipe_stored = kn_issuer" by (simp add: issuer_of_def pipe_stored_def kn_issuer_def)
  have "library_entry pipe_ops (ep_LogEntry pipe_entry)"
    using pipe_facts(2) by (simp add: library_entry_def certificate_in_def demo_entry_def pipe_entry_def)
  moreover have "ct_Now pipe_ops w = 7" for w by (simp add: pipe_ops_def demo_ops_def)
  moreover have "file_name (Issuer_ID (issuer_of pipe_stored))" unfolding issuer_of_def by (rule file_name_NewIssuer)
  moreover have "\<not> sim_cancelled sample_sim" by (simp add: sample_sim_def)
  moreover have "map_of [] k = None" for k :: string by simp
  ultimately show ?thesis
    using fetched_certificates_known [OF noop_accepts.accepting_backend_axioms fifo.local_cache_axioms [of 2] _
        sim_known.known_stage_axioms [of 7], of "[]" pipe_ops 7 "[pipe_entry]" "[pipe_stored]" demo_config sample_lib "\<lambda>_. Inr kn_list"
        sim_os "''f''" "''t''" sample_sim mi "\<lambda>us. [us, []]" any_url "()" 0]
      pipe_accepted pipe_storable pipe_serials [of 8] pipe_serials [of "7 - Hour + Millisecond"] mi i
    by (fastforce simp: Hour_def Millisecond_def)
qed

end
